(* ===== verification/Prelude.thy ===== *)
theory Prelude
  imports Complex_Main "HOL-Library.Multiset"
begin

text \<open>
  Shared vocabulary of the Natours development: the types that name identifiers and
  timestamps, the lemma collections the component theories feed, and generic facts on
  lists of documents (filtering, counting, summing, the first match of a predicate) that
  the rating aggregator and the query pipeline both use.
\<close>

section \<open>Names for the model's types\<close>

text \<open>
  A MongoDB ObjectId is an opaque, totally ordered identifier: a natural number here.
  A JavaScript \<open>Date\<close> is a number of milliseconds: an integer here.
\<close>

type_synonym oid = nat
type_synonym timestamp = int

section \<open>Errors\<close>

text \<open>
  The exceptions the modelled code can raise or receive, as values: a Mongoose
  \<open>ValidationError\<close> lists the failing paths with the validator that failed on each
  (the kinds Mongoose reports: required, maxlength, minlength, min, max, enum and a
  user-defined \<open>validate\<close> function); a
  MongoDB duplicate-key error (code E11000) comes from a unique index; a JavaScript
  \<open>TypeError\<close> or \<open>SyntaxError\<close> carries its message.
\<close>

datatype validator_kind = Required | MaxLength | MinLength | Min | Max | Enum | User_defined

datatype error =
    ValidationError "(string \<times> validator_kind) list"
  | DuplicateKey
  | TypeError string
  | SyntaxError string

text \<open>An optional new value for a field: the update document's value when the update
  sets the path, the current value otherwise.\<close>

fun upd_opt :: "'a option \<Rightarrow> 'a \<Rightarrow> 'a" where
  "upd_opt None x = x"
| "upd_opt (Some y) x = y"

section \<open>Lemma collections\<close>

named_theorems store_simps "evaluation rules of the document-store operations"
named_theorems agg_simps "evaluation rules of the rating aggregator"
named_theorems js_simps "evaluation rules of the JavaScript built-ins the code calls"

section \<open>The first element satisfying a predicate\<close>

text \<open>
  A document store answers \<open>findOne\<close> with the first document, in natural order, that
  matches the query; \<^const>\<open>find\<close> of the list library is that operation. The update
  of the first match and the removal of the first match are its companions.
\<close>

fun update_first :: "('a \<Rightarrow> bool) \<Rightarrow> ('a \<Rightarrow> 'a) \<Rightarrow> 'a list \<Rightarrow> 'a list" where
  "update_first P f [] = []"
| "update_first P f (x # xs) = (if P x then f x # xs else x # update_first P f xs)"

fun delete_first :: "('a \<Rightarrow> bool) \<Rightarrow> 'a list \<Rightarrow> 'a list" where
  "delete_first P [] = []"
| "delete_first P (x # xs) = (if P x then xs else x # delete_first P xs)"

section \<open>Counting and summing over filtered lists\<close>

lemma length_filter_insert_other:
  "\<not> P x \<Longrightarrow> length (filter P (xs @ [x])) = length (filter P xs)"
  by simp

lemma sum_list_map_filter_append:
  "sum_list (map f (filter P (xs @ ys))) =
     sum_list (map f (filter P xs)) + sum_list (map f (filter P ys))"
  by simp

lemma filter_cong_on_set:
  "(\<And>x. x \<in> set xs \<Longrightarrow> P x = Q x) \<Longrightarrow> filter P xs = filter Q xs"
  by (rule filter_cong) auto

lemma update_first_idem:
  "(\<And>x. P (f x) = P x) \<Longrightarrow> (\<And>x. P x \<Longrightarrow> f (f x) = f x) \<Longrightarrow>
   update_first P f (update_first P f xs) = update_first P f xs"
  by (induction xs) auto

lemma update_first_no_match [simp]:
  "find P xs = None \<Longrightarrow> update_first P f xs = xs"
  by (induction xs) (auto split: if_splits)

lemma delete_first_no_match [simp]:
  "find P xs = None \<Longrightarrow> delete_first P xs = xs"
  by (induction xs) (auto split: if_splits)

lemma length_update_first [simp]: "length (update_first P f xs) = length xs"
  by (induction xs) auto

lemma map_update_first_frame:
  "(\<And>x. P x \<Longrightarrow> g (f x) = g x) \<Longrightarrow> map g (update_first P f xs) = map g xs"
  by (induction xs) auto

lemma find_SomeD:
  "find P xs = Some x \<Longrightarrow> x \<in> set xs \<and> P x"
  by (induction xs) (auto split: if_splits)

lemma find_Some_split:
  "find P xs = Some x \<Longrightarrow> \<exists>ys zs. xs = ys @ x # zs \<and> (\<forall>y\<in>set ys. \<not> P y) \<and> P x"
proof (induction xs)
  case Nil
  then show ?case by simp
next
  case (Cons y xs)
  show ?case
  proof (cases "P y")
    case True
    with Cons.prems show ?thesis by force
  next
    case False
    with Cons.prems obtain ys zs where "xs = ys @ x # zs" "\<forall>y\<in>set ys. \<not> P y" "P x"
      using Cons.IH by auto
    with False show ?thesis by (metis Cons_eq_appendI set_ConsD)
  qed
qed

lemma update_first_split:
  "find P xs = Some x \<Longrightarrow> \<exists>ys zs. xs = ys @ x # zs \<and> update_first P f xs = ys @ f x # zs
     \<and> (\<forall>y\<in>set ys. \<not> P y)"
proof (induction xs)
  case Nil
  then show ?case by simp
next
  case (Cons y xs)
  show ?case
  proof (cases "P y")
    case True
    with Cons.prems show ?thesis by force
  next
    case False
    with Cons.prems obtain ys zs where
      "xs = ys @ x # zs" "update_first P f xs = ys @ f x # zs" "\<forall>y\<in>set ys. \<not> P y"
      using Cons.IH by auto
    with False show ?thesis
      by (intro exI [of _ "y # ys"] exI [of _ zs]) auto
  qed
qed

lemma delete_first_split:
  "find P xs = Some x \<Longrightarrow> \<exists>ys zs. xs = ys @ x # zs \<and> delete_first P xs = ys @ zs"
proof (induction xs)
  case Nil
  then show ?case by simp
next
  case (Cons y xs)
  show ?case
  proof (cases "P y")
    case True
    with Cons.prems show ?thesis by force
  next
    case False
    with Cons.prems obtain ys zs where "xs = ys @ x # zs" "delete_first P xs = ys @ zs"
      using Cons.IH by auto
    with False show ?thesis
      by (intro exI [of _ "y # ys"] exI [of _ zs]) auto
  qed
qed

lemma takeWhile_all: "list_all P s \<Longrightarrow> takeWhile P s = s"
  by (induction s) auto

lemma dropWhile_all: "list_all P s \<Longrightarrow> dropWhile P s = []"
  by (induction s) auto

lemma dropWhile_none: "s = [] \<or> \<not> P (hd s) \<Longrightarrow> dropWhile P s = s"
  by (cases s) auto

end
