(* ===== verification/Js_Runtime.thy ===== *)
theory Js_Runtime
  imports Prelude
begin

text \<open>
  The JavaScript built-ins the Natours code calls, with the meaning ECMAScript gives them:
  \<open>Math.round\<close> (the tour schema's \<open>ratingsAverage\<close> setter); the values a request's
  query string parses to; \<open>ToNumber\<close> on them (\<open>x * 1\<close> in the pagination),
  truthiness and \<open>||\<close>; \<open>String.prototype.split\<close> and
  \<open>Array.prototype.join\<close> (the sort and projection stages). JavaScript numbers are
  IEEE doubles; the model computes with exact rationals extended by \<open>NaN\<close> and the
  infinities, so results agree with the program wherever the double computation is
  exact (the header of the root theory says where this matters).
\<close>

section \<open>Math.round\<close>

text \<open>
  ECMAScript: \<open>Math.round(x)\<close> is the integral number closest to \<open>x\<close>; when two are
  equally close, the one closer to \<open>+\<infinity>\<close>. That is \<open>\<lfloor>x + 1/2\<rfloor>\<close>.
\<close>

definition js_round :: "rat \<Rightarrow> rat" where
  "js_round x = of_int \<lfloor>x + 1/2\<rfloor>"

section \<open>Values\<close>

text \<open>
  The JavaScript values the modelled code handles: strings, booleans, arrays and plain
  objects. An object is the list of its own enumerable properties in insertion order, keys
  distinct. The query string parser of Express (\<open>qs\<close>, the \<open>extended\<close> parser) yields
  strings, arrays and objects only: \<open>?price[gte]=5\<close> is the object
  \<open>{price: {gte: '5'}}\<close>; booleans appear in conditions the code writes itself.
\<close>

datatype jval = JStr string | JBool bool | JArr "jval list" | JObj "(string \<times> jval) list"

text \<open>Assignment \<open>o[k] = v\<close>: an existing property keeps its position.\<close>

fun obj_set :: "string \<Rightarrow> 'v \<Rightarrow> (string \<times> 'v) list \<Rightarrow> (string \<times> 'v) list" where
  "obj_set k v [] = [(k, v)]"
| "obj_set k v ((k', v') # kvs) = (if k' = k then (k, v) # kvs else (k', v') # obj_set k v kvs)"

text \<open>\<open>delete o[k]\<close>.\<close>

definition obj_delete :: "string \<Rightarrow> (string \<times> 'v) list \<Rightarrow> (string \<times> 'v) list" where
  "obj_delete k kvs = filter (\<lambda>(k', _). k' \<noteq> k) kvs"

section \<open>Numbers\<close>

datatype jsnum = Num rat | NaN | PosInf | NegInf

text \<open>Whitespace of \<open>StringToNumber\<close> within one byte: TAB, LF, VT, FF, CR, SPACE.\<close>

definition js_space :: "char \<Rightarrow> bool" where
  "js_space c \<longleftrightarrow> of_char c \<in> {9, 10, 11, 12, 13, 32 :: nat}"

definition trim_js :: "string \<Rightarrow> string" where
  "trim_js s = rev (dropWhile js_space (rev (dropWhile js_space s)))"

definition digit_val :: "nat \<Rightarrow> char \<Rightarrow> nat option" where
  "digit_val b c =
     (let n = of_char c :: nat in
      if 48 \<le> n \<and> n \<le> 57 \<and> n - 48 < b then Some (n - 48)
      else if 97 \<le> n \<and> n \<le> 122 \<and> n - 87 < b then Some (n - 87)
      else if 65 \<le> n \<and> n \<le> 90 \<and> n - 55 < b then Some (n - 55)
      else None)"

text \<open>A nonempty run of digits in base \<open>b\<close>, as a number, or \<open>None\<close>.\<close>

definition digits_val :: "nat \<Rightarrow> string \<Rightarrow> nat option" where
  "digits_val b s =
     (if s = [] \<or> \<not> list_all (\<lambda>c. digit_val b c \<noteq> None) s then None
      else Some (foldl (\<lambda>acc c. acc * b + the (digit_val b c)) 0 s))"

definition is_digit :: "char \<Rightarrow> bool" where
  "is_digit c \<longleftrightarrow> digit_val 10 c \<noteq> None"

text \<open>
  \<open>StrUnsignedDecimalLiteral\<close>: \<open>Infinity\<close>, or digits with an optional fraction and
  an optional exponent, at least one digit before or after the point.
\<close>

definition unsigned_decimal :: "string \<Rightarrow> jsnum" where
  "unsigned_decimal s =
     (if s = ''Infinity'' then PosInf
      else
        let ip = takeWhile is_digit s; r1 = dropWhile is_digit s;
            hasdot = (r1 \<noteq> [] \<and> hd r1 = CHR ''.'');
            fp = (if hasdot then takeWhile is_digit (tl r1) else []);
            r2 = (if hasdot then dropWhile is_digit (tl r1) else r1);
            ex = (if r2 = [] then Some 0
                  else if hd r2 = CHR ''e'' \<or> hd r2 = CHR ''E'' then
                    (let r = tl r2 in
                     if r \<noteq> [] \<and> hd r = CHR ''+'' then map_option int (digits_val 10 (tl r))
                     else if r \<noteq> [] \<and> hd r = CHR ''-'' then map_option (\<lambda>n. - int n) (digits_val 10 (tl r))
                     else map_option int (digits_val 10 r))
                  else None)
        in if ip = [] \<and> fp = [] then NaN
           else (case ex of
                   None \<Rightarrow> NaN
                 | Some e \<Rightarrow>
                     let m = of_nat (foldl (\<lambda>acc c. acc * 10 + the (digit_val 10 c)) 0 (ip @ fp))
                             / of_nat (10 ^ length fp) :: rat
                     in Num (if 0 \<le> e then m * 10 ^ nat e else m / 10 ^ nat (- e))))"

definition js_negate :: "jsnum \<Rightarrow> jsnum" where
  "js_negate x = (case x of Num r \<Rightarrow> Num (- r) | NaN \<Rightarrow> NaN | PosInf \<Rightarrow> NegInf | NegInf \<Rightarrow> PosInf)"

text \<open>The prefix of a binary, octal or hexadecimal integer literal: its base.\<close>

definition radix_prefix :: "string \<Rightarrow> nat option" where
  "radix_prefix s =
     (case s of
        c # b # _ \<Rightarrow>
          if c \<noteq> CHR ''0'' then None
          else if b = CHR ''x'' \<or> b = CHR ''X'' then Some 16
          else if b = CHR ''o'' \<or> b = CHR ''O'' then Some 8
          else if b = CHR ''b'' \<or> b = CHR ''B'' then Some 2
          else None
      | _ \<Rightarrow> None)"

text \<open>\<open>StringToNumber\<close>: trim; the empty string is 0; a binary, octal or hexadecimal
  integer literal (no sign); a signed decimal literal; anything else is \<open>NaN\<close>.\<close>

definition string_to_number :: "string \<Rightarrow> jsnum" where
  "string_to_number s0 =
     (let s = trim_js s0 in
      if s = [] then Num 0
      else (case radix_prefix s of
              Some b \<Rightarrow> (case digits_val b (drop 2 s) of Some n \<Rightarrow> Num (of_nat n) | None \<Rightarrow> NaN)
            | None \<Rightarrow>
                if hd s = CHR ''+'' then unsigned_decimal (tl s)
                else if hd s = CHR ''-'' then js_negate (unsigned_decimal (tl s))
                else unsigned_decimal s))"

text \<open>\<open>xs.join(sep)\<close>.\<close>

fun js_join :: "string \<Rightarrow> string list \<Rightarrow> string" where
  "js_join sep [] = []"
| "js_join sep [x] = x"
| "js_join sep (x # y # xs) = x @ sep @ js_join sep (y # xs)"

text \<open>\<open>ToString\<close> of a value as \<open>ToPrimitive\<close> reaches it: an array joins its elements'
  strings with commas, a plain object is \<open>[object Object]\<close>.\<close>

fun js_to_string :: "jval \<Rightarrow> string" where
  "js_to_string (JStr s) = s"
| "js_to_string (JBool b) = (if b then ''true'' else ''false'')"
| "js_to_string (JArr vs) = js_join '','' (map js_to_string vs)"
| "js_to_string (JObj _) = ''[object Object]''"

text \<open>\<open>ToNumber\<close> of a property that may be absent (\<open>undefined\<close> is \<open>NaN\<close>); this is
  what \<open>x * 1\<close> computes.\<close>

definition js_to_number :: "jval option \<Rightarrow> jsnum" where
  "js_to_number v =
     (case v of
        None \<Rightarrow> NaN
      | Some (JBool b) \<Rightarrow> Num (if b then 1 else 0)
      | Some x \<Rightarrow> string_to_number (js_to_string x))"

text \<open>\<open>ToBoolean\<close> of a number and of a possibly absent value; \<open>a || b\<close> on numbers.\<close>

definition num_truthy :: "jsnum \<Rightarrow> bool" where
  "num_truthy x = (case x of Num r \<Rightarrow> r \<noteq> 0 | NaN \<Rightarrow> False | _ \<Rightarrow> True)"

definition js_truthy :: "jval option \<Rightarrow> bool" where
  "js_truthy v = (case v of None \<Rightarrow> False | Some (JStr s) \<Rightarrow> s \<noteq> [] | Some (JBool b) \<Rightarrow> b | Some _ \<Rightarrow> True)"

definition js_or :: "jsnum \<Rightarrow> jsnum \<Rightarrow> jsnum" where
  "js_or a b = (if num_truthy a then a else b)"

text \<open>IEEE subtraction and multiplication on the extended numbers.\<close>

fun js_sub :: "jsnum \<Rightarrow> jsnum \<Rightarrow> jsnum" where
  "js_sub (Num a) (Num b) = Num (a - b)"
| "js_sub PosInf NegInf = PosInf"
| "js_sub NegInf PosInf = NegInf"
| "js_sub PosInf PosInf = NaN"
| "js_sub NegInf NegInf = NaN"
| "js_sub PosInf (Num _) = PosInf"
| "js_sub NegInf (Num _) = NegInf"
| "js_sub (Num _) PosInf = NegInf"
| "js_sub (Num _) NegInf = PosInf"
| "js_sub _ _ = NaN"

definition inf_of_sign :: "bool \<Rightarrow> jsnum" where
  "inf_of_sign pos = (if pos then PosInf else NegInf)"

fun js_mul :: "jsnum \<Rightarrow> jsnum \<Rightarrow> jsnum" where
  "js_mul (Num a) (Num b) = Num (a * b)"
| "js_mul NaN _ = NaN"
| "js_mul _ NaN = NaN"
| "js_mul (Num a) PosInf = (if a = 0 then NaN else inf_of_sign (0 < a))"
| "js_mul (Num a) NegInf = (if a = 0 then NaN else inf_of_sign (a < 0))"
| "js_mul PosInf (Num b) = (if b = 0 then NaN else inf_of_sign (0 < b))"
| "js_mul NegInf (Num b) = (if b = 0 then NaN else inf_of_sign (b < 0))"
| "js_mul PosInf PosInf = PosInf"
| "js_mul NegInf NegInf = PosInf"
| "js_mul _ _ = NegInf"

section \<open>Strings\<close>

text \<open>\<open>s.split(c)\<close> with a one-character separator: the pieces between separators,
  empty ones included.\<close>

fun js_split :: "char \<Rightarrow> string \<Rightarrow> string list" where
  "js_split c [] = [[]]"
| "js_split c (x # xs) =
     (if x = c then [] # js_split c xs
      else (case js_split c xs of p # ps \<Rightarrow> (x # p) # ps | [] \<Rightarrow> [[x]]))"

lemma js_round_bounds:
  "x - 1/2 < js_round x \<and> js_round x \<le> x + 1/2"
proof -
  have "of_int \<lfloor>x + 1/2\<rfloor> \<le> x + 1/2" by (rule of_int_floor_le)
  moreover have "x + 1/2 < of_int \<lfloor>x + 1/2\<rfloor> + 1" using floor_correct [of "x + 1/2"] by simp
  ultimately show ?thesis by (simp add: js_round_def)
qed

lemma js_round_int [simp, js_simps]: "js_round (of_int k) = of_int k"
proof -
  have "\<lfloor>(of_int k :: rat) + 1/2\<rfloor> = k" by (simp add: floor_unique)
  then show ?thesis by (simp add: js_round_def)
qed

lemma js_round_mono: "x \<le> y \<Longrightarrow> js_round x \<le> js_round y"
  by (simp add: js_round_def floor_mono)

lemma js_mul_one [simp]: "js_mul x (Num 1) = x"
  by (cases x) (simp_all add: inf_of_sign_def)

lemma digits_val_Some:
  "digits_val b s = Some n \<Longrightarrow> s \<noteq> [] \<and> list_all (\<lambda>c. digit_val b c \<noteq> None) s \<and>
     n = foldl (\<lambda>acc c. acc * b + the (digit_val b c)) 0 s"
  by (auto simp: digits_val_def split: if_splits)

lemma is_digit_range: "is_digit c \<longleftrightarrow> 48 \<le> (of_char c :: nat) \<and> (of_char c :: nat) \<le> 57"
  by (auto simp: is_digit_def digit_val_def Let_def)

lemma is_digit_not_special:
  "is_digit c \<Longrightarrow> c \<noteq> CHR ''x'' \<and> c \<noteq> CHR ''X'' \<and> c \<noteq> CHR ''o'' \<and> c \<noteq> CHR ''O'' \<and>
     c \<noteq> CHR ''b'' \<and> c \<noteq> CHR ''B'' \<and> c \<noteq> CHR ''+'' \<and> c \<noteq> CHR ''-'' \<and> \<not> js_space c"
  by (auto simp: is_digit_range js_space_def)

lemma radix_prefix_digits:
  assumes d: "list_all is_digit s"
  shows "radix_prefix s = None"
proof (cases s)
  case Nil
  then show ?thesis by (simp add: radix_prefix_def)
next
  case (Cons c r)
  show ?thesis
  proof (cases r)
    case Nil
    with Cons show ?thesis by (simp add: radix_prefix_def)
  next
    case (Cons b r')
    have "is_digit b" using d \<open>s = c # r\<close> Cons by simp
    then have "b \<noteq> CHR ''x'' \<and> b \<noteq> CHR ''X'' \<and> b \<noteq> CHR ''o'' \<and> b \<noteq> CHR ''O'' \<and>
     b \<noteq> CHR ''b'' \<and> b \<noteq> CHR ''B''" using is_digit_not_special by blast
    then show ?thesis using \<open>s = c # r\<close> Cons by (simp add: radix_prefix_def)
  qed
qed

lemma unsigned_decimal_digits:
  assumes "digits_val 10 s = Some n"
  shows "unsigned_decimal s = Num (of_nat n)"
proof -
  from digits_val_Some [OF assms] have ne: "s \<noteq> []" and dig: "list_all is_digit s"
    and n: "n = foldl (\<lambda>acc c. acc * 10 + the (digit_val 10 c)) 0 s"
    by (auto simp: is_digit_def list_all_iff)
  have "s \<noteq> ''Infinity''" using dig by (auto simp: is_digit_def digit_val_def)
  with ne dig n show ?thesis
    by (simp add: unsigned_decimal_def takeWhile_all dropWhile_all)
qed

lemma trim_js_digits: "list_all is_digit s \<Longrightarrow> trim_js s = s"
proof -
  assume d: "list_all is_digit s"
  then have "s = [] \<or> \<not> js_space (hd s)" by (cases s) (auto dest: is_digit_not_special)
  moreover have "rev s = [] \<or> \<not> js_space (hd (rev s))" using d
    by (cases "rev s") (auto simp: list_all_iff dest: is_digit_not_special arg_cong [of _ _ set])
  ultimately show ?thesis by (simp add: trim_js_def dropWhile_none)
qed

lemma trim_js_id:
  "s \<noteq> [] \<Longrightarrow> \<not> js_space (hd s) \<Longrightarrow> \<not> js_space (last s) \<Longrightarrow> trim_js s = s"
  by (simp add: trim_js_def dropWhile_none hd_rev)

lemma trim_js_ends:
  assumes ne: "trim_js w \<noteq> []"
  shows "\<not> js_space (hd (trim_js w)) \<and> \<not> js_space (last (trim_js w))"
proof -
  define b where "b = dropWhile js_space w"
  define a where "a = dropWhile js_space (rev b)"
  have t: "trim_js w = rev a" by (simp add: trim_js_def a_def b_def)
  have ane: "a \<noteq> []" using ne t by simp
  then have bne: "b \<noteq> []" by (auto simp: a_def)
  have "last a = last (rev b)"
    using ane unfolding a_def dropWhile_eq_drop by (simp add: last_drop)
  then have "last a = hd b" using bne by (simp add: last_rev)
  then have "\<not> js_space (last a)" using bne hd_dropWhile unfolding b_def by metis
  moreover have "\<not> js_space (hd a)" using ane hd_dropWhile unfolding a_def by metis
  ultimately show ?thesis using ane by (simp add: t hd_rev last_rev)
qed

lemma set_trim_js: "set (trim_js w) \<subseteq> set w"
  unfolding trim_js_def by (metis set_dropWhileD set_rev subsetI)

lemma trim_js_map:
  "(\<And>c. js_space (f c) = js_space c) \<Longrightarrow> trim_js (map f u) = map f (trim_js u)"
  by (simp add: trim_js_def dropWhile_map rev_map comp_def)

lemma trim_js_idem [simp]: "trim_js (trim_js w) = trim_js w"
  by (cases "trim_js w = []") (simp_all add: trim_js_def [of "[]"] trim_js_id trim_js_ends)

text \<open>A decimal digit string converts to the number it denotes.\<close>

lemma string_to_number_digits:
  assumes "digits_val 10 s = Some n"
  shows "string_to_number s = Num (of_nat n)"
proof -
  from digits_val_Some [OF assms] have ne: "s \<noteq> []" and dig: "list_all is_digit s"
    by (auto simp: is_digit_def list_all_iff)
  have t: "trim_js s = s" using dig by (rule trim_js_digits)
  have "is_digit (hd s)" using ne dig by (cases s) auto
  then have nosign: "hd s \<noteq> CHR ''+'' \<and> hd s \<noteq> CHR ''-''" using is_digit_not_special by blast
  have "radix_prefix s = None" using dig by (rule radix_prefix_digits)
  with ne t nosign show ?thesis
    by (simp add: string_to_number_def unsigned_decimal_digits [OF assms])
qed

lemma fold_obj_set_fresh:
  "distinct (map fst kvs) \<Longrightarrow> set (map fst kvs) \<inter> set (map fst acc) = {} \<Longrightarrow>
   fold (\<lambda>(k, v). obj_set k v) kvs acc = acc @ kvs"
proof (induction kvs arbitrary: acc)
  case Nil
  then show ?case by simp
next
  case (Cons kv kvs)
  obtain k v where kv: "kv = (k, v)" by fastforce
  have "k \<notin> fst ` set acc" using Cons.prems kv by auto
  then have "obj_set k v acc = acc @ [(k, v)]" by (induction acc) auto
  with Cons kv show ?case by auto
qed

end
