(* ===== verification/Tour_Model.thy ===== *)
theory Tour_Model
  imports Js_Runtime
begin

text \<open>
  The Tour model of \<open>src/models/tourModel.js\<close>: the schema's document as a record, the
  setter of \<open>ratingsAverage\<close> (rounding to one decimal), the query middleware that
  every query whose name starts with \<open>find\<close> runs (it hides secret tours), and
  \<open>Tour.findByIdAndUpdate\<close> as the rating aggregator calls it. The lemmas give the
  bounds of the setter and the effect of an update on a visible and on a secret tour.
\<close>

section \<open>The tour document\<close>

datatype difficulty = Easy | Medium | Difficult

text \<open>A GeoJSON point of \<open>startLocation\<close> and of each entry of \<open>locations\<close>.\<close>

record geo_location =
  loc_type :: string
  coordinates :: "rat list"
  address :: "string option"
  loc_description :: "string option"
  day :: "rat option"

text \<open>
  One field per path of \<open>tourSchema\<close>, in the schema's order, after the document's
  \<open>_id\<close>; optional paths without a default are options. \<open>createdAt\<close> is
  \<open>tour_createdAt\<close> here, since the review record has a field of that name too.
\<close>

record tour_doc =
  tour_id :: oid
  name :: string
  slug :: "string option"
  duration :: rat
  maxGroupSize :: rat
  difficulty :: difficulty
  ratingsAverage :: rat
  ratingsQuantity :: nat
  price :: rat
  priceDiscount :: "rat option"
  summary :: string
  description :: "string option"
  imageCover :: string
  images :: "string list"
  tour_createdAt :: timestamp
  startDates :: "timestamp list"
  secretTour :: bool
  startLocation :: geo_location
  locations :: "geo_location list"
  guides :: "oid list"

section \<open>The setter of ratingsAverage\<close>

text \<open>\<open>set: (val) => Math.round(val * 10) / 10\<close>: every value written to the path is
  rounded to one decimal.\<close>

definition set_ratingsAverage :: "rat \<Rightarrow> rat" where
  "set_ratingsAverage val = js_round (val * 10) / 10"

section \<open>Query middleware\<close>

text \<open>
  \<open>tourSchema.pre(/^find/, ...)\<close> adds \<open>{ secretTour: { $ne: true } }\<close> to the
  conditions of every query whose operation name starts with \<open>find\<close>: \<open>find\<close>,
  \<open>findOne\<close>, and also \<open>findOneAndUpdate\<close>, which \<open>findByIdAndUpdate\<close> is.
  The predicate below is that added condition on a document.
\<close>

definition tour_find_hook :: "tour_doc \<Rightarrow> bool" where
  "tour_find_hook d \<longleftrightarrow> secretTour d \<noteq> True"

section \<open>Tour.findByIdAndUpdate with the aggregate fields\<close>

text \<open>
  The update document \<open>{ ratingsQuantity, ratingsAverage }\<close> that
  \<open>calcAverageRatings\<close> sends. Mongoose casts it and runs the path's setter on it; it
  runs no validators, since the call passes no \<open>runValidators\<close>.
\<close>

record rating_update =
  upd_ratingsQuantity :: nat
  upd_ratingsAverage :: rat

definition apply_rating_update :: "rating_update \<Rightarrow> tour_doc \<Rightarrow> tour_doc" where
  "apply_rating_update u d =
     d\<lparr>ratingsQuantity := upd_ratingsQuantity u,
       ratingsAverage := set_ratingsAverage (upd_ratingsAverage u)\<rparr>"

text \<open>
  \<open>Tour.findByIdAndUpdate(id, u)\<close>: the conditions \<open>{_id: id}\<close>, merged by the
  middleware with the secret-tour condition; the first matching document of the
  collection is updated, the others are left as they are.
\<close>

definition tour_findByIdAndUpdate :: "oid \<Rightarrow> rating_update \<Rightarrow> tour_doc list \<Rightarrow> tour_doc list" where
  "tour_findByIdAndUpdate tid u ts =
     update_first (\<lambda>d. tour_id d = tid \<and> tour_find_hook d) (apply_rating_update u) ts"

lemma set_ratingsAverage_close:
  "\<bar>set_ratingsAverage x - x\<bar> \<le> 1/20"
proof -
  have b: "x * 10 - 1/2 < js_round (x * 10) \<and> js_round (x * 10) \<le> x * 10 + 1/2"
    by (rule js_round_bounds)
  have e: "set_ratingsAverage x * 10 = js_round (x * 10)"
    by (simp add: set_ratingsAverage_def)
  show ?thesis unfolding abs_le_iff using b e by linarith
qed

lemma set_ratingsAverage_mono:
  "x \<le> y \<Longrightarrow> set_ratingsAverage x \<le> set_ratingsAverage y"
  by (simp add: set_ratingsAverage_def divide_right_mono js_round_mono)

lemma set_ratingsAverage_decimal [simp]:
  "set_ratingsAverage (of_int k / 10) = of_int k / 10"
  by (simp add: set_ratingsAverage_def)

lemma set_ratingsAverage_int [simp]:
  "set_ratingsAverage (of_int k) = of_int k"
  using js_round_int [of "k * 10"] by (simp add: set_ratingsAverage_def)

lemma set_ratingsAverage_numeral [simp]:
  "set_ratingsAverage (numeral n) = numeral n"
  using set_ratingsAverage_int [of "numeral n"] by simp

lemma set_ratingsAverage_one [simp]: "set_ratingsAverage 1 = 1"
  using set_ratingsAverage_int [of 1] by simp

lemma tour_id_apply_rating_update [simp]:
  "tour_id (apply_rating_update u d) = tour_id d"
  by (simp add: apply_rating_update_def)

lemma secretTour_apply_rating_update [simp]:
  "secretTour (apply_rating_update u d) = secretTour d"
  by (simp add: apply_rating_update_def)

lemma map_tour_id_findByIdAndUpdate [simp]:
  "map tour_id (tour_findByIdAndUpdate tid u ts) = map tour_id ts"
  by (simp add: tour_findByIdAndUpdate_def map_update_first_frame)

lemma map_secretTour_findByIdAndUpdate [simp]:
  "map secretTour (tour_findByIdAndUpdate tid u ts) = map secretTour ts"
  by (simp add: tour_findByIdAndUpdate_def map_update_first_frame)

text \<open>
  With distinct \<open>_id\<close>s, the update touches exactly the tour it names, and only when
  that tour is not secret.
\<close>

lemma tour_findByIdAndUpdate_map:
  "distinct (map tour_id ts) \<Longrightarrow>
   tour_findByIdAndUpdate tid u ts =
     map (\<lambda>d. if tour_id d = tid \<and> \<not> secretTour d then apply_rating_update u d else d) ts"
proof (induction ts)
  case Nil
  then show ?case by (simp add: tour_findByIdAndUpdate_def)
next
  case (Cons d ts)
  show ?case
  proof (cases "tour_id d = tid \<and> \<not> secretTour d")
    case True
    with Cons.prems have "map (\<lambda>d. if tour_id d = tid \<and> \<not> secretTour d
                                  then apply_rating_update u d else d) ts = ts"
      by (induction ts) auto
    with True show ?thesis by (simp add: tour_findByIdAndUpdate_def tour_find_hook_def)
  next
    case False
    with Cons show ?thesis by (auto simp: tour_findByIdAndUpdate_def tour_find_hook_def)
  qed
qed

end
