(* ===== verification/Review_Model.thy ===== *)
theory Review_Model
  imports Tour_Model
begin

text \<open>
  The Review model of \<open>src/models/reviewModel.js\<close> and the rating aggregator it carries:
  the review document, the store of both collections, the static
  \<open>calcAverageRatings\<close> (a \<open>$match\<close>/\<open>$group\<close> aggregation and a
  \<open>Tour.findByIdAndUpdate\<close>), the \<open>post('save')\<close> hook, and the two-phase
  \<open>pre(/^findOneAnd/)\<close>/\<open>post(/^findOneAnd/)\<close> hooks around update and delete by
  identifier. The invariant is that the cached \<open>ratingsQuantity\<close>/\<open>ratingsAverage\<close>
  of every tour equal the count and the rounded mean of its reviews.
\<close>

section \<open>Documents and the store\<close>

record review_doc =
  review_id :: oid
  review :: string
  rating :: rat
  createdAt :: timestamp
  tour :: oid
  user :: oid

text \<open>
  The two collections the aggregator reads and writes, in natural (insertion) order, the
  next fresh ObjectId, and the instant the review schema was built: the schema's
  \<open>default: Date.now()\<close> is evaluated there, once.
\<close>

record db =
  reviews :: "review_doc list"
  tours :: "tour_doc list"
  next_id :: oid
  load_time :: timestamp

section \<open>The aggregation pipeline\<close>

text \<open>One result document of \<open>$group: { _id: '$tour', nRating: { $sum: 1 },
  avgRating: { $avg: '$rating' } }\<close>.\<close>

record stat =
  stat_id :: oid
  nRating :: nat
  avgRating :: rat

text \<open>
  \<open>$match: { tour: tourId }\<close> followed by the grouping by \<open>tour\<close>: all matched
  documents share the group key, so the result is empty or one group.
\<close>

definition aggregate_ratings :: "oid \<Rightarrow> review_doc list \<Rightarrow> stat list" where
  "aggregate_ratings tourId rs =
     (let ms = filter (\<lambda>r. tour r = tourId) rs in
      if ms = [] then []
      else [\<lparr>stat_id = tourId, nRating = length ms,
             avgRating = sum_list (map rating ms) / of_nat (length ms)\<rparr>])"

section \<open>calcAverageRatings\<close>

definition calcAverageRatings :: "oid \<Rightarrow> db \<Rightarrow> db" where
  "calcAverageRatings tourId st =
     (let stats = aggregate_ratings tourId (reviews st) in
      if length stats > 0 then
        st\<lparr>tours := tour_findByIdAndUpdate tourId
                      \<lparr>upd_ratingsQuantity = nRating (stats ! 0),
                       upd_ratingsAverage = avgRating (stats ! 0)\<rparr> (tours st)\<rparr>
      else
        st\<lparr>tours := tour_findByIdAndUpdate tourId
                      \<lparr>upd_ratingsQuantity = 0, upd_ratingsAverage = 4.5\<rparr> (tours st)\<rparr>)"

section \<open>What the aggregate should be\<close>

text \<open>
  The specification's view: the reviews of a tour, their mean, and the pair a tour should
  carry, the count and the mean rounded to one decimal, or \<open>(0, 4.5)\<close> when the tour
  has no review.
\<close>

definition tour_reviews :: "oid \<Rightarrow> review_doc list \<Rightarrow> review_doc list" where
  "tour_reviews t rs = filter (\<lambda>r. tour r = t) rs"

definition mean_rating :: "review_doc list \<Rightarrow> rat" where
  "mean_rating rs = sum_list (map rating rs) / of_nat (length rs)"

definition expected_average :: "review_doc list \<Rightarrow> rat" where
  "expected_average rs = (if rs = [] then 4.5 else set_ratingsAverage (mean_rating rs))"

definition aggregate_ok :: "review_doc list \<Rightarrow> tour_doc \<Rightarrow> bool" where
  "aggregate_ok rs d \<longleftrightarrow>
     ratingsQuantity d = length (tour_reviews (tour_id d) rs) \<and>
     ratingsAverage d = expected_average (tour_reviews (tour_id d) rs)"

text \<open>
  The cache is consistent when every tour the aggregator can write carries the aggregate
  of its reviews. Secret tours are exempt: the query middleware hides them from the write
  (see the lemmas on secret tours below).
\<close>

definition ratings_consistent :: "db \<Rightarrow> bool" where
  "ratings_consistent st \<longleftrightarrow>
     list_all (\<lambda>d. secretTour d \<or> aggregate_ok (reviews st) d) (tours st)"

text \<open>Well-formedness of the store: unique \<open>_id\<close>s in both collections, fresh ids
  ahead of every review id, and the unique index on \<open>(tour, user)\<close>.\<close>

definition db_wf :: "db \<Rightarrow> bool" where
  "db_wf st \<longleftrightarrow>
     distinct (map tour_id (tours st)) \<and>
     distinct (map review_id (reviews st)) \<and>
     list_all (\<lambda>r. review_id r < next_id st) (reviews st) \<and>
     distinct (map (\<lambda>r. (tour r, user r)) (reviews st))"

section \<open>Validation of reviews\<close>

text \<open>
  The request body a review is built from: every path may be absent. The validators of
  \<open>reviewSchema\<close>, one path at a time in the schema's order, the first failing
  validator of a path reported: \<open>review\<close> is required (the empty string fails too) with
  \<open>maxLength\<close> 150 and \<open>minLength\<close> 10; \<open>rating\<close> is required with \<open>min\<close> 1 and
  \<open>max\<close> 5; \<open>tour\<close> and \<open>user\<close> are required references.
\<close>

record review_input =
  in_review :: "string option"
  in_rating :: "rat option"
  in_createdAt :: "timestamp option"
  in_tour :: "oid option"
  in_user :: "oid option"

definition review_text_error :: "string option \<Rightarrow> validator_kind option" where
  "review_text_error v =
     (case v of
        None \<Rightarrow> Some Required
      | Some s \<Rightarrow> if s = [] then Some Required
                else if 150 < length s then Some MaxLength
                else if length s < 10 then Some MinLength
                else None)"

definition rating_error :: "rat option \<Rightarrow> validator_kind option" where
  "rating_error v =
     (case v of
        None \<Rightarrow> Some Required
      | Some x \<Rightarrow> if x < 1 then Some Min else if 5 < x then Some Max else None)"

definition ref_error :: "oid option \<Rightarrow> validator_kind option" where
  "ref_error v = (case v of None \<Rightarrow> Some Required | Some _ \<Rightarrow> None)"

definition path_errors :: "(string \<times> validator_kind option) list \<Rightarrow> (string \<times> validator_kind) list" where
  "path_errors ps = [(p, k). (p, Some k) \<leftarrow> ps]"

definition review_errors :: "review_input \<Rightarrow> (string \<times> validator_kind) list" where
  "review_errors inp =
     path_errors [(''review'', review_text_error (in_review inp)),
                  (''rating'', rating_error (in_rating inp)),
                  (''tour'', ref_error (in_tour inp)),
                  (''user'', ref_error (in_user inp))]"

text \<open>The document \<open>new Review(body)\<close> builds: a fresh \<open>_id\<close>, and \<open>createdAt\<close>
  from the body or else the schema's default, the instant the schema was built.\<close>

definition new_review :: "review_input \<Rightarrow> oid \<Rightarrow> timestamp \<Rightarrow> review_doc option" where
  "new_review inp i t0 =
     (case (in_review inp, in_rating inp, in_tour inp, in_user inp) of
        (Some s, Some x, Some tr, Some u) \<Rightarrow>
          Some \<lparr>review_id = i, review = s, rating = x,
                createdAt = upd_opt (in_createdAt inp) t0, tour = tr, user = u\<rparr>
      | _ \<Rightarrow> None)"

section \<open>Creating a review: save and the post-save hook\<close>

text \<open>\<open>reviewSchema.post('save', ...)\<close>: recompute the aggregate of the saved review's
  tour. The call is not awaited; its effect is the recompute.\<close>

definition review_post_save :: "review_doc \<Rightarrow> db \<Rightarrow> db" where
  "review_post_save d st = calcAverageRatings (tour d) st"

text \<open>The insert behind \<open>save()\<close>, with the unique index on \<open>(tour, user)\<close>.\<close>

definition review_insert :: "review_doc \<Rightarrow> db \<Rightarrow> error + db" where
  "review_insert d st =
     (if list_ex (\<lambda>r. tour r = tour d \<and> user r = user d) (reviews st) then Inl DuplicateKey
      else Inr (st\<lparr>reviews := reviews st @ [d]\<rparr>))"

text \<open>\<open>save()\<close> of \<open>new Review(body)\<close>: build the document (its ObjectId is drawn
  then), validate it and insert it. Every outcome comes with the store it leaves.\<close>

definition review_save :: "review_input \<Rightarrow> db \<Rightarrow> (error + review_doc) \<times> db" where
  "review_save inp st =
     (let st0 = st\<lparr>next_id := Suc (next_id st)\<rparr>; errs = review_errors inp in
      case new_review inp (next_id st) (load_time st) of
        None \<Rightarrow> (Inl (ValidationError errs), st0)
      | Some d \<Rightarrow>
          if errs \<noteq> [] then (Inl (ValidationError errs), st0)
          else (case review_insert d st0 of
                  Inl e \<Rightarrow> (Inl e, st0)
                | Inr st1 \<Rightarrow> (Inr d, st1)))"

text \<open>\<open>Review.create(body)\<close>: the save, then the post-save hook on success.\<close>

definition review_create :: "review_input \<Rightarrow> db \<Rightarrow> (error + review_doc) \<times> db" where
  "review_create inp st =
     (case review_save inp st of
        (Inl e, st1) \<Rightarrow> (Inl e, st1)
      | (Inr d, st1) \<Rightarrow> (Inr d, review_post_save d st1))"

section \<open>Update and delete by identifier\<close>

text \<open>
  The update document of \<open>findByIdAndUpdate\<close>: each path it sets. The update validators
  (run when the caller passes \<open>runValidators\<close>) check the paths the update sets.
\<close>

record review_patch =
  set_review :: "string option"
  set_rating :: "rat option"
  set_tour :: "oid option"
  set_user :: "oid option"

definition patch_errors :: "review_patch \<Rightarrow> (string \<times> validator_kind) list" where
  "patch_errors p =
     path_errors [(''review'', Option.bind (set_review p) (\<lambda>s. review_text_error (Some s))),
                  (''rating'', Option.bind (set_rating p) (\<lambda>x. rating_error (Some x)))]"

definition apply_review_patch :: "review_patch \<Rightarrow> review_doc \<Rightarrow> review_doc" where
  "apply_review_patch p d =
     d\<lparr>review := upd_opt (set_review p) (review d), rating := upd_opt (set_rating p) (rating d),
       tour := upd_opt (set_tour p) (tour d), user := upd_opt (set_user p) (user d)\<rparr>"

text \<open>The queries themselves, as MongoDB executes them: the first review with the
  identifier is updated (the result is the new document) or removed (the result is the
  removed document); no match gives \<open>null\<close>.\<close>

definition review_findOneAndUpdate ::
  "bool \<Rightarrow> oid \<Rightarrow> review_patch \<Rightarrow> db \<Rightarrow> (error + review_doc option) \<times> db" where
  "review_findOneAndUpdate runValidators rid p st =
     (let errs = (if runValidators then patch_errors p else []) in
      if errs \<noteq> [] then (Inl (ValidationError errs), st)
      else case find (\<lambda>r. review_id r = rid) (reviews st) of
        None \<Rightarrow> (Inr None, st)
      | Some d \<Rightarrow>
          let d' = apply_review_patch p d in
          if list_ex (\<lambda>r. review_id r \<noteq> rid \<and> tour r = tour d' \<and> user r = user d') (reviews st)
          then (Inl DuplicateKey, st)
          else (Inr (Some d'),
                st\<lparr>reviews := update_first (\<lambda>r. review_id r = rid) (apply_review_patch p) (reviews st)\<rparr>))"

definition review_findOneAndDelete :: "oid \<Rightarrow> db \<Rightarrow> (error + review_doc option) \<times> db" where
  "review_findOneAndDelete rid st =
     (case find (\<lambda>r. review_id r = rid) (reviews st) of
        None \<Rightarrow> (Inr None, st)
      | Some d \<Rightarrow> (Inr (Some d), st\<lparr>reviews := delete_first (\<lambda>r. review_id r = rid) (reviews st)\<rparr>))"

text \<open>
  \<open>reviewSchema.pre(/^findOneAnd/, ...)\<close>: \<open>this.r = await this.findOne()\<close>, the
  document the query addresses, read before the query runs (\<open>null\<close> when there is none).
\<close>

definition review_pre_findOneAnd :: "oid \<Rightarrow> db \<Rightarrow> review_doc option" where
  "review_pre_findOneAnd rid st = find (\<lambda>r. review_id r = rid) (reviews st)"

text \<open>
  \<open>reviewSchema.post(/^findOneAnd/, ...)\<close>:
  \<open>await this.r.constructor.calcAverageRatings(this.r.tour)\<close>. With \<open>this.r\<close> null
  the property access throws a \<open>TypeError\<close>, which rejects the query.
\<close>

definition review_post_findOneAnd :: "review_doc option \<Rightarrow> db \<Rightarrow> error + db" where
  "review_post_findOneAnd r st =
     (case r of
        None \<Rightarrow> Inl (TypeError ''Cannot read property constructor of null'')
      | Some d \<Rightarrow> Inr (calcAverageRatings (tour d) st))"

text \<open>Query middleware around a query: the pre hook, the query, and on success the post
  hook, whose error becomes the query's error; the store keeps what was committed.\<close>

definition with_findOneAnd_hooks ::
  "oid \<Rightarrow> (db \<Rightarrow> (error + 'a) \<times> db) \<Rightarrow> db \<Rightarrow> (error + 'a) \<times> db" where
  "with_findOneAnd_hooks rid q st =
     (let r = review_pre_findOneAnd rid st; (res, st1) = q st in
      case res of
        Inl e \<Rightarrow> (Inl e, st1)
      | Inr v \<Rightarrow> (case review_post_findOneAnd r st1 of
                  Inl e \<Rightarrow> (Inl e, st1)
                | Inr st2 \<Rightarrow> (Inr v, st2)))"

definition review_findByIdAndUpdate ::
  "bool \<Rightarrow> oid \<Rightarrow> review_patch \<Rightarrow> db \<Rightarrow> (error + review_doc option) \<times> db" where
  "review_findByIdAndUpdate runValidators rid p =
     with_findOneAnd_hooks rid (review_findOneAndUpdate runValidators rid p)"

definition review_findByIdAndDelete :: "oid \<Rightarrow> db \<Rightarrow> (error + review_doc option) \<times> db" where
  "review_findByIdAndDelete rid = with_findOneAnd_hooks rid (review_findOneAndDelete rid)"

section \<open>Sequences of requests\<close>

text \<open>
  The requests the review routes serve, one after the other: a creation, an update by
  identifier (with or without update validators) or a deletion by identifier. A run
  applies them in order, each to the store the previous one left; the outcome values are
  what the controller answers and do not feed the next request.
\<close>

datatype review_op =
    CreateReview review_input
  | UpdateReview bool oid review_patch
  | DeleteReview oid

fun review_step :: "review_op \<Rightarrow> db \<Rightarrow> db" where
  "review_step (CreateReview inp) st = snd (review_create inp st)"
| "review_step (UpdateReview rv rid p) st = snd (review_findByIdAndUpdate rv rid p st)"
| "review_step (DeleteReview rid) st = snd (review_findByIdAndDelete rid st)"

fun run_review_ops :: "review_op list \<Rightarrow> db \<Rightarrow> db" where
  "run_review_ops [] st = st"
| "run_review_ops (op # ops) st = run_review_ops ops (review_step op st)"

text \<open>The requests the specification allows: an update changes \<open>rating\<close> and
  \<open>review\<close>, never the review's \<open>tour\<close>.\<close>

fun op_keeps_tour :: "review_op \<Rightarrow> bool" where
  "op_keeps_tour (UpdateReview _ _ p) = (set_tour p = None)"
| "op_keeps_tour _ = True"

section \<open>Observations and example data\<close>

text \<open>The aggregate pair a tour carries, as a client reading the tour sees it.\<close>

definition tour_rating :: "oid \<Rightarrow> db \<Rightarrow> (nat \<times> rat) option" where
  "tour_rating t st =
     map_option (\<lambda>d. (ratingsQuantity d, ratingsAverage d)) (find (\<lambda>d. tour_id d = t) (tours st))"

text \<open>A tour as \<open>Tour.create\<close> stores it with the schema's defaults
  (\<open>ratingsAverage\<close> 4.5, \<open>ratingsQuantity\<close> 0), and a store with two visible tours
  (1 and 3) and a secret one (2).\<close>

definition example_tour :: "oid \<Rightarrow> bool \<Rightarrow> tour_doc" where
  "example_tour i secret =
     \<lparr>tour_id = i, name = ''The Forest Hiker'', slug = Some ''the-forest-hiker'', duration = 5,
      maxGroupSize = 25, difficulty = Easy, ratingsAverage = 4.5, ratingsQuantity = 0,
      price = 397, priceDiscount = None, summary = ''Breathtaking hike through the Canadian Banff'',
      description = None, imageCover = ''tour-1-cover.jpg'', images = [], tour_createdAt = 0,
      startDates = [], secretTour = secret,
      startLocation = \<lparr>loc_type = ''Point'', coordinates = [-116, 51], address = None,
                       loc_description = None, day = None\<rparr>,
      locations = [], guides = []\<rparr>"

definition example_db :: db where
  "example_db =
     \<lparr>reviews = [], tours = [example_tour 1 False, example_tour 2 True, example_tour 3 False],
      next_id = 100, load_time = 1000\<rparr>"

definition example_input :: "oid \<Rightarrow> oid \<Rightarrow> rat \<Rightarrow> review_input" where
  "example_input t u x =
     \<lparr>in_review = Some ''Amazing tour, would book again!'', in_rating = Some x,
      in_createdAt = None, in_tour = Some t, in_user = Some u\<rparr>"

definition rating_patch :: "rat \<Rightarrow> review_patch" where
  "rating_patch x = \<lparr>set_review = None, set_rating = Some x, set_tour = None, set_user = None\<rparr>"

section \<open>Behaviour of calcAverageRatings\<close>

lemma set_ratingsAverage_default [simp]: "set_ratingsAverage (9/2) = 9/2"
  using set_ratingsAverage_decimal [of 45] by simp

lemma aggregate_ratings_eq:
  "aggregate_ratings t rs =
     (if tour_reviews t rs = [] then []
      else [\<lparr>stat_id = t, nRating = length (tour_reviews t rs),
             avgRating = mean_rating (tour_reviews t rs)\<rparr>])"
  by (simp add: aggregate_ratings_def tour_reviews_def mean_rating_def Let_def)

text \<open>The update \<open>calcAverageRatings\<close> sends, in the specification's terms.\<close>

lemma calcAverageRatings_update [agg_simps]:
  "calcAverageRatings t st =
     st\<lparr>tours := tour_findByIdAndUpdate t
                  \<lparr>upd_ratingsQuantity = length (tour_reviews t (reviews st)),
                   upd_ratingsAverage =
                     (if tour_reviews t (reviews st) = [] then 4.5
                      else mean_rating (tour_reviews t (reviews st)))\<rparr> (tours st)\<rparr>"
  by (simp add: calcAverageRatings_def aggregate_ratings_eq Let_def)

lemma reviews_calcAverageRatings [simp]: "reviews (calcAverageRatings t st) = reviews st"
  by (simp add: calcAverageRatings_update)

lemma next_id_calcAverageRatings [simp]: "next_id (calcAverageRatings t st) = next_id st"
  by (simp add: calcAverageRatings_update)

lemma load_time_calcAverageRatings [simp]: "load_time (calcAverageRatings t st) = load_time st"
  by (simp add: calcAverageRatings_update)

lemma map_tour_id_calcAverageRatings [simp]:
  "map tour_id (tours (calcAverageRatings t st)) = map tour_id (tours st)"
  by (simp add: calcAverageRatings_update)

lemma aggregate_ok_apply_update:
  "aggregate_ok rs (apply_rating_update u d) \<longleftrightarrow>
     upd_ratingsQuantity u = length (tour_reviews (tour_id d) rs) \<and>
     set_ratingsAverage (upd_ratingsAverage u) = expected_average (tour_reviews (tour_id d) rs)"
  by (simp add: aggregate_ok_def apply_rating_update_def)

text \<open>
  The main lemma of the aggregator: after a recompute of \<open>t\<close>, the store is consistent,
  provided every other visible tour already carried the aggregate of its reviews.
\<close>

lemma ratings_consistent_calc:
  assumes "distinct (map tour_id (tours st))"
    and "\<forall>d\<in>set (tours st). tour_id d \<noteq> t \<longrightarrow> secretTour d \<or> aggregate_ok (reviews st) d"
  shows "ratings_consistent (calcAverageRatings t st)"
  using assms
  by (auto simp: ratings_consistent_def list_all_iff calcAverageRatings_update
      tour_findByIdAndUpdate_map aggregate_ok_apply_update expected_average_def)

section \<open>Lemmas on the operations\<close>

lemma ratings_consistent_next_id [simp]:
  "ratings_consistent (st\<lparr>next_id := n\<rparr>) = ratings_consistent st"
  by (simp add: ratings_consistent_def)

lemma tour_reviews_other:
  "t' \<noteq> t \<Longrightarrow> tour_reviews t' rs = tour_reviews t' (filter (\<lambda>r. tour r \<noteq> t) rs)"
  by (auto simp: tour_reviews_def intro: filter_cong)

text \<open>
  A mutation that changes only reviews of tour \<open>t\<close>, followed by the recompute of
  \<open>t\<close>, keeps the cache consistent: the shape of all three mutation paths.
\<close>

lemma ratings_consistent_recompute:
  assumes "ratings_consistent st" and "distinct (map tour_id (tours st))"
    and "filter (\<lambda>r. tour r \<noteq> t) rs' = filter (\<lambda>r. tour r \<noteq> t) (reviews st)"
  shows "ratings_consistent (calcAverageRatings t (st\<lparr>reviews := rs'\<rparr>))"
proof (rule ratings_consistent_calc)
  show "distinct (map tour_id (tours (st\<lparr>reviews := rs'\<rparr>)))" using assms(2) by simp
  show "\<forall>d\<in>set (tours (st\<lparr>reviews := rs'\<rparr>)). tour_id d \<noteq> t \<longrightarrow>
          secretTour d \<or> aggregate_ok (reviews (st\<lparr>reviews := rs'\<rparr>)) d"
  proof (intro ballI impI)
    fix d assume d: "d \<in> set (tours (st\<lparr>reviews := rs'\<rparr>))" and ne: "tour_id d \<noteq> t"
    have "tour_reviews (tour_id d) rs' = tour_reviews (tour_id d) (reviews st)"
      using ne assms(3) by (metis tour_reviews_other)
    then show "secretTour d \<or> aggregate_ok (reviews (st\<lparr>reviews := rs'\<rparr>)) d"
      using d assms(1) by (auto simp: ratings_consistent_def list_all_iff aggregate_ok_def)
  qed
qed

lemma new_review_Some:
  "new_review inp i t0 = Some d \<Longrightarrow>
     review_id d = i \<and> createdAt d = upd_opt (in_createdAt inp) t0 \<and>
     in_tour inp = Some (tour d) \<and> in_user inp = Some (user d)"
  by (auto simp: new_review_def split: option.splits)

lemma review_save_cases:
  assumes "review_save inp st = (res, st')"
  shows "(\<exists>e. res = Inl e \<and> st' = st\<lparr>next_id := Suc (next_id st)\<rparr>) \<or>
         (\<exists>d. res = Inr d \<and> new_review inp (next_id st) (load_time st) = Some d \<and>
              review_errors inp = [] \<and>
              \<not> list_ex (\<lambda>r. tour r = tour d \<and> user r = user d) (reviews st) \<and>
              st' = st\<lparr>next_id := Suc (next_id st), reviews := reviews st @ [d]\<rparr>)"
  using assms by (auto simp: review_save_def review_insert_def Let_def split: option.splits if_splits sum.splits)

lemma review_create_cases:
  assumes "review_create inp st = (res, st')"
  shows "(\<exists>e. res = Inl e \<and> st' = st\<lparr>next_id := Suc (next_id st)\<rparr>) \<or>
         (\<exists>d. res = Inr d \<and> new_review inp (next_id st) (load_time st) = Some d \<and>
              review_errors inp = [] \<and>
              \<not> list_ex (\<lambda>r. tour r = tour d \<and> user r = user d) (reviews st) \<and>
              st' = calcAverageRatings (tour d)
                      (st\<lparr>next_id := Suc (next_id st), reviews := reviews st @ [d]\<rparr>))"
  using assms review_save_cases [of inp st "fst (review_save inp st)" "snd (review_save inp st)"]
  by (auto simp: review_create_def review_post_save_def split: prod.splits sum.splits)

lemma with_hooks_cases:
  assumes "with_findOneAnd_hooks rid q st = (res, st')" and "q st = (res1, st1)"
  shows "(\<exists>e. res1 = Inl e \<and> res = res1 \<and> st' = st1) \<or>
         (review_pre_findOneAnd rid st = None \<and>
            (\<exists>v. res1 = Inr v) \<and> res = Inl (TypeError ''Cannot read property constructor of null'') \<and> st' = st1) \<or>
         (\<exists>d v. review_pre_findOneAnd rid st = Some d \<and> res1 = Inr v \<and> res = Inr v \<and>
            st' = calcAverageRatings (tour d) st1)"
  using assms
  by (auto simp: with_findOneAnd_hooks_def review_post_findOneAnd_def Let_def
      split: sum.splits option.splits)

lemma distinct_map_replace:
  "distinct (map f (ys @ x # zs)) \<Longrightarrow> (\<forall>y\<in>set (ys @ zs). f y \<noteq> f x') \<Longrightarrow>
   distinct (map f (ys @ x' # zs))"
  by auto

lemma distinct_map_remove:
  "distinct (map f (ys @ x # zs)) \<Longrightarrow> distinct (map f (ys @ zs))"
  by auto

lemma db_wf_calcAverageRatings [simp]:
  "db_wf (calcAverageRatings t st) = db_wf st"
  by (simp add: db_wf_def calcAverageRatings_update)

lemma ratings_consistent_calc_same:
  "ratings_consistent st \<Longrightarrow> distinct (map tour_id (tours st)) \<Longrightarrow>
   ratings_consistent (calcAverageRatings t st)"
  using ratings_consistent_recompute [where st = st and rs' = "reviews st" and t = t] by simp

lemma find_map_fixed:
  assumes "\<And>x. P (f x) = P x" and "\<And>x. P x \<Longrightarrow> f x = x"
  shows "find P (map f xs) = find P xs"
  using assms by (induction xs) auto

lemma tour_reviews_move_length:
  assumes "tour d \<noteq> t" and "tour d' = t"
  shows "length (tour_reviews t (ys @ d' # zs)) = Suc (length (tour_reviews t (ys @ d # zs)))"
  using assms by (simp add: tour_reviews_def)

text \<open>The two mutation paths by identifier, evaluated: a review with the identifier
  exists, or none does.\<close>

lemma review_findByIdAndUpdate_found [agg_simps]:
  assumes "find (\<lambda>r. review_id r = rid) (reviews st) = Some d"
  shows "review_findByIdAndUpdate rv rid p st =
    (let errs = (if rv then patch_errors p else []); d' = apply_review_patch p d in
     if errs \<noteq> [] then (Inl (ValidationError errs), st)
     else if list_ex (\<lambda>r. review_id r \<noteq> rid \<and> tour r = tour d' \<and> user r = user d') (reviews st)
     then (Inl DuplicateKey, st)
     else (Inr (Some d'), calcAverageRatings (tour d)
            (st\<lparr>reviews := update_first (\<lambda>r. review_id r = rid) (apply_review_patch p) (reviews st)\<rparr>)))"
  using assms
  by (simp add: review_findByIdAndUpdate_def with_findOneAnd_hooks_def review_findOneAndUpdate_def
      review_pre_findOneAnd_def review_post_findOneAnd_def Let_def)

lemma review_findByIdAndUpdate_missing [agg_simps]:
  assumes "find (\<lambda>r. review_id r = rid) (reviews st) = None"
  shows "review_findByIdAndUpdate rv rid p st =
    (if rv \<and> patch_errors p \<noteq> [] then (Inl (ValidationError (patch_errors p)), st)
     else (Inl (TypeError ''Cannot read property constructor of null''), st))"
  using assms
  by (simp add: review_findByIdAndUpdate_def with_findOneAnd_hooks_def review_findOneAndUpdate_def
      review_pre_findOneAnd_def review_post_findOneAnd_def Let_def)

lemma review_findByIdAndDelete_found [agg_simps]:
  assumes "find (\<lambda>r. review_id r = rid) (reviews st) = Some d"
  shows "review_findByIdAndDelete rid st =
    (Inr (Some d), calcAverageRatings (tour d)
        (st\<lparr>reviews := delete_first (\<lambda>r. review_id r = rid) (reviews st)\<rparr>))"
  using assms
  by (simp add: review_findByIdAndDelete_def with_findOneAnd_hooks_def review_findOneAndDelete_def
      review_pre_findOneAnd_def review_post_findOneAnd_def)

lemma review_findByIdAndDelete_missing [agg_simps]:
  assumes "find (\<lambda>r. review_id r = rid) (reviews st) = None"
  shows "review_findByIdAndDelete rid st =
    (Inl (TypeError ''Cannot read property constructor of null''), st)"
  using assms
  by (simp add: review_findByIdAndDelete_def with_findOneAnd_hooks_def review_findOneAndDelete_def
      review_pre_findOneAnd_def review_post_findOneAnd_def)

lemmas review_eval =
  review_create_def review_save_def review_errors_def path_errors_def review_text_error_def rating_error_def
  ref_error_def new_review_def review_insert_def review_post_save_def calcAverageRatings_update
  tour_rating_def tour_findByIdAndUpdate_def tour_find_hook_def apply_rating_update_def
  tour_reviews_def mean_rating_def expected_average_def example_tour_def example_db_def
  example_input_def rating_patch_def patch_errors_def apply_review_patch_def

lemma calcAverageRatings_tours:
  "distinct (map tour_id (tours st)) \<Longrightarrow>
   tours (calcAverageRatings t st) =
     map (\<lambda>d. if tour_id d = t \<and> \<not> secretTour d
              then d\<lparr>ratingsQuantity := length (tour_reviews t (reviews st)),
                     ratingsAverage := expected_average (tour_reviews t (reviews st))\<rparr>
              else d) (tours st)"
  by (auto simp: calcAverageRatings_update tour_findByIdAndUpdate_map apply_rating_update_def
      expected_average_def intro!: map_cong)

lemma sum_list_rating_bounds:
  assumes "list_all (\<lambda>r. a \<le> rating r \<and> rating r \<le> b) rs"
  shows "of_nat (length rs) * a \<le> sum_list (map rating rs) \<and>
         sum_list (map rating rs) \<le> of_nat (length rs) * b"
  using assms by (induction rs) (auto simp: algebra_simps)

lemma mean_rating_bounds:
  assumes "rs \<noteq> []" and "list_all (\<lambda>r. a \<le> rating r \<and> rating r \<le> b) rs"
  shows "a \<le> mean_rating rs \<and> mean_rating rs \<le> b"
proof -
  have n: "0 < (of_nat (length rs) :: rat)" using assms(1) by simp
  from sum_list_rating_bounds [OF assms(2)] n show ?thesis
    by (simp add: mean_rating_def pos_le_divide_eq pos_divide_le_eq mult.commute)
qed

lemma db_wf_replace_review:
  assumes wf: "db_wf st" and rs: "reviews st = ys @ d # zs"
    and same_id: "review_id d' = review_id d"
    and nodup: "\<not> list_ex (\<lambda>r. review_id r \<noteq> review_id d \<and> tour r = tour d' \<and> user r = user d') (reviews st)"
  shows "db_wf (st\<lparr>reviews := ys @ d' # zs\<rparr>)"
proof -
  have ids: "distinct (map review_id (ys @ d # zs))" using wf rs by (simp add: db_wf_def)
  have other: "\<forall>y\<in>set (ys @ zs). review_id y \<noteq> review_id d"
  proof
    fix y assume "y \<in> set (ys @ zs)"
    then have "review_id y \<in> review_id ` set (ys @ zs)" by simp
    moreover have "review_id d \<notin> review_id ` set (ys @ zs)" using ids by auto
    ultimately show "review_id y \<noteq> review_id d" by auto
  qed
  with nodup rs have "\<forall>y\<in>set (ys @ zs). (tour y, user y) \<noteq> (tour d', user d')"
    by (auto simp: list_ex_iff)
  then have pair_ok: "\<forall>y\<in>set (ys @ zs). (tour y, user y) \<noteq> (tour d', user d')" by simp
  have pairs_old: "distinct (map (\<lambda>r. (tour r, user r)) (ys @ d # zs))"
    using wf rs by (simp add: db_wf_def)
  have "distinct (map (\<lambda>r. (tour r, user r)) (ys @ d' # zs))"
    using distinct_map_replace [where f = "\<lambda>r. (tour r, user r)", OF pairs_old pair_ok] .
  moreover have "distinct (map review_id (ys @ d' # zs))" using ids same_id by simp
  ultimately show ?thesis using wf rs same_id by (simp add: db_wf_def)
qed

lemma db_wf_remove_review:
  "db_wf st \<Longrightarrow> reviews st = ys @ d # zs \<Longrightarrow> db_wf (st\<lparr>reviews := ys @ zs\<rparr>)"
  by (simp add: db_wf_def)

section \<open>Invariant of the mutation paths\<close>

text \<open>The invariant across each mutation path.\<close>

lemma review_create_invariant:
  assumes wf: "db_wf st" and ok: "ratings_consistent st"
    and run: "review_create inp st = (res, st')"
  shows "db_wf st' \<and> ratings_consistent st'"
proof -
  let ?st0 = "st\<lparr>next_id := Suc (next_id st)\<rparr>"
  consider (failed) "st' = ?st0"
    | (inserted) d where "new_review inp (next_id st) (load_time st) = Some d"
        "\<not> list_ex (\<lambda>r. tour r = tour d \<and> user r = user d) (reviews st)"
        "st' = calcAverageRatings (tour d) (?st0\<lparr>reviews := reviews st @ [d]\<rparr>)"
    using review_create_cases [OF run] by auto
  then show ?thesis
  proof cases
    case failed
    with wf ok show ?thesis by (auto simp: db_wf_def list_all_iff)
  next
    case inserted
    have rid: "review_id d = next_id st" using new_review_Some [OF inserted(1)] by simp
    have "db_wf (?st0\<lparr>reviews := reviews st @ [d]\<rparr>)"
      using wf inserted(2) rid by (auto simp: db_wf_def list_all_iff list_ex_iff)
    moreover have "ratings_consistent (calcAverageRatings (tour d) (?st0\<lparr>reviews := reviews st @ [d]\<rparr>))"
      by (rule ratings_consistent_recompute) (use ok wf in \<open>auto simp: db_wf_def\<close>)
    ultimately show ?thesis using inserted(3) by simp
  qed
qed

lemma review_update_invariant:
  assumes wf: "db_wf st" and ok: "ratings_consistent st" and keep: "set_tour p = None"
    and run: "review_findByIdAndUpdate rv rid p st = (res, st')"
  shows "db_wf st' \<and> ratings_consistent st'"
proof (cases "find (\<lambda>r. review_id r = rid) (reviews st)")
  case None
  with run have "st' = st" by (simp add: review_findByIdAndUpdate_missing split: if_splits)
  with wf ok show ?thesis by simp
next
  case (Some d)
  let ?d' = "apply_review_patch p d"
  let ?upd = "update_first (\<lambda>r. review_id r = rid) (apply_review_patch p) (reviews st)"
  have "st' = st \<or>
        (\<not> list_ex (\<lambda>r. review_id r \<noteq> rid \<and> tour r = tour ?d' \<and> user r = user ?d') (reviews st) \<and>
         st' = calcAverageRatings (tour d) (st\<lparr>reviews := ?upd\<rparr>))"
    using run Some by (auto simp: review_findByIdAndUpdate_found Let_def split: if_splits)
  then consider (unchanged) "st' = st"
    | (updated) "\<not> list_ex (\<lambda>r. review_id r \<noteq> rid \<and> tour r = tour ?d' \<and> user r = user ?d') (reviews st)"
        "st' = calcAverageRatings (tour d) (st\<lparr>reviews := ?upd\<rparr>)"
    by blast
  then show ?thesis
  proof cases
    case unchanged
    with wf ok show ?thesis by simp
  next
    case updated
    obtain ys zs where rs: "reviews st = ys @ d # zs" and upd: "?upd = ys @ ?d' # zs"
      using update_first_split [OF Some] by blast
    have rid: "review_id d = rid" using find_SomeD [OF Some] by simp
    have same_tour: "tour ?d' = tour d" using keep by (simp add: apply_review_patch_def)
    have "db_wf (st\<lparr>reviews := ys @ ?d' # zs\<rparr>)"
      by (rule db_wf_replace_review [OF wf rs]) (use updated(1) rid in \<open>simp_all add: apply_review_patch_def\<close>)
    moreover have "ratings_consistent (calcAverageRatings (tour d) (st\<lparr>reviews := ys @ ?d' # zs\<rparr>))"
      by (rule ratings_consistent_recompute) (use ok wf rs same_tour in \<open>auto simp: db_wf_def\<close>)
    ultimately show ?thesis using updated(2) upd by simp
  qed
qed

lemma review_delete_invariant:
  assumes wf: "db_wf st" and ok: "ratings_consistent st"
    and run: "review_findByIdAndDelete rid st = (res, st')"
  shows "db_wf st' \<and> ratings_consistent st'"
proof (cases "find (\<lambda>r. review_id r = rid) (reviews st)")
  case None
  with run have "st' = st" by (simp add: review_findByIdAndDelete_missing)
  with wf ok show ?thesis by simp
next
  case (Some d)
  obtain ys zs where rs: "reviews st = ys @ d # zs"
    and del: "delete_first (\<lambda>r. review_id r = rid) (reviews st) = ys @ zs"
    using delete_first_split [OF Some] by blast
  have st': "st' = calcAverageRatings (tour d) (st\<lparr>reviews := ys @ zs\<rparr>)"
    using run Some del by (simp add: review_findByIdAndDelete_found)
  have "db_wf (st\<lparr>reviews := ys @ zs\<rparr>)" by (rule db_wf_remove_review [OF wf rs])
  moreover have "ratings_consistent (calcAverageRatings (tour d) (st\<lparr>reviews := ys @ zs\<rparr>))"
    by (rule ratings_consistent_recompute) (use ok wf rs in \<open>auto simp: db_wf_def\<close>)
  ultimately show ?thesis using st' by simp
qed

lemma review_step_invariant:
  "db_wf st \<Longrightarrow> ratings_consistent st \<Longrightarrow> op_keeps_tour op \<Longrightarrow>
   db_wf (review_step op st) \<and> ratings_consistent (review_step op st)"
proof (cases op)
  case (CreateReview inp)
  then show "db_wf st \<Longrightarrow> ratings_consistent st \<Longrightarrow> ?thesis"
    using review_create_invariant [where inp = inp and st = st] by (metis prod.collapse review_step.simps(1))
next
  case (UpdateReview rv rid p)
  then show "db_wf st \<Longrightarrow> ratings_consistent st \<Longrightarrow> op_keeps_tour op \<Longrightarrow> ?thesis"
    using review_update_invariant [where rv = rv and rid = rid and p = p and st = st]
    by (metis op_keeps_tour.simps(1) prod.collapse review_step.simps(2))
next
  case (DeleteReview rid)
  then show "db_wf st \<Longrightarrow> ratings_consistent st \<Longrightarrow> ?thesis"
    using review_delete_invariant [where rid = rid and st = st] by (metis prod.collapse review_step.simps(3))
qed

lemma review_errors_Nil_new_review:
  "review_errors inp = [] \<Longrightarrow>
   new_review inp i t0 = Some \<lparr>review_id = i, review = the (in_review inp), rating = the (in_rating inp),
      createdAt = upd_opt (in_createdAt inp) t0, tour = the (in_tour inp), user = the (in_user inp)\<rparr>"
  by (auto simp: review_errors_def path_errors_def review_text_error_def rating_error_def
      ref_error_def new_review_def split: option.splits if_splits)

lemma load_time_review_create [simp]: "load_time (snd (review_create inp st)) = load_time st"
  by (auto simp: review_create_def review_save_def review_insert_def review_post_save_def Let_def
      split: option.splits sum.splits)

lemma apply_rating_update_idem [simp]:
  "apply_rating_update u (apply_rating_update u d) = apply_rating_update u d"
  by (simp add: apply_rating_update_def)

lemma expected_average_bounds:
  "list_all (\<lambda>r. 1 \<le> rating r \<and> rating r \<le> 5) rs \<Longrightarrow>
   1 \<le> expected_average rs \<and> expected_average rs \<le> 5"
  using mean_rating_bounds [of rs 1 5] set_ratingsAverage_mono [of 1 "mean_rating rs"]
    set_ratingsAverage_mono [of "mean_rating rs" 5]
  by (auto simp: expected_average_def)

lemma list_all_tour_reviews:
  "list_all P rs \<Longrightarrow> list_all P (tour_reviews t rs)"
  by (simp add: tour_reviews_def list_all_iff)

section \<open>Properties of the rating aggregator\<close>

text \<open>
  C1. Recomputing the aggregate of tour \<open>t\<close> writes, on the visible tour with that
  identifier and on no other document, the number of its reviews and their mean rounded to
  one decimal (the defaults 0 and 4.5 when it has none); reviews are not touched.
\<close>

theorem calcAverageRatings_correct:
  assumes "distinct (map tour_id (tours st))"
  shows "reviews (calcAverageRatings t st) = reviews st \<and>
         tours (calcAverageRatings t st) =
           map (\<lambda>d. if tour_id d = t \<and> \<not> secretTour d
                    then d\<lparr>ratingsQuantity := length (tour_reviews t (reviews st)),
                           ratingsAverage := expected_average (tour_reviews t (reviews st))\<rparr>
                    else d) (tours st)"
  using calcAverageRatings_tours [OF assms] by simp

text \<open>
  C2. Creating a review (\<open>Review.create\<close>, then the post-save hook) keeps the store
  well-formed and the rating cache consistent, whether the creation succeeds or fails.
\<close>

theorem review_create_preserves_consistency:
  "db_wf st \<Longrightarrow> ratings_consistent st \<Longrightarrow> review_create inp st = (res, st') \<Longrightarrow>
   db_wf st' \<and> ratings_consistent st'"
  by (rule review_create_invariant)

text \<open>
  C3. Updating a review by identifier through the two-phase hook keeps the store
  well-formed and the rating cache consistent, for every update that leaves the review's
  \<open>tour\<close> as it is (the specification allows only \<open>rating\<close> and \<open>review\<close> to change).
\<close>

theorem review_update_preserves_consistency:
  "db_wf st \<Longrightarrow> ratings_consistent st \<Longrightarrow> set_tour p = None \<Longrightarrow>
   review_findByIdAndUpdate rv rid p st = (res, st') \<Longrightarrow> db_wf st' \<and> ratings_consistent st'"
  by (rule review_update_invariant)

text \<open>
  C4. Deleting a review by identifier through the two-phase hook keeps the store
  well-formed and the rating cache consistent: the tour captured before the delete is
  recomputed after it.
\<close>

theorem review_delete_preserves_consistency:
  "db_wf st \<Longrightarrow> ratings_consistent st \<Longrightarrow> review_findByIdAndDelete rid st = (res, st') \<Longrightarrow>
   db_wf st' \<and> ratings_consistent st'"
  by (rule review_delete_invariant)

text \<open>
  C5. Every run of requests the specification allows (creations, deletions, and updates
  that keep the review's tour), in any order, keeps the store well-formed and the rating
  cache consistent.
\<close>

theorem run_review_ops_consistent:
  "db_wf st \<Longrightarrow> ratings_consistent st \<Longrightarrow> list_all op_keeps_tour ops \<Longrightarrow>
   db_wf (run_review_ops ops st) \<and> ratings_consistent (run_review_ops ops st)"
proof (induction ops arbitrary: st)
  case Nil
  then show ?case by simp
next
  case (Cons op ops)
  then have "db_wf (review_step op st) \<and> ratings_consistent (review_step op st)"
    by (intro review_step_invariant) simp_all
  with Cons show ?case by simp
qed

text \<open>
  C6. Updating or deleting by an identifier that no review has makes the
  \<open>post(/^findOneAnd/)\<close> hook dereference the null captured document: the request fails
  with a \<open>TypeError\<close> (the store is unchanged), where the specification asks the hook to
  do nothing and the mutation to report not-found. With update validators
  (\<open>runValidators\<close>) an invalid update body is reported first, as a
  \<open>ValidationError\<close>, and a valid one fails with the same \<open>TypeError\<close>.
\<close>

theorem review_mutation_missing_id_TypeError:
  assumes "list_all (\<lambda>r. review_id r \<noteq> rid) (reviews st)"
  shows "review_findByIdAndDelete rid st = (Inl (TypeError ''Cannot read property constructor of null''), st) \<and>
         review_findByIdAndUpdate False rid p st = (Inl (TypeError ''Cannot read property constructor of null''), st) \<and>
         review_findByIdAndUpdate True rid p st =
           (Inl (if patch_errors p = [] then TypeError ''Cannot read property constructor of null''
                 else ValidationError (patch_errors p)), st)"
proof -
  have "find (\<lambda>r. review_id r = rid) (reviews st) = None"
    using assms by (simp add: find_None_iff list_all_iff)
  then show ?thesis
    by (simp add: review_findByIdAndDelete_missing review_findByIdAndUpdate_missing)
qed

text \<open>
  C7. The recompute never writes a secret tour: \<open>Tour.findByIdAndUpdate\<close> runs the
  \<open>pre(/^find/)\<close> middleware, which adds \<open>secretTour: {$ne: true}\<close> to its conditions.
  A secret tour keeps whatever aggregate it was created with, whatever reviews it gets.
\<close>

theorem calcAverageRatings_skips_secret_tour:
  assumes "list_all (\<lambda>d. tour_id d = t \<longrightarrow> secretTour d) (tours st)"
  shows "calcAverageRatings t st = st"
proof -
  have "find (\<lambda>d. tour_id d = t \<and> tour_find_hook d) (tours st) = None"
    using assms by (auto simp: find_None_iff list_all_iff tour_find_hook_def)
  then show ?thesis by (simp add: calcAverageRatings_update tour_findByIdAndUpdate_def)
qed

text \<open>
  C8. An update that moves a review to another visible tour (allowed by the update path,
  which sets any path of the body) recomputes only the tour captured before the update:
  the new tour keeps its aggregate although it gained a review, and the cache of a
  consistent store becomes inconsistent.
\<close>

theorem review_update_moving_tour_leaves_stale:
  assumes wf: "db_wf st" and ok: "ratings_consistent st"
    and found: "find (\<lambda>r. review_id r = rid) (reviews st) = Some d"
    and move: "set_tour p = Some t'" "t' \<noteq> tour d"
    and vis: "dt \<in> set (tours st)" "tour_id dt = t'" "\<not> secretTour dt"
    and run: "review_findByIdAndUpdate rv rid p st = (Inr res, st')"
  shows "tour_rating t' st' = tour_rating t' st \<and>
         length (tour_reviews t' (reviews st')) = Suc (length (tour_reviews t' (reviews st))) \<and>
         \<not> ratings_consistent st'"
proof -
  let ?upd = "update_first (\<lambda>r. review_id r = rid) (apply_review_patch p) (reviews st)"
  have st': "st' = calcAverageRatings (tour d) (st\<lparr>reviews := ?upd\<rparr>)"
    using run found by (auto simp: review_findByIdAndUpdate_found Let_def split: if_splits)
  obtain ys zs where rs: "reviews st = ys @ d # zs" and upd: "?upd = ys @ apply_review_patch p d # zs"
    using update_first_split [OF found] by blast
  have rs': "reviews st' = ys @ apply_review_patch p d # zs" using upd by (simp add: st')
  have len: "length (tour_reviews t' (reviews st')) = Suc (length (tour_reviews t' (reviews st)))"
    unfolding rs' rs using move by (simp add: tour_reviews_move_length apply_review_patch_def)
  have dist: "distinct (map tour_id (tours st))" using wf by (simp add: db_wf_def)
  have tours': "tours st' =
     map (\<lambda>x. if tour_id x = tour d \<and> \<not> secretTour x
              then x\<lparr>ratingsQuantity := length (tour_reviews (tour d) ?upd),
                     ratingsAverage := expected_average (tour_reviews (tour d) ?upd)\<rparr>
              else x) (tours st)"
    using calcAverageRatings_tours [of "st\<lparr>reviews := ?upd\<rparr>" "tour d"] dist by (simp add: st')
  have rating: "tour_rating t' st' = tour_rating t' st"
    unfolding tour_rating_def tours' using move(2) by (subst find_map_fixed) auto
  have "dt \<in> set (tours st')" using vis move(2) by (force simp: tours')
  moreover have "ratingsQuantity dt = length (tour_reviews t' (reviews st))"
    using ok vis by (auto simp: ratings_consistent_def list_all_iff aggregate_ok_def)
  ultimately have "\<not> ratings_consistent st'"
    using len vis by (auto simp: ratings_consistent_def list_all_iff aggregate_ok_def)
  with rating len show ?thesis by blast
qed

text \<open>
  The round trip of the specification: three reviews rated 3, 4 and 5 give the tour
  the aggregate \<open>(3, 4.0)\<close>; deleting the one rated 3 gives \<open>(2, 4.5)\<close>; deleting the
  other two restores the defaults \<open>(0, 4.5)\<close>.
\<close>

theorem ratings_roundtrip_scenario:
  "tour_rating 1 (run_review_ops [CreateReview (example_input 1 10 3), CreateReview (example_input 1 11 4),
      CreateReview (example_input 1 12 5)] example_db) = Some (3, 4) \<and>
   tour_rating 1 (run_review_ops [CreateReview (example_input 1 10 3), CreateReview (example_input 1 11 4),
      CreateReview (example_input 1 12 5), DeleteReview 100] example_db) = Some (2, 4.5) \<and>
   tour_rating 1 (run_review_ops [CreateReview (example_input 1 10 3), CreateReview (example_input 1 11 4),
      CreateReview (example_input 1 12 5), DeleteReview 100, DeleteReview 101, DeleteReview 102]
      example_db) = Some (0, 4.5)"
  by (simp add: review_eval review_findByIdAndDelete_def with_findOneAnd_hooks_def
      review_findOneAndDelete_def review_pre_findOneAnd_def review_post_findOneAnd_def)

text \<open>
  Recomputing twice in a row, with no review mutation in between, gives the same
  store as recomputing once.
\<close>

theorem calcAverageRatings_idempotent:
  "calcAverageRatings t (calcAverageRatings t st) = calcAverageRatings t st"
proof -
  have "tour_findByIdAndUpdate t u (tour_findByIdAndUpdate t u ts) = tour_findByIdAndUpdate t u ts"
    for u ts by (simp add: tour_findByIdAndUpdate_def tour_find_hook_def update_first_idem)
  then show ?thesis by (simp add: calcAverageRatings_update)
qed

text \<open>
  C11. A second review by the same user for the same tour is refused by the unique index
  with a duplicate-key error: no review is written and no aggregate changes (only the
  drawn ObjectId is spent).
\<close>

theorem review_create_duplicate_rejected:
  assumes "list_ex (\<lambda>r. tour r = t \<and> user r = u) (reviews st)" and "review_errors inp = []"
    and "in_tour inp = Some t" and "in_user inp = Some u"
  shows "review_create inp st = (Inl DuplicateKey, st\<lparr>next_id := Suc (next_id st)\<rparr>)"
  using assms
  by (simp add: review_create_def review_save_def review_errors_Nil_new_review review_insert_def Let_def)

text \<open>
  C12. The default of \<open>createdAt\<close> is \<open>Date.now()\<close> evaluated once, when the schema is
  built: every review created without an explicit \<open>createdAt\<close> gets that same instant,
  however much later it is created.
\<close>

theorem review_createdAt_frozen:
  assumes "review_create inp1 st = (Inr d1, st1)" and "review_create inp2 st1 = (Inr d2, st2)"
    and "in_createdAt inp1 = None" and "in_createdAt inp2 = None"
  shows "createdAt d1 = load_time st \<and> createdAt d2 = load_time st"
proof -
  have "load_time st1 = load_time st" using assms(1) load_time_review_create [of inp1 st] by simp
  moreover have "createdAt d1 = load_time st" and "createdAt d2 = load_time st1"
    using assms review_create_cases [OF assms(1)] review_create_cases [OF assms(2)]
    by (auto dest!: new_review_Some)
  ultimately show ?thesis by simp
qed

text \<open>
  C13. When every review's rating lies in [1, 5] and every tour's average does, so does
  every average after a recompute: the write never produces a value the schema's
  \<open>min\<close>/\<open>max\<close> validators of \<open>ratingsAverage\<close> would refuse.
\<close>

theorem calcAverageRatings_average_in_range:
  assumes "distinct (map tour_id (tours st))"
    and "list_all (\<lambda>r. 1 \<le> rating r \<and> rating r \<le> 5) (reviews st)"
    and "list_all (\<lambda>d. 1 \<le> ratingsAverage d \<and> ratingsAverage d \<le> 5) (tours st)"
  shows "list_all (\<lambda>d. 1 \<le> ratingsAverage d \<and> ratingsAverage d \<le> 5) (tours (calcAverageRatings t st))"
  using assms expected_average_bounds [OF list_all_tour_reviews [OF assms(2)]]
  by (auto simp: calcAverageRatings_tours list_all_iff)

text \<open>
  The update scenario of the specification: the only review of a tour, rated 5, is
  updated by identifier to rating 1; the tour's aggregate becomes \<open>(1, 1.0)\<close>.
\<close>

theorem ratings_update_scenario:
  "tour_rating 1 (run_review_ops [CreateReview (example_input 1 10 5)] example_db) = Some (1, 5) \<and>
   tour_rating 1 (run_review_ops [CreateReview (example_input 1 10 5),
      UpdateReview True 100 (rating_patch 1)] example_db) = Some (1, 1)"
  by (simp add: review_eval review_findByIdAndUpdate_def with_findOneAnd_hooks_def
      review_findOneAndUpdate_def review_pre_findOneAnd_def review_post_findOneAnd_def)

section \<open>Witnesses\<close>

lemma example_db_wf: "db_wf example_db"
  by (simp add: db_wf_def example_db_def example_tour_def)

lemma example_db_consistent: "ratings_consistent example_db"
  by (simp add: ratings_consistent_def example_db_def example_tour_def aggregate_ok_def
      tour_reviews_def expected_average_def)

theorem calcAverageRatings_correct_witness:
  "distinct (map tour_id (tours example_db)) \<and>
   reviews (calcAverageRatings 1 example_db) = reviews example_db \<and>
   tours (calcAverageRatings 1 example_db) =
     map (\<lambda>d. if tour_id d = 1 \<and> \<not> secretTour d
              then d\<lparr>ratingsQuantity := length (tour_reviews 1 (reviews example_db)),
                     ratingsAverage := expected_average (tour_reviews 1 (reviews example_db))\<rparr>
              else d) (tours example_db)"
proof -
  have h: "distinct (map tour_id (tours example_db))" by (simp add: example_db_def example_tour_def)
  show ?thesis using calcAverageRatings_correct [OF h] h by simp
qed

theorem review_create_preserves_consistency_witness:
  "db_wf example_db \<and> ratings_consistent example_db \<and>
   db_wf (snd (review_create (example_input 1 10 4) example_db)) \<and>
   ratings_consistent (snd (review_create (example_input 1 10 4) example_db))"
proof -
  have run: "review_create (example_input 1 10 4) example_db =
               (fst (review_create (example_input 1 10 4) example_db),
                snd (review_create (example_input 1 10 4) example_db))" by simp
  show ?thesis
    using review_create_preserves_consistency [OF example_db_wf example_db_consistent run]
      example_db_wf example_db_consistent by simp
qed

lemma example_db1_eval:
  "snd (review_create (example_input 1 10 5) example_db) =
     \<lparr>reviews = [\<lparr>review_id = 100, review = ''Amazing tour, would book again!'', rating = 5,
                  createdAt = 1000, tour = 1, user = 10\<rparr>],
      tours = [(example_tour 1 False)\<lparr>ratingsAverage := 5, ratingsQuantity := 1\<rparr>,
               example_tour 2 True, example_tour 3 False],
      next_id = 101, load_time = 1000\<rparr>"
  by (simp add: review_eval)

lemma example_db1_wf: "db_wf (snd (review_create (example_input 1 10 5) example_db))"
  unfolding example_db1_eval by (simp add: db_wf_def example_tour_def)

lemma example_db1_consistent:
  "ratings_consistent (snd (review_create (example_input 1 10 5) example_db))"
  unfolding example_db1_eval by (simp add: ratings_consistent_def example_tour_def aggregate_ok_def
      tour_reviews_def expected_average_def mean_rating_def)

theorem review_update_preserves_consistency_witness:
  "set_tour (rating_patch 1) = None \<and>
   db_wf (snd (review_findByIdAndUpdate True 100 (rating_patch 1)
               (snd (review_create (example_input 1 10 5) example_db)))) \<and>
   ratings_consistent (snd (review_findByIdAndUpdate True 100 (rating_patch 1)
               (snd (review_create (example_input 1 10 5) example_db))))"
proof -
  let ?st = "snd (review_create (example_input 1 10 5) example_db)"
  have keep: "set_tour (rating_patch 1) = None" by (simp add: rating_patch_def)
  have run: "review_findByIdAndUpdate True 100 (rating_patch 1) ?st =
               (fst (review_findByIdAndUpdate True 100 (rating_patch 1) ?st),
                snd (review_findByIdAndUpdate True 100 (rating_patch 1) ?st))" by simp
  show ?thesis
    using review_update_preserves_consistency [OF example_db1_wf example_db1_consistent keep run] keep
    by simp
qed

theorem review_delete_preserves_consistency_witness:
  "db_wf (snd (review_findByIdAndDelete 100 (snd (review_create (example_input 1 10 5) example_db)))) \<and>
   ratings_consistent (snd (review_findByIdAndDelete 100 (snd (review_create (example_input 1 10 5) example_db))))"
proof -
  let ?st = "snd (review_create (example_input 1 10 5) example_db)"
  have run: "review_findByIdAndDelete 100 ?st =
               (fst (review_findByIdAndDelete 100 ?st), snd (review_findByIdAndDelete 100 ?st))" by simp
  show ?thesis
    using review_delete_preserves_consistency [OF example_db1_wf example_db1_consistent run] by simp
qed

theorem run_review_ops_consistent_witness:
  "db_wf (run_review_ops [CreateReview (example_input 1 10 3), UpdateReview True 100 (rating_patch 4),
      CreateReview (example_input 3 10 2), DeleteReview 100] example_db) \<and>
   ratings_consistent (run_review_ops [CreateReview (example_input 1 10 3),
      UpdateReview True 100 (rating_patch 4), CreateReview (example_input 3 10 2), DeleteReview 100] example_db)"
proof -
  have ops: "list_all op_keeps_tour [CreateReview (example_input 1 10 3), UpdateReview True 100 (rating_patch 4),
      CreateReview (example_input 3 10 2), DeleteReview 100]"
    by (simp add: rating_patch_def)
  show ?thesis using run_review_ops_consistent [OF example_db_wf example_db_consistent ops] .
qed

theorem review_mutation_missing_id_TypeError_witness:
  "review_findByIdAndDelete 7 (snd (review_create (example_input 1 10 5) example_db)) =
     (Inl (TypeError ''Cannot read property constructor of null''), snd (review_create (example_input 1 10 5) example_db)) \<and>
   review_findByIdAndUpdate False 7 (rating_patch 2) (snd (review_create (example_input 1 10 5) example_db)) =
     (Inl (TypeError ''Cannot read property constructor of null''), snd (review_create (example_input 1 10 5) example_db))"
proof -
  have h: "list_all (\<lambda>r. review_id r \<noteq> 7) (reviews (snd (review_create (example_input 1 10 5) example_db)))"
    unfolding example_db1_eval by simp
  show ?thesis using review_mutation_missing_id_TypeError [OF h, of "rating_patch 2"] by blast
qed

theorem calcAverageRatings_skips_secret_tour_witness:
  "list_all (\<lambda>d. tour_id d = 2 \<longrightarrow> secretTour d) (tours example_db) \<and>
   calcAverageRatings 2 example_db = example_db"
proof -
  have h: "list_all (\<lambda>d. tour_id d = 2 \<longrightarrow> secretTour d) (tours example_db)"
    by (simp add: example_db_def example_tour_def)
  show ?thesis using calcAverageRatings_skips_secret_tour [OF h] h by simp
qed

theorem review_update_moving_tour_leaves_stale_witness:
  "tour_rating 3 (snd (review_findByIdAndUpdate True 100
      \<lparr>set_review = None, set_rating = None, set_tour = Some 3, set_user = None\<rparr>
      (snd (review_create (example_input 1 10 5) example_db)))) = Some (0, 4.5) \<and>
   length (tour_reviews 3 (reviews (snd (review_findByIdAndUpdate True 100
      \<lparr>set_review = None, set_rating = None, set_tour = Some 3, set_user = None\<rparr>
      (snd (review_create (example_input 1 10 5) example_db)))))) = 1 \<and>
   \<not> ratings_consistent (snd (review_findByIdAndUpdate True 100
      \<lparr>set_review = None, set_rating = None, set_tour = Some 3, set_user = None\<rparr>
      (snd (review_create (example_input 1 10 5) example_db))))"
proof -
  let ?st = "snd (review_create (example_input 1 10 5) example_db)"
  let ?p = "\<lparr>set_review = None, set_rating = None, set_tour = Some 3, set_user = None\<rparr>"
  let ?d = "\<lparr>review_id = 100, review = ''Amazing tour, would book again!'', rating = 5,
             createdAt = 1000, tour = 1, user = 10\<rparr>"
  have found: "find (\<lambda>r. review_id r = 100) (reviews ?st) = Some ?d"
    unfolding example_db1_eval by simp
  have move: "set_tour ?p = Some 3" "(3::oid) \<noteq> tour ?d" by simp_all
  have vis: "example_tour 3 False \<in> set (tours ?st)" "tour_id (example_tour 3 False) = 3"
      "\<not> secretTour (example_tour 3 False)"
    unfolding example_db1_eval by (simp_all add: example_tour_def)
  have run: "review_findByIdAndUpdate True 100 ?p ?st =
      (Inr (Some (apply_review_patch ?p ?d)), snd (review_findByIdAndUpdate True 100 ?p ?st))"
    unfolding review_findByIdAndUpdate_found [OF found] unfolding example_db1_eval
    by (simp add: patch_errors_def path_errors_def apply_review_patch_def)
  have before: "tour_rating 3 ?st = Some (0, 4.5)" "length (tour_reviews 3 (reviews ?st)) = 0"
    unfolding example_db1_eval by (simp_all add: tour_rating_def example_tour_def tour_reviews_def)
  show ?thesis
    using review_update_moving_tour_leaves_stale [OF example_db1_wf example_db1_consistent found move vis run]
      before by simp
qed

theorem review_create_duplicate_rejected_witness:
  "review_create (example_input 1 10 4) (snd (review_create (example_input 1 10 5) example_db)) =
     (Inl DuplicateKey, (snd (review_create (example_input 1 10 5) example_db))\<lparr>next_id := 102\<rparr>)"
proof -
  let ?st = "snd (review_create (example_input 1 10 5) example_db)"
  have h1: "list_ex (\<lambda>r. tour r = 1 \<and> user r = 10) (reviews ?st)" unfolding example_db1_eval by simp
  have h2: "review_errors (example_input 1 10 4) = []"
    by (simp add: review_errors_def path_errors_def review_text_error_def rating_error_def
        ref_error_def example_input_def)
  have h3: "in_tour (example_input 1 10 4) = Some 1" and h4: "in_user (example_input 1 10 4) = Some 10"
    by (simp_all add: example_input_def)
  have "next_id ?st = 101" unfolding example_db1_eval by simp
  then show ?thesis using review_create_duplicate_rejected [OF h1 h2 h3 h4] by simp
qed

theorem review_createdAt_frozen_witness:
  "createdAt \<lparr>review_id = 100, review = ''Amazing tour, would book again!'', rating = 5,
              createdAt = 1000, tour = 1, user = 10\<rparr> = load_time example_db \<and>
   createdAt \<lparr>review_id = 101, review = ''Amazing tour, would book again!'', rating = 4,
              createdAt = 1000, tour = 3, user = 11\<rparr> = load_time example_db"
proof -
  let ?st1 = "snd (review_create (example_input 1 10 5) example_db)"
  have h1: "review_create (example_input 1 10 5) example_db =
      (Inr \<lparr>review_id = 100, review = ''Amazing tour, would book again!'', rating = 5,
            createdAt = 1000, tour = 1, user = 10\<rparr>, ?st1)"
    by (simp add: review_eval)
  have h2: "review_create (example_input 3 11 4) ?st1 =
      (Inr \<lparr>review_id = 101, review = ''Amazing tour, would book again!'', rating = 4,
            createdAt = 1000, tour = 3, user = 11\<rparr>, snd (review_create (example_input 3 11 4) ?st1))"
    unfolding example_db1_eval by (simp add: review_eval)
  have h3: "in_createdAt (example_input 1 10 5) = None" and h4: "in_createdAt (example_input 3 11 4) = None"
    by (simp_all add: example_input_def)
  show ?thesis using review_createdAt_frozen [OF h1 h2 h3 h4] .
qed

theorem calcAverageRatings_average_in_range_witness:
  "list_all (\<lambda>d. 1 \<le> ratingsAverage d \<and> ratingsAverage d \<le> 5)
     (tours (calcAverageRatings 1 (example_db\<lparr>reviews := [\<lparr>review_id = 100, review = ''Too short?'',
        rating = 2, createdAt = 0, tour = 1, user = 10\<rparr>]\<rparr>)))"
proof -
  let ?st = "example_db\<lparr>reviews := [\<lparr>review_id = 100, review = ''Too short?'',
        rating = 2, createdAt = 0, tour = 1, user = 10\<rparr>]\<rparr>"
  have h1: "distinct (map tour_id (tours ?st))" by (simp add: example_db_def example_tour_def)
  have h2: "list_all (\<lambda>r. 1 \<le> rating r \<and> rating r \<le> 5) (reviews ?st)" by simp
  have h3: "list_all (\<lambda>d. 1 \<le> ratingsAverage d \<and> ratingsAverage d \<le> 5) (tours ?st)"
    by (simp add: example_db_def example_tour_def)
  show ?thesis using calcAverageRatings_average_in_range [OF h1 h2 h3] .
qed

end
