(* ===== verification/Concurrency.thy ===== *)
theory Concurrency
  imports Review_Model "HOL-Library.Multiset"
begin

text \<open>
  The rating aggregator under concurrent requests. \<open>calcAverageRatings\<close>
  (\<open>src/models/reviewModel.js\<close>, lines 50--71) is \<open>async\<close>: it suspends at the
  aggregation (\<open>await this.aggregate(...)\<close>) and at the write
  (\<open>await Tour.findByIdAndUpdate(...)\<close>), and other requests run in between. A
  recompute in flight is a task: \<open>Pending t\<close> before its aggregation, \<open>Computed t
  stats\<close> between the aggregation and the write. The system state is the store with the
  multiset of tasks in flight; \<open>conc_step\<close> is one step of any request: the commit of a
  creation, an update or a deletion by identifier (which spawns the recompute its hook
  starts), the aggregation of a pending task, or the write of a computed one. The lemmas
  show that every sequential execution of the review model is a schedule of this system,
  that the bounds of the cache hold in every interleaving, that a stale aggregate is
  reachable with no recompute left (the race the specification accepts), and that
  recomputes always complete.
\<close>

section \<open>Tasks and steps\<close>

datatype recompute = Pending oid | Computed oid "stat list"

type_synonym sys = "db \<times> recompute multiset"

text \<open>The second half of \<open>calcAverageRatings\<close>, after the aggregation: the write of
  the statistics it computed (lines 60--70).\<close>

definition calc_write :: "oid \<Rightarrow> stat list \<Rightarrow> db \<Rightarrow> db" where
  "calc_write tourId stats st =
     (if length stats > 0 then
        st\<lparr>tours := tour_findByIdAndUpdate tourId
                      \<lparr>upd_ratingsQuantity = nRating (stats ! 0),
                       upd_ratingsAverage = avgRating (stats ! 0)\<rparr> (tours st)\<rparr>
      else
        st\<lparr>tours := tour_findByIdAndUpdate tourId
                      \<lparr>upd_ratingsQuantity = 0, upd_ratingsAverage = 4.5\<rparr> (tours st)\<rparr>)"

text \<open>The commit of \<open>Review.create\<close>: the save; on success the \<open>post('save')\<close>
  hook starts a recompute that nobody awaits (line 79).\<close>

definition commit_create :: "review_input \<Rightarrow> sys \<Rightarrow> sys" where
  "commit_create inp s =
     (case review_save inp (fst s) of
        (Inl e, st1) \<Rightarrow> (st1, snd s)
      | (Inr d, st1) \<Rightarrow> (st1, add_mset (Pending (tour d)) (snd s)))"

text \<open>The commit of an update or a deletion by identifier: the pre hook captures the
  document, the query runs, and on success the post hook starts the recompute of the
  captured tour; with no captured document the hook throws and starts none.\<close>

definition commit_byId :: "oid \<Rightarrow> (db \<Rightarrow> (error + review_doc option) \<times> db) \<Rightarrow> sys \<Rightarrow> sys" where
  "commit_byId rid q s =
     (let r = review_pre_findOneAnd rid (fst s); (res, st1) = q (fst s) in
      case (res, r) of
        (Inr _, Some d) \<Rightarrow> (st1, add_mset (Pending (tour d)) (snd s))
      | _ \<Rightarrow> (st1, snd s))"

text \<open>One step of the system: any request commits (updates validated when \<open>rv\<close>), or
  any task in flight makes progress.\<close>

inductive conc_step :: "bool \<Rightarrow> sys \<Rightarrow> sys \<Rightarrow> bool" for rv where
  create: "conc_step rv s (commit_create inp s)"
| update: "conc_step rv s (commit_byId rid (review_findOneAndUpdate rv rid p) s)"
| delete: "conc_step rv s (commit_byId rid (review_findOneAndDelete rid) s)"
| aggregate: "conc_step rv (st, ts) (st, add_mset (Computed t (aggregate_ratings t (reviews st))) (ts - {#Pending t#}))"
    if "Pending t \<in># ts"
| write_back: "conc_step rv (st, ts) (calc_write t stats st, ts - {#Computed t stats#})"
    if "Computed t stats \<in># ts"

section \<open>Specification of the concurrent system\<close>

text \<open>The operations whose update flag agrees with the system's; the validity of
  ratings and of the cached averages (the \<open>min\<close>/\<open>max\<close> of both schemas, which the
  aggregate write does not validate); and the invariant of the system.\<close>

fun op_validated :: "bool \<Rightarrow> review_op \<Rightarrow> bool" where
  "op_validated rv (UpdateReview rv' rid p) = (rv' = rv)"
| "op_validated rv _ = True"

definition ratings_valid :: "review_doc list \<Rightarrow> bool" where
  "ratings_valid rs \<longleftrightarrow> list_all (\<lambda>r. 1 \<le> rating r \<and> rating r \<le> 5) rs"

definition averages_in_range :: "tour_doc list \<Rightarrow> bool" where
  "averages_in_range ts \<longleftrightarrow> list_all (\<lambda>d. secretTour d \<or> 1 \<le> ratingsAverage d \<and> ratingsAverage d \<le> 5) ts"

fun task_ok :: "recompute \<Rightarrow> bool" where
  "task_ok (Pending t) = True"
| "task_ok (Computed t stats) = list_all (\<lambda>x. 1 \<le> avgRating x \<and> avgRating x \<le> 5) stats"

definition db_inv :: "db \<Rightarrow> bool" where
  "db_inv st \<longleftrightarrow> db_wf st \<and> ratings_valid (reviews st) \<and> averages_in_range (tours st)"

definition conc_inv :: "sys \<Rightarrow> bool" where
  "conc_inv s \<longleftrightarrow> db_inv (fst s) \<and> (\<forall>c\<in>#snd s. task_ok c)"

text \<open>The two reviews of the race below.\<close>

definition race_rA :: review_doc where
  "race_rA = \<lparr>review_id = 100, review = ''Amazing tour, would book again!'', rating = 5,
              createdAt = 1000, tour = 1, user = 10\<rparr>"

definition race_rB :: review_doc where
  "race_rB = \<lparr>review_id = 101, review = ''Amazing tour, would book again!'', rating = 3,
              createdAt = 1000, tour = 1, user = 11\<rparr>"

section \<open>Lemmas\<close>

lemma calcAverageRatings_split:
  "calcAverageRatings t st = calc_write t (aggregate_ratings t (reviews st)) st"
  by (simp add: calcAverageRatings_def calc_write_def Let_def)

lemma recompute_steps:
  assumes "Pending t \<in># ts"
  shows "(conc_step rv)\<^sup>*\<^sup>* (st, ts) (calcAverageRatings t st, ts - {#Pending t#})"
proof -
  let ?c = "Computed t (aggregate_ratings t (reviews st))"
  have "conc_step rv (st, ts) (st, add_mset ?c (ts - {#Pending t#}))"
    using assms by (rule conc_step.aggregate)
  moreover have "conc_step rv (st, add_mset ?c (ts - {#Pending t#}))
                   (calc_write t (aggregate_ratings t (reviews st)) st, ts - {#Pending t#})"
    using conc_step.write_back [of t "aggregate_ratings t (reviews st)" "add_mset ?c (ts - {#Pending t#})" rv st]
    by simp
  ultimately show ?thesis by (simp add: calcAverageRatings_split)
qed

lemma serial_create:
  "(conc_step rv)\<^sup>*\<^sup>* (st, ts) (snd (review_create inp st), ts)"
proof (cases "review_save inp st")
  case (Pair res st1)
  show ?thesis
  proof (cases res)
    case (Inl e)
    then have "conc_step rv (st, ts) (snd (review_create inp st), ts)"
      using conc_step.create [of rv "(st, ts)" inp] Pair by (simp add: commit_create_def review_create_def)
    then show ?thesis by simp
  next
    case (Inr d)
    have "conc_step rv (st, ts) (st1, add_mset (Pending (tour d)) ts)"
      using conc_step.create [of rv "(st, ts)" inp] Pair Inr by (simp add: commit_create_def)
    moreover have "(conc_step rv)\<^sup>*\<^sup>* (st1, add_mset (Pending (tour d)) ts) (calcAverageRatings (tour d) st1, ts)"
      using recompute_steps [of "tour d" "add_mset (Pending (tour d)) ts"] by simp
    ultimately show ?thesis using Pair Inr
      by (simp add: review_create_def review_post_save_def)
  qed
qed

lemma serial_byId:
  assumes step: "\<And>s. conc_step rv s (commit_byId rid q s)"
  shows "(conc_step rv)\<^sup>*\<^sup>* (st, ts) (snd (with_findOneAnd_hooks rid q st), ts)"
proof (cases "q st")
  case (Pair res st1)
  have c: "conc_step rv (st, ts) (commit_byId rid q (st, ts))" by (rule step)
  show ?thesis
  proof (cases "\<exists>v d. res = Inr v \<and> review_pre_findOneAnd rid st = Some d")
    case True
    then obtain v d where v: "res = Inr v" and d: "review_pre_findOneAnd rid st = Some d" by blast
    have "commit_byId rid q (st, ts) = (st1, add_mset (Pending (tour d)) ts)"
      using Pair v d by (simp add: commit_byId_def)
    moreover have "(conc_step rv)\<^sup>*\<^sup>* (st1, add_mset (Pending (tour d)) ts) (calcAverageRatings (tour d) st1, ts)"
      using recompute_steps [of "tour d" "add_mset (Pending (tour d)) ts"] by simp
    ultimately show ?thesis using c Pair v d
      by (simp add: with_findOneAnd_hooks_def review_post_findOneAnd_def)
  next
    case False
    then have "commit_byId rid q (st, ts) = (snd (with_findOneAnd_hooks rid q st), ts)"
      using Pair by (auto simp: commit_byId_def with_findOneAnd_hooks_def review_post_findOneAnd_def
          split: sum.splits option.splits)
    with c show ?thesis by simp
  qed
qed

lemma serial_review_step:
  "op_validated rv op \<Longrightarrow> (conc_step rv)\<^sup>*\<^sup>* (st, ts) (review_step op st, ts)"
proof (cases op)
  case (CreateReview inp)
  then show ?thesis by (simp add: serial_create)
next
  case (UpdateReview rv' rid p)
  moreover assume "op_validated rv op"
  ultimately show ?thesis
    using serial_byId [of rv rid "review_findOneAndUpdate rv rid p" st ts] conc_step.update
    by (simp add: review_findByIdAndUpdate_def)
next
  case (DeleteReview rid)
  then show ?thesis
    using serial_byId [of rv rid "review_findOneAndDelete rid" st ts] conc_step.delete
    by (simp add: review_findByIdAndDelete_def)
qed

lemma new_review_rating:
  "review_errors inp = [] \<Longrightarrow> new_review inp i t0 = Some d \<Longrightarrow> 1 \<le> rating d \<and> rating d \<le> 5"
  by (auto simp: review_errors_def path_errors_def rating_error_def review_text_error_def ref_error_def
      new_review_def split: option.splits if_splits)

lemma review_findOneAndUpdate_cases:
  assumes "review_findOneAndUpdate rv rid p st = (res, st')"
  shows "st' = st \<or>
         (\<exists>ys d zs. reviews st = ys @ d # zs \<and> review_id d = rid \<and> (rv \<longrightarrow> patch_errors p = []) \<and>
            \<not> list_ex (\<lambda>r. review_id r \<noteq> rid \<and> tour r = tour (apply_review_patch p d) \<and>
                          user r = user (apply_review_patch p d)) (reviews st) \<and>
            st' = st\<lparr>reviews := ys @ apply_review_patch p d # zs\<rparr>)"
proof (cases "find (\<lambda>r. review_id r = rid) (reviews st)")
  case None
  then show ?thesis using assms by (simp add: review_findOneAndUpdate_def Let_def split: if_splits)
next
  case (Some d)
  obtain ys zs where rs: "reviews st = ys @ d # zs"
    and upd: "update_first (\<lambda>r. review_id r = rid) (apply_review_patch p) (reviews st) = ys @ apply_review_patch p d # zs"
    using update_first_split [OF Some] by blast
  have "review_id d = rid" using find_SomeD [OF Some] by simp
  then show ?thesis using assms Some rs upd
    by (auto simp: review_findOneAndUpdate_def Let_def split: if_splits)
qed

lemma review_findOneAndDelete_cases:
  "snd (review_findOneAndDelete rid st) = st \<or>
   (\<exists>ys d zs. reviews st = ys @ d # zs \<and> snd (review_findOneAndDelete rid st) = st\<lparr>reviews := ys @ zs\<rparr>)"
proof (cases "find (\<lambda>r. review_id r = rid) (reviews st)")
  case None
  then show ?thesis by (simp add: review_findOneAndDelete_def)
next
  case (Some d)
  obtain ys zs where "reviews st = ys @ d # zs"
    and "delete_first (\<lambda>r. review_id r = rid) (reviews st) = ys @ zs"
    using delete_first_split [OF Some] by blast
  moreover from this Some have "snd (review_findOneAndDelete rid st) = st\<lparr>reviews := ys @ zs\<rparr>"
    by (simp add: review_findOneAndDelete_def)
  ultimately show ?thesis by blast
qed

lemma patch_rating_valid:
  "patch_errors p = [] \<Longrightarrow> 1 \<le> rating d \<and> rating d \<le> 5 \<Longrightarrow>
   1 \<le> rating (apply_review_patch p d) \<and> rating (apply_review_patch p d) \<le> 5"
  by (cases "set_rating p")
     (auto simp: patch_errors_def path_errors_def rating_error_def apply_review_patch_def
        split: option.splits if_splits)

lemma set_ratingsAverage_range:
  "1 \<le> x \<Longrightarrow> x \<le> 5 \<Longrightarrow> 1 \<le> set_ratingsAverage x \<and> set_ratingsAverage x \<le> 5"
  using set_ratingsAverage_mono [of 1 x] set_ratingsAverage_mono [of x 5] by simp

lemma averages_in_range_update:
  "averages_in_range ts \<Longrightarrow> 1 \<le> set_ratingsAverage (upd_ratingsAverage u) \<Longrightarrow>
   set_ratingsAverage (upd_ratingsAverage u) \<le> 5 \<Longrightarrow>
   averages_in_range (tour_findByIdAndUpdate t u ts)"
  by (induction ts) (auto simp: averages_in_range_def tour_findByIdAndUpdate_def apply_rating_update_def)

lemma db_inv_save:
  assumes inv: "db_inv st"
  shows "db_inv (snd (review_save inp st))"
proof -
  obtain res st' where run: "review_save inp st = (res, st')" by fastforce
  consider (failed) "st' = st\<lparr>next_id := Suc (next_id st)\<rparr>"
    | (inserted) d where "new_review inp (next_id st) (load_time st) = Some d" "review_errors inp = []"
        "\<not> list_ex (\<lambda>r. tour r = tour d \<and> user r = user d) (reviews st)"
        "st' = st\<lparr>next_id := Suc (next_id st), reviews := reviews st @ [d]\<rparr>"
    using review_save_cases [OF run] by blast
  then have "db_inv st'"
  proof cases
    case failed
    with inv show ?thesis by (auto simp: db_inv_def db_wf_def list_all_iff)
  next
    case inserted
    have rid: "review_id d = next_id st" using new_review_Some [OF inserted(1)] by simp
    have "1 \<le> rating d \<and> rating d \<le> 5" using new_review_rating [OF inserted(2,1)] .
    with inv inserted(3,4) rid show ?thesis
      by (auto simp: db_inv_def db_wf_def ratings_valid_def list_all_iff list_ex_iff)
  qed
  with run show ?thesis by simp
qed

lemma db_inv_update:
  assumes inv: "db_inv st"
  shows "db_inv (snd (review_findOneAndUpdate True rid p st))"
proof -
  obtain res st' where run: "review_findOneAndUpdate True rid p st = (res, st')" by fastforce
  have "db_inv st'"
    using review_findOneAndUpdate_cases [OF run]
  proof (elim disjE exE conjE)
    assume "st' = st"
    with inv show ?thesis by simp
  next
    fix ys d zs
    assume rs: "reviews st = ys @ d # zs" and rid: "review_id d = rid"
      and pe: "True \<longrightarrow> patch_errors p = []"
      and nd: "\<not> list_ex (\<lambda>r. review_id r \<noteq> rid \<and> tour r = tour (apply_review_patch p d) \<and>
                            user r = user (apply_review_patch p d)) (reviews st)"
      and st': "st' = st\<lparr>reviews := ys @ apply_review_patch p d # zs\<rparr>"
    from nd rid have nd': "\<not> list_ex (\<lambda>r. review_id r \<noteq> review_id d \<and> tour r = tour (apply_review_patch p d) \<and>
                            user r = user (apply_review_patch p d)) (reviews st)" by simp
    have wf: "db_wf (st\<lparr>reviews := ys @ apply_review_patch p d # zs\<rparr>)"
      using inv by (intro db_wf_replace_review [OF _ rs _ nd']) (simp_all add: db_inv_def apply_review_patch_def)
    have "1 \<le> rating d \<and> rating d \<le> 5" using inv rs by (simp add: db_inv_def ratings_valid_def)
    then have "1 \<le> rating (apply_review_patch p d) \<and> rating (apply_review_patch p d) \<le> 5"
      using pe by (simp add: patch_rating_valid)
    then show ?thesis using inv rs wf st' by (simp add: db_inv_def ratings_valid_def)
  qed
  with run show ?thesis by simp
qed

lemma db_inv_delete: "db_inv st \<Longrightarrow> db_inv (snd (review_findOneAndDelete rid st))"
  using review_findOneAndDelete_cases [of rid st]
  by (auto simp: db_inv_def ratings_valid_def dest: db_wf_remove_review)

lemma task_ok_aggregate:
  "ratings_valid rs \<Longrightarrow> task_ok (Computed t (aggregate_ratings t rs))"
  using mean_rating_bounds [of "tour_reviews t rs" 1 5]
  by (auto simp: aggregate_ratings_eq ratings_valid_def list_all_tour_reviews)

lemma db_inv_calc_write:
  "db_inv st \<Longrightarrow> task_ok (Computed t stats) \<Longrightarrow> db_inv (calc_write t stats st)"
  using set_ratingsAverage_range [of "avgRating (stats ! 0)"]
  by (auto simp: db_inv_def calc_write_def db_wf_def list_all_length intro!: averages_in_range_update)

lemma commit_byId_parts:
  "fst (commit_byId rid q s) = snd (q (fst s)) \<and>
   (snd (commit_byId rid q s) = snd s \<or> (\<exists>t. snd (commit_byId rid q s) = add_mset (Pending t) (snd s)))"
  by (auto simp: commit_byId_def Let_def split: prod.splits sum.splits option.splits)

lemma commit_create_parts:
  "fst (commit_create inp s) = snd (review_save inp (fst s)) \<and>
   (snd (commit_create inp s) = snd s \<or> (\<exists>t. snd (commit_create inp s) = add_mset (Pending t) (snd s)))"
  by (auto simp: commit_create_def split: prod.splits sum.splits)

lemma tasks_ok_add_pending:
  "(\<forall>c\<in>#ts'. task_ok c) \<longleftrightarrow> (\<forall>c\<in>#ts. task_ok c)" if "ts' = ts \<or> (\<exists>t. ts' = add_mset (Pending t) ts)"
  using that by auto

lemma conc_step_inv:
  "conc_step True s s' \<Longrightarrow> conc_inv s \<Longrightarrow> conc_inv s'"
proof (induction rule: conc_step.induct)
  case (create s inp)
  then show ?case using commit_create_parts [of inp s] tasks_ok_add_pending [of "snd (commit_create inp s)" "snd s"]
    by (simp add: conc_inv_def db_inv_save)
next
  case (update s rid p)
  then show ?case using commit_byId_parts [of rid "review_findOneAndUpdate True rid p" s]
      tasks_ok_add_pending [of "snd (commit_byId rid (review_findOneAndUpdate True rid p) s)" "snd s"]
    by (simp add: conc_inv_def db_inv_update)
next
  case (delete s rid)
  then show ?case using commit_byId_parts [of rid "review_findOneAndDelete rid" s]
      tasks_ok_add_pending [of "snd (commit_byId rid (review_findOneAndDelete rid) s)" "snd s"]
    by (simp add: conc_inv_def db_inv_delete)
next
  case (aggregate t ts st)
  then show ?case using task_ok_aggregate [of "reviews st" t]
    by (auto simp: conc_inv_def db_inv_def dest: in_diffD)
next
  case (write_back t stats ts st)
  then show ?case by (auto simp: conc_inv_def db_inv_calc_write dest: in_diffD)
qed

lemma race_schedule:
  "(conc_step True)\<^sup>*\<^sup>* (example_db, {#})
     (calc_write 1 (aggregate_ratings 1 [race_rA])
        (calc_write 1 (aggregate_ratings 1 [race_rA, race_rB])
           (example_db\<lparr>reviews := [race_rA, race_rB], next_id := 102\<rparr>)), {#})"
proof -
  let ?stA = "example_db\<lparr>reviews := [race_rA], next_id := 101\<rparr>"
  let ?stB = "example_db\<lparr>reviews := [race_rA, race_rB], next_id := 102\<rparr>"
  let ?aA = "aggregate_ratings 1 [race_rA]" and ?aB = "aggregate_ratings 1 [race_rA, race_rB]"
  have c1: "commit_create (example_input 1 10 5) (example_db, {#}) = (?stA, {#Pending 1#})"
    by (simp add: commit_create_def review_eval race_rA_def)
  have c2: "commit_create (example_input 1 11 3) (?stA, {#Computed 1 ?aA#}) =
              (?stB, {#Pending 1, Computed 1 ?aA#})"
    by (simp add: commit_create_def review_eval race_rA_def race_rB_def)
  have s1: "conc_step True (example_db, {#}) (?stA, {#Pending 1#})"
    using conc_step.create [of True "(example_db, {#})" "example_input 1 10 5"] c1 by simp
  have s2: "conc_step True (?stA, {#Pending 1#}) (?stA, {#Computed 1 ?aA#})"
    using conc_step.aggregate [of 1 "{#Pending 1#}" True ?stA] by simp
  have s3: "conc_step True (?stA, {#Computed 1 ?aA#}) (?stB, {#Pending 1, Computed 1 ?aA#})"
    using conc_step.create [of True "(?stA, {#Computed 1 ?aA#})" "example_input 1 11 3"] c2 by simp
  have s4: "conc_step True (?stB, {#Pending 1, Computed 1 ?aA#}) (?stB, {#Computed 1 ?aB, Computed 1 ?aA#})"
    using conc_step.aggregate [of 1 "{#Pending 1, Computed 1 ?aA#}" True ?stB] by simp
  have s5: "conc_step True (?stB, {#Computed 1 ?aB, Computed 1 ?aA#}) (calc_write 1 ?aB ?stB, {#Computed 1 ?aA#})"
    using conc_step.write_back [of 1 ?aB "{#Computed 1 ?aB, Computed 1 ?aA#}" True ?stB] by simp
  have s6: "conc_step True (calc_write 1 ?aB ?stB, {#Computed 1 ?aA#}) (calc_write 1 ?aA (calc_write 1 ?aB ?stB), {#})"
    using conc_step.write_back [of 1 ?aA "{#Computed 1 ?aA#}" True "calc_write 1 ?aB ?stB"] by simp
  from s1 s2 s3 s4 s5 s6 show ?thesis
    by (meson rtranclp.rtrancl_into_rtrancl rtranclp.rtrancl_refl)
qed

section \<open>Properties of the concurrent aggregator\<close>

text \<open>Every sequential execution of review operations (their updates validated as the system's are) is a schedule of the concurrent system in which each recompute runs right after its commit: the concurrent model refines the sequential one.\<close>

theorem run_review_ops_schedule:
  "list_all (op_validated rv) ops \<Longrightarrow> (conc_step rv)\<^sup>*\<^sup>* (st, ts) (run_review_ops ops st, ts)"
proof (induction ops arbitrary: st)
  case Nil
  then show ?case by simp
next
  case (Cons op ops)
  then have "(conc_step rv)\<^sup>*\<^sup>* (st, ts) (review_step op st, ts)" by (simp add: serial_review_step)
  moreover have "(conc_step rv)\<^sup>*\<^sup>* (review_step op st, ts) (run_review_ops ops (review_step op st), ts)"
    using Cons by simp
  ultimately show ?case by simp
qed

theorem run_review_ops_schedule_witness:
  "(conc_step True)\<^sup>*\<^sup>* (example_db, {#})
     (run_review_ops [CreateReview (example_input 1 10 5), UpdateReview True 100 (rating_patch 2)] example_db, {#})"
  using run_review_ops_schedule [of True "[CreateReview (example_input 1 10 5), UpdateReview True 100 (rating_patch 2)]"
      example_db "{#}"]
  by simp

text \<open>C24. In every interleaving of requests and recompute steps, the store stays well-formed, every review rating stays in [1, 5], every computed but unwritten average stays in [1, 5], and so does the cached average of every visible tour.\<close>

theorem conc_invariant:
  "(conc_step True)\<^sup>*\<^sup>* s0 s \<Longrightarrow> conc_inv s0 \<Longrightarrow> conc_inv s"
  by (induction rule: rtranclp_induct) (auto intro: conc_step_inv)

theorem conc_invariant_witness:
  "conc_inv (calc_write 1 (aggregate_ratings 1 [race_rA])
               (calc_write 1 (aggregate_ratings 1 [race_rA, race_rB])
                  (example_db\<lparr>reviews := [race_rA, race_rB], next_id := 102\<rparr>)), {#})"
proof -
  have "conc_inv (example_db, {#})"
    by (simp add: conc_inv_def db_inv_def db_wf_def ratings_valid_def averages_in_range_def
        example_db_def example_tour_def)
  with race_schedule show ?thesis by (rule conc_invariant)
qed

text \<open>C25. Two creations of reviews of the same tour whose recomputes interleave (the first aggregates, the second aggregates and writes, the first writes last) leave the store with no recompute in flight and the tour's aggregate stale: one review counted, two stored. This is the last-write-wins race the specification accepts.\<close>

theorem concurrent_recompute_race:
  "\<exists>s. (conc_step True)\<^sup>*\<^sup>* (example_db, {#}) (s, {#}) \<and> db_wf s \<and>
       length (tour_reviews 1 (reviews s)) = 2 \<and> tour_rating 1 s = Some (1, 5) \<and>
       \<not> ratings_consistent s"
proof -
  let ?s = "calc_write 1 (aggregate_ratings 1 [race_rA])
              (calc_write 1 (aggregate_ratings 1 [race_rA, race_rB])
                 (example_db\<lparr>reviews := [race_rA, race_rB], next_id := 102\<rparr>))"
  have "db_wf ?s \<and> length (tour_reviews 1 (reviews ?s)) = 2 \<and> tour_rating 1 ?s = Some (1, 5) \<and>
        \<not> ratings_consistent ?s"
    by (simp add: calc_write_def aggregate_ratings_def db_wf_def example_db_def example_tour_def
       race_rA_def race_rB_def tour_reviews_def tour_rating_def tour_findByIdAndUpdate_def
       tour_find_hook_def apply_rating_update_def ratings_consistent_def aggregate_ok_def)
  with race_schedule show ?thesis by blast
qed

text \<open>A pending recompute of tour t can always run to completion, and when it runs without interruption it leaves the visible tour t with the count and rounded mean of its reviews.\<close>

theorem pending_recompute_converges:
  assumes "Pending t \<in># ts" and "distinct (map tour_id (tours st))"
  shows "\<exists>st'. (conc_step rv)\<^sup>*\<^sup>* (st, ts) (st', ts - {#Pending t#}) \<and> reviews st' = reviews st \<and>
           list_all (\<lambda>d. tour_id d = t \<longrightarrow> secretTour d \<or> aggregate_ok (reviews st') d) (tours st')"
proof -
  have "list_all (\<lambda>d. tour_id d = t \<longrightarrow> secretTour d \<or> aggregate_ok (reviews st) d)
          (tours (calcAverageRatings t st))"
  proof -
    have "list_all (\<lambda>d. tour_id d = t \<longrightarrow> secretTour d \<or> aggregate_ok rs d)
            (map (\<lambda>d. if tour_id d = t \<and> \<not> secretTour d
                      then d\<lparr>ratingsQuantity := length (tour_reviews t rs),
                             ratingsAverage := expected_average (tour_reviews t rs)\<rparr>
                      else d) xs)" for rs xs
      by (induction xs) (auto simp: aggregate_ok_def)
    then show ?thesis using assms(2) by (simp add: calcAverageRatings_tours)
  qed
  then show ?thesis using recompute_steps [OF assms(1), of rv st] by auto
qed

theorem pending_recompute_converges_witness:
  "\<exists>st'. (conc_step True)\<^sup>*\<^sup>* (example_db\<lparr>reviews := [race_rA]\<rparr>, {#Pending 1#}) (st', {#}) \<and>
     reviews st' = [race_rA] \<and>
     list_all (\<lambda>d. tour_id d = 1 \<longrightarrow> secretTour d \<or> aggregate_ok (reviews st') d) (tours st')"
  using pending_recompute_converges [of 1 "{#Pending 1#}" "example_db\<lparr>reviews := [race_rA]\<rparr>" True]
  by (simp add: example_db_def example_tour_def)

text \<open>From every state, all recomputes in flight can complete: the system always reaches a state with no task left.\<close>

theorem recomputes_drain:
  "\<exists>st'. (conc_step rv)\<^sup>*\<^sup>* (st, ts) (st', {#})"
proof (induction ts arbitrary: st rule: multiset_induct)
  case empty
  show ?case by blast
next
  case (add c ts)
  show ?case
  proof (cases c)
    case (Pending t)
    have "(conc_step rv)\<^sup>*\<^sup>* (st, add_mset c ts) (calcAverageRatings t st, ts)"
      using recompute_steps [of t "add_mset c ts" rv st] Pending by simp
    moreover obtain st' where "(conc_step rv)\<^sup>*\<^sup>* (calcAverageRatings t st, ts) (st', {#})"
      using add.IH by blast
    ultimately show ?thesis by (meson rtranclp_trans)
  next
    case (Computed t stats)
    have "conc_step rv (st, add_mset c ts) (calc_write t stats st, ts)"
      using conc_step.write_back [of t stats "add_mset c ts" rv st] Computed by simp
    moreover obtain st' where "(conc_step rv)\<^sup>*\<^sup>* (calc_write t stats st, ts) (st', {#})"
      using add.IH by blast
    ultimately show ?thesis by (meson converse_rtranclp_into_rtranclp)
  qed
qed

text \<open>C26. Without update validators (\<open>runValidators\<close> not passed), an update can store
  a rating outside [1, 5], and the aggregate write, which validates nothing either, then
  caches an average outside the tour schema's [1, 5]: the bound of C29 needs the validated
  updates.\<close>

theorem unvalidated_update_average_out_of_range:
  "\<exists>s. (conc_step False)\<^sup>*\<^sup>* (example_db, {#}) (s, {#}) \<and> tour_rating 1 s = Some (1, 9) \<and>
       \<not> averages_in_range (tours s)"
proof -
  let ?ops = "[CreateReview (example_input 1 10 5), UpdateReview False 100 (rating_patch 9)]"
  let ?st1 = "review_step (CreateReview (example_input 1 10 5)) example_db"
  have "(conc_step False)\<^sup>*\<^sup>* (example_db, {#}) (?st1, {#})"
    by (rule serial_review_step) simp
  moreover have "(conc_step False)\<^sup>*\<^sup>* (?st1, {#}) (review_step (UpdateReview False 100 (rating_patch 9)) ?st1, {#})"
    by (rule serial_review_step) simp
  ultimately have r: "(conc_step False)\<^sup>*\<^sup>* (example_db, {#}) (run_review_ops ?ops example_db, {#})"
    by simp
  have "tour_rating 1 (run_review_ops ?ops example_db) = Some (1, 9) \<and>
        \<not> averages_in_range (tours (run_review_ops ?ops example_db))"
    unfolding run_review_ops.simps review_step.simps example_db1_eval
    by (simp add: review_findByIdAndUpdate_found review_eval averages_in_range_def)
  with r show ?thesis by blast
qed

end
