(* ===== verification/Server.thy ===== *)
theory Server
  imports Prelude
begin

text \<open>
  The process bootstrap of \<open>src/server.js\<close>. The process is a record of the listeners
  registered with \<open>process.on\<close> (event name and handler, in registration order), the
  database URL, the HTTP server's state, the exit code once \<open>process.exit\<close> has run and
  the console output. \<open>server_boot\<close> runs the module top to bottom; afterwards the
  process reacts to events (\<open>deliver\<close>): the settling of the \<open>mongoose.connect\<close>
  promise, an uncaught exception, an unhandled rejection, the completion of
  \<open>server.close\<close>. Node's treatment of an unhandled rejection without an
  \<open>unhandledRejection\<close> listener depends on its \<open>--unhandled-rejections\<close> mode: since
  Node 15 the default raises it as an uncaught exception (\<open>Throw_mode\<close>), before it only
  printed a warning (\<open>Warn_mode\<close>).
\<close>

section \<open>JavaScript's String.prototype.replace with a string pattern\<close>

text \<open>The replacement string is expanded by GetSubstitution: \<open>$$\<close> is a dollar,
  \<open>$&\<close> the matched text, \<open>$`\<close> the text before the match, \<open>$'\<close> the text after it;
  a string pattern has no captures, so every other \<open>$\<close> is kept.\<close>

fun get_subst :: "string \<Rightarrow> string \<Rightarrow> string \<Rightarrow> string \<Rightarrow> string" where
  "get_subst m b a [] = []"
| "get_subst m b a [c] = [c]"
| "get_subst m b a (c1 # c2 # r) =
     (if c1 = CHR ''$'' \<and> c2 = CHR ''$'' then CHR ''$'' # get_subst m b a r
      else if c1 = CHR ''$'' \<and> c2 = CHR ''&'' then m @ get_subst m b a r
      else if c1 = CHR ''$'' \<and> c2 = CHR 0x60 then b @ get_subst m b a r
      else if c1 = CHR ''$'' \<and> c2 = CHR 0x27 then a @ get_subst m b a r
      else c1 # get_subst m b a (c2 # r))"

fun first_occ :: "string \<Rightarrow> string \<Rightarrow> nat option" where
  "first_occ pat [] = (if pat = [] then Some 0 else None)"
| "first_occ pat (c # s) =
     (if take (length pat) (c # s) = pat then Some 0 else map_option Suc (first_occ pat s))"

definition js_replace :: "string \<Rightarrow> string \<Rightarrow> string \<Rightarrow> string" where
  "js_replace s pat rep =
     (case first_occ pat s of
        None \<Rightarrow> s
      | Some i \<Rightarrow>
          (let before = take i s; after = drop (i + length pat) s
           in before @ get_subst pat before after rep @ after))"

section \<open>The process\<close>

datatype handler = Exit_now | Close_then_exit

datatype srv_state = Not_listening | Listening "string + nat" | Closing | Closed

datatype js_err = Err string string

datatype log_entry =
    Log_uncaught js_err | Log_rejection js_err | Log_db_ok | Log_listening "string + nat"
  | Log_crash js_err | Log_warning js_err

record proc =
  listeners :: "(string \<times> handler) list"
  db_url :: string
  srv :: srv_state
  exit_code :: "nat option"
  out :: "log_entry list"

datatype reject_mode = Throw_mode | Warn_mode

datatype proc_event = Db_connected | Uncaught js_err | Rejection js_err | Server_closed

definition rejection_event :: string where
  "rejection_event = ''unhandledRejectit54353on''"

text \<open>The two listeners of \<open>server.js\<close>: log and exit at once (lines 5--10), or log,
  close the server and exit when it has closed (lines 32--40).\<close>

fun run_handler :: "handler \<Rightarrow> js_err \<Rightarrow> proc \<Rightarrow> proc" where
  "run_handler Exit_now e st = st\<lparr>out := out st @ [Log_uncaught e], exit_code := Some 1\<rparr>"
| "run_handler Close_then_exit e st = st\<lparr>out := out st @ [Log_rejection e], srv := Closing\<rparr>"

fun run_handlers :: "handler list \<Rightarrow> js_err \<Rightarrow> proc \<Rightarrow> proc" where
  "run_handlers [] e st = st"
| "run_handlers (h # hs) e st =
     (if exit_code st \<noteq> None then st else run_handlers hs e (run_handler h e st))"

definition handlers_for :: "string \<Rightarrow> proc \<Rightarrow> handler list" where
  "handlers_for n st = map snd (filter (\<lambda>(n', _). n' = n) (listeners st))"

definition emit_uncaught :: "js_err \<Rightarrow> proc \<Rightarrow> proc" where
  "emit_uncaught e st =
     (case handlers_for ''uncaughtException'' st of
        [] \<Rightarrow> st\<lparr>out := out st @ [Log_crash e], exit_code := Some 1\<rparr>
      | hs \<Rightarrow> run_handlers hs e st)"

definition emit_rejection :: "reject_mode \<Rightarrow> js_err \<Rightarrow> proc \<Rightarrow> proc" where
  "emit_rejection mode e st =
     (case handlers_for ''unhandledRejection'' st of
        [] \<Rightarrow> (case mode of
                 Throw_mode \<Rightarrow> emit_uncaught e st
               | Warn_mode \<Rightarrow> st\<lparr>out := out st @ [Log_warning e]\<rparr>)
      | hs \<Rightarrow> run_handlers hs e st)"

definition deliver :: "reject_mode \<Rightarrow> proc_event \<Rightarrow> proc \<Rightarrow> proc" where
  "deliver mode ev st =
     (if exit_code st \<noteq> None then st
      else (case ev of
              Db_connected \<Rightarrow> st\<lparr>out := out st @ [Log_db_ok]\<rparr>
            | Uncaught e \<Rightarrow> emit_uncaught e st
            | Rejection e \<Rightarrow> emit_rejection mode e st
            | Server_closed \<Rightarrow>
                if srv st = Closing then st\<lparr>srv := Closed, exit_code := Some 1\<rparr> else st))"

definition run_events :: "reject_mode \<Rightarrow> proc_event list \<Rightarrow> proc \<Rightarrow> proc" where
  "run_events mode evs st = fold (deliver mode) evs st"

type_synonym env = "string \<Rightarrow> string option"

definition listen_port :: "env \<Rightarrow> string + nat" where
  "listen_port env = (case env ''PORT'' of Some p \<Rightarrow> if p = [] then Inr 3000 else Inl p | None \<Rightarrow> Inr 3000)"

definition boot_start :: proc where
  "boot_start = \<lparr>listeners = [(''uncaughtException'', Exit_now)], db_url = [], srv = Not_listening,
                  exit_code = None, out = []\<rparr>"

definition server_boot :: "env \<Rightarrow> proc" where
  "server_boot env =
     (case env ''DATABASE'' of
        None \<Rightarrow> emit_uncaught (Err ''TypeError'' ''Cannot read property 'replace' of undefined'') boot_start
      | Some d \<Rightarrow>
          (let url = js_replace d ''<password>''
                       (case env ''DATABASE_PASSWORD'' of None \<Rightarrow> ''undefined'' | Some p \<Rightarrow> p);
               port = listen_port env
           in boot_start\<lparr>db_url := url, srv := Listening port, out := [Log_listening port],
                         listeners := listeners boot_start @ [(rejection_event, Close_then_exit)]\<rparr>))"

section \<open>Lemmas\<close>

lemma get_subst_no_dollar: "CHR ''$'' \<notin> set r \<Longrightarrow> get_subst m b a r = r"
  by (induction m b a r rule: get_subst.induct) auto

lemma first_occ_prefix:
  assumes "pat \<noteq> []" and "hd pat \<notin> set a"
  shows "first_occ pat (a @ pat @ b) = Some (length a)"
  using assms
proof (induction a)
  case Nil
  then show ?case by (cases pat) simp_all
next
  case (Cons c a)
  then have "take (length pat) (c # a @ pat @ b) \<noteq> pat" by (cases pat) auto
  with Cons show ?case by simp
qed

lemma js_replace_plain:
  assumes "pat \<noteq> []" and "hd pat \<notin> set a" and "CHR ''$'' \<notin> set rep"
  shows "js_replace (a @ pat @ b) pat rep = a @ rep @ b"
  using assms by (simp add: js_replace_def first_occ_prefix get_subst_no_dollar)

lemma deliver_exited: "exit_code st \<noteq> None \<Longrightarrow> deliver mode ev st = st"
  by (simp add: deliver_def)

lemma run_handler_listeners [simp]: "listeners (run_handler h e st) = listeners st"
  by (cases h) simp_all

lemma run_handlers_listeners [simp]: "listeners (run_handlers hs e st) = listeners st"
  by (induction hs arbitrary: st) simp_all

lemma deliver_listeners [simp]: "listeners (deliver mode ev st) = listeners st"
  by (auto simp: deliver_def emit_uncaught_def emit_rejection_def
      split: proc_event.splits list.splits reject_mode.splits)

lemma run_handlers_exit_now: "srv (run_handlers (replicate k Exit_now) e st) = srv st"
proof (induction k arbitrary: st)
  case (Suc k)
  then show ?case by simp
qed simp

text \<open>With only the listeners \<open>server.js\<close> registers, no event changes the state of the
  server unless it is already closing.\<close>

definition boot_listeners :: "(string \<times> handler) list" where
  "boot_listeners = [(''uncaughtException'', Exit_now), (rejection_event, Close_then_exit)]"

lemma handlers_boot:
  "listeners st = boot_listeners \<Longrightarrow> handlers_for ''uncaughtException'' st = [Exit_now]"
  "listeners st = boot_listeners \<Longrightarrow> handlers_for ''unhandledRejection'' st = []"
  by (simp_all add: handlers_for_def boot_listeners_def rejection_event_def)

lemma deliver_srv:
  assumes "listeners st = boot_listeners" and "srv st \<noteq> Closing"
  shows "srv (deliver mode ev st) = srv st"
  using assms handlers_boot [OF assms(1)]
  by (auto simp: deliver_def emit_uncaught_def emit_rejection_def
      split: proc_event.splits reject_mode.splits)

lemma run_events_srv:
  assumes "listeners st = boot_listeners" and "srv st \<noteq> Closing"
  shows "srv (run_events mode evs st) = srv st"
  using assms
proof (induction evs arbitrary: st)
  case (Cons ev evs)
  then have "srv (run_events mode evs (deliver mode ev st)) = srv (deliver mode ev st)"
    by (simp add: deliver_srv)
  with Cons.prems show ?case by (simp add: run_events_def deliver_srv)
qed (simp add: run_events_def)

lemma server_boot_cases:
  "server_boot env = (case env ''DATABASE'' of
      None \<Rightarrow> boot_start\<lparr>out := [Log_uncaught (Err ''TypeError'' ''Cannot read property 'replace' of undefined'')],
                         exit_code := Some 1\<rparr>
    | Some d \<Rightarrow> boot_start\<lparr>db_url := js_replace d ''<password>''
                          (case env ''DATABASE_PASSWORD'' of None \<Rightarrow> ''undefined'' | Some p \<Rightarrow> p),
                         srv := Listening (listen_port env), out := [Log_listening (listen_port env)],
                         listeners := boot_listeners\<rparr>)"
  by (simp add: server_boot_def emit_uncaught_def handlers_for_def boot_start_def boot_listeners_def
      Let_def split: option.splits)

lemma run_events_exited: "exit_code st \<noteq> None \<Longrightarrow> run_events mode evs st = st"
  by (induction evs) (simp_all add: run_events_def deliver_exited)

lemma server_boot_no_database:
  "env ''DATABASE'' = None \<Longrightarrow>
   exit_code (server_boot env) = Some 1 \<and> srv (server_boot env) = Not_listening"
  by (simp add: server_boot_cases boot_start_def)

text \<open>A password containing a replacement pattern is mangled: \<open>$&\<close> in the password
  is replaced by the placeholder itself.\<close>

lemma db_password_dollar_mangled:
  "db_url (server_boot ((\<lambda>_. None)(''DATABASE'' := Some ''mongodb://u:<password>@h'',
                                    ''DATABASE_PASSWORD'' := Some ''a$&b''))) = ''mongodb://u:a<password>b@h''"
  by (simp add: server_boot_cases js_replace_def boot_start_def)

section \<open>Properties of the bootstrap\<close>

text \<open>C9. With a database URL whose first \<open><password>\<close> placeholder is not preceded by a
  \<open><\<close> and a password without \<open>$\<close>, the bootstrap substitutes the password into the URL,
  listens on \<open>PORT\<close> (3000 when unset or empty), keeps running, and has registered
  exactly its two listeners.\<close>

theorem server_boot_listening:
  assumes "env ''DATABASE'' = Some (a @ ''<password>'' @ b)" and "CHR ''<'' \<notin> set a"
    and "env ''DATABASE_PASSWORD'' = Some p" and "CHR ''$'' \<notin> set p"
  shows "db_url (server_boot env) = a @ p @ b \<and>
       srv (server_boot env) =
         Listening (case env ''PORT'' of Some q \<Rightarrow> if q = [] then Inr 3000 else Inl q | None \<Rightarrow> Inr 3000)
       \<and> exit_code (server_boot env) = None \<and> listeners (server_boot env) = boot_listeners"
  using assms js_replace_plain [of "''<password>''" a p b]
  by (simp add: server_boot_cases boot_start_def listen_port_def)

theorem server_boot_listening_witness:
  "db_url (server_boot ((\<lambda>_. None)(''DATABASE'' := Some ''mongodb://u:<password>@h/db'',
                                    ''DATABASE_PASSWORD'' := Some ''pw''))) = ''mongodb://u:pw@h/db'' \<and>
   srv (server_boot ((\<lambda>_. None)(''DATABASE'' := Some ''mongodb://u:<password>@h/db'',
                                 ''DATABASE_PASSWORD'' := Some ''pw''))) = Listening (Inr 3000) \<and>
   exit_code (server_boot ((\<lambda>_. None)(''DATABASE'' := Some ''mongodb://u:<password>@h/db'',
                                       ''DATABASE_PASSWORD'' := Some ''pw''))) = None"
proof -
  have "db_url (server_boot ((\<lambda>_. None)(''DATABASE'' := Some (''mongodb://u:'' @ ''<password>'' @ ''@h/db''),
                                        ''DATABASE_PASSWORD'' := Some ''pw''))) = ''mongodb://u:'' @ ''pw'' @ ''@h/db'' \<and>
        srv (server_boot ((\<lambda>_. None)(''DATABASE'' := Some (''mongodb://u:'' @ ''<password>'' @ ''@h/db''),
                                     ''DATABASE_PASSWORD'' := Some ''pw''))) =
          Listening (Inr 3000) \<and>
        exit_code (server_boot ((\<lambda>_. None)(''DATABASE'' := Some (''mongodb://u:'' @ ''<password>'' @ ''@h/db''),
                                           ''DATABASE_PASSWORD'' := Some ''pw''))) = None"
    using server_boot_listening [of "(\<lambda>_. None)(''DATABASE'' := Some (''mongodb://u:'' @ ''<password>'' @ ''@h/db''),
                                                ''DATABASE_PASSWORD'' := Some ''pw'')" "''mongodb://u:''" "''@h/db''" "''pw''"]
    by simp
  then show ?thesis by simp
qed

text \<open>C14. The graceful shutdown of \<open>server.js\<close> never happens: the rejection listener is
  registered under the misspelt event \<open>unhandledRejectit54353on\<close>, so whatever events
  follow the bootstrap the HTTP server is never closed. An unhandled rejection (a failed
  \<open>mongoose.connect\<close>, which has no \<open>catch\<close>) instead either exits at once with code 1 through
  the \<open>uncaughtException\<close> listener, the server still open (Node 15 and later), or is only
  warned about and the process keeps running (earlier Node).\<close>

theorem server_never_closes_gracefully:
  "srv (run_events mode evs (server_boot env)) = srv (server_boot env) \<and>
   (env ''DATABASE'' \<noteq> None \<longrightarrow>
      exit_code (deliver Throw_mode (Rejection e) (server_boot env)) = Some 1 \<and>
      srv (deliver Throw_mode (Rejection e) (server_boot env)) = srv (server_boot env) \<and>
      exit_code (deliver Warn_mode (Rejection e) (server_boot env)) = None)"
proof (cases "env ''DATABASE''")
  case None
  then show ?thesis
    using run_events_exited server_boot_no_database [of env, OF None] by simp
next
  case (Some d)
  then have l: "listeners (server_boot env) = boot_listeners"
    and s: "srv (server_boot env) = Listening (listen_port env)"
    and x: "exit_code (server_boot env) = None"
    by (simp_all add: server_boot_cases boot_start_def)
  have "srv (run_events mode evs (server_boot env)) = srv (server_boot env)"
    using run_events_srv [OF l] s by simp
  moreover have "exit_code (deliver Throw_mode (Rejection e) (server_boot env)) = Some 1 \<and>
      srv (deliver Throw_mode (Rejection e) (server_boot env)) = srv (server_boot env) \<and>
      exit_code (deliver Warn_mode (Rejection e) (server_boot env)) = None"
    using handlers_boot [OF l] x by (simp add: deliver_def emit_rejection_def emit_uncaught_def)
  ultimately show ?thesis by simp
qed

theorem server_never_closes_gracefully_witness:
  "srv (deliver Throw_mode (Rejection (Err ''MongoError'' ''connect ECONNREFUSED''))
          (server_boot ((\<lambda>_. None)(''DATABASE'' := Some ''mongodb://h/db'')))) = Listening (Inr 3000) \<and>
   exit_code (deliver Throw_mode (Rejection (Err ''MongoError'' ''connect ECONNREFUSED''))
          (server_boot ((\<lambda>_. None)(''DATABASE'' := Some ''mongodb://h/db'')))) = Some 1"
  using server_never_closes_gracefully [of Throw_mode "[]" "(\<lambda>_. None)(''DATABASE'' := Some ''mongodb://h/db'')"
      "Err ''MongoError'' ''connect ECONNREFUSED''"]
  by (simp add: server_boot_cases boot_start_def listen_port_def)

end
