(* ===== verification/Rate_Limit.thy ===== *)
theory Rate_Limit
  imports Prelude
begin

text \<open>
  The rate limiter of \<open>src/app.js\<close> (lines 84--90): \<open>express-rate-limit\<close> with
  \<open>max: 100\<close> and \<open>windowMs\<close> one hour, mounted on \<open>/api\<close>. Its memory store counts
  the requests of each client address and a \<open>setInterval\<close> timer clears all counts every
  window; a request is counted first and answered 429 with the configured message when its
  count exceeds the maximum. Time is explicit: before a request at \<open>now\<close> the timer
  firings due by then are run (\<open>limiter_advance\<close>, a loop whose termination is proved
  by the measure \<open>now - reset_at\<close>). Express matches the mount path
  case-insensitively, at a segment boundary (\<open>path_mounted\<close>).
\<close>

section \<open>The limiter\<close>

definition limiter_max :: nat where "limiter_max = 100"

definition window_ms :: int where "window_ms = 60 * 60 * 1000"

definition limiter_message :: string where
  "limiter_message = ''Too many requests from this IP, please try again in an hour!''"

record limiter =
  hits :: "string \<Rightarrow> nat"
  reset_at :: timestamp

definition limiter_init :: "timestamp \<Rightarrow> limiter" where
  "limiter_init t0 = \<lparr>hits = (\<lambda>_. 0), reset_at = t0 + window_ms\<rparr>"

function limiter_advance :: "timestamp \<Rightarrow> limiter \<Rightarrow> limiter" where
  "limiter_advance now st =
     (if reset_at st \<le> now
      then limiter_advance now (st\<lparr>hits := (\<lambda>_. 0), reset_at := reset_at st + window_ms\<rparr>)
      else st)"
  by pat_completeness auto
termination
  by (relation "measure (\<lambda>(now, st). nat (now - reset_at st + 1))") (auto simp: window_ms_def)

declare limiter_advance.simps [simp del]

datatype limit_outcome = Pass | TooMany string

definition limiter_request :: "timestamp \<Rightarrow> string \<Rightarrow> limiter \<Rightarrow> limit_outcome \<times> limiter" where
  "limiter_request now ip st =
     (let st1 = limiter_advance now st; c = hits st1 ip + 1;
          st2 = st1\<lparr>hits := (hits st1)(ip := c)\<rparr>
      in (if limiter_max < c then TooMany limiter_message else Pass, st2))"



definition ascii_lower :: "char \<Rightarrow> char" where
  "ascii_lower c = (let n = of_char c :: nat in if 65 \<le> n \<and> n \<le> 90 then char_of (n + 32) else c)"

definition path_mounted :: "string \<Rightarrow> string \<Rightarrow> bool" where
  "path_mounted pre p \<longleftrightarrow>
     (let lp = map ascii_lower p; lpre = map ascii_lower pre
      in lp = lpre \<or> take (Suc (length lpre)) lp = lpre @ ''/'')"

definition api_limiter :: "timestamp \<Rightarrow> string \<Rightarrow> string \<Rightarrow> limiter \<Rightarrow> limit_outcome \<times> limiter" where
  "api_limiter now ip path st = (if path_mounted ''/api'' path then limiter_request now ip st else (Pass, st))"

section \<open>Lemmas\<close>

lemma char_of_eq_iff: "char_of n = c \<longleftrightarrow> n mod 256 = (of_char c :: nat)"
proof
  assume "char_of n = c"
  then show "n mod 256 = (of_char c :: nat)" by auto
next
  assume "n mod 256 = (of_char c :: nat)"
  then have "(of_char (char_of n) :: nat) = of_char c" by simp
  then show "char_of n = c" by (rule of_char_eqI)
qed

lemma limiter_advance_before [simp]: "now < reset_at st \<Longrightarrow> limiter_advance now st = st"
  by (subst limiter_advance.simps) simp

lemma limiter_advance_step:
  "reset_at st \<le> now \<Longrightarrow>
   limiter_advance now st = limiter_advance now (st\<lparr>hits := (\<lambda>_. 0), reset_at := reset_at st + window_ms\<rparr>)"
  by (subst limiter_advance.simps) simp

lemma limiter_advance_after:
  "reset_at st \<le> now \<Longrightarrow> hits (limiter_advance now st) = (\<lambda>_. 0) \<and> now < reset_at (limiter_advance now st)"
proof (induction now st rule: limiter_advance.induct)
  case (1 now st)
  show ?case
  proof (cases "reset_at st + window_ms \<le> now")
    case True
    with "1.IH" "1.prems" show ?thesis by (simp add: limiter_advance_step)
  next
    case False
    with "1.prems" show ?thesis by (simp add: limiter_advance_step)
  qed
qed

lemma reset_at_advance_mono: "reset_at st \<le> reset_at (limiter_advance now st)"
proof (induction now st rule: limiter_advance.induct)
  case (1 now st)
  then show ?case
    by (cases "reset_at st \<le> now") (auto simp: limiter_advance_step window_ms_def intro: order_trans)
qed

lemma api_limiter_case_insensitive:
  "api_limiter 5 ''a'' ''/API/v1/tours'' ((limiter_init 0)\<lparr>hits := (\<lambda>_. 100)\<rparr>) =
   (TooMany limiter_message, (limiter_init 0)\<lparr>hits := (\<lambda>_. 100)(''a'' := 101)\<rparr>)"
  by (simp add: api_limiter_def path_mounted_def ascii_lower_def limiter_request_def limiter_init_def
      window_ms_def limiter_max_def char_of_eq_iff)

lemma api_limiter_segment_boundary: "api_limiter 5 ''a'' ''/apix'' st = (Pass, st)"
  by (simp add: api_limiter_def path_mounted_def ascii_lower_def)

section \<open>Properties of the rate limiter\<close>



text \<open>Once the window has elapsed, the timer has cleared the counts: the next request
  of any client is let through, however many it sent before, and the limiter's next reset
  lies in the future.\<close>

theorem limiter_request_after_window:
  "reset_at st \<le> now \<Longrightarrow>
   fst (limiter_request now ip st) = Pass \<and> now < reset_at (snd (limiter_request now ip st))"
  using limiter_advance_after [of st now] by (simp add: limiter_request_def limiter_max_def)

theorem limiter_request_after_window_witness:
  "fst (limiter_request 3600000 ''10.0.0.1'' ((limiter_init 0)\<lparr>hits := (\<lambda>_. 500)\<rparr>)) = Pass"
  using limiter_request_after_window [of "(limiter_init 0)\<lparr>hits := (\<lambda>_. 500)\<rparr>" 3600000 "''10.0.0.1''"]
  by (simp add: limiter_init_def window_ms_def)

end
