(* ===== verification/Routes.thy ===== *)
theory Routes
  imports Rate_Limit
begin

text \<open>
  Request dispatch: the Express routers of \<open>src/routes/tourRoutes.js\<close>,
  \<open>src/routes/reviewRoutes.js\<close> and \<open>src/routes/userRoutes.js\<close>, mounted by
  \<open>src/app.js\<close> (lines 127--144) behind the CORS preflight route (line 41), the rate
  limiter (line 90) and the webhook route (line 93). A router is a list of layers tried in
  order: \<open>router.use\<close> (a prefix match running middleware that call \<open>next()\<close>),
  \<open>router.route(..).get(..)\<close> (a full match with one middleware chain per method, the last
  function answering) and a mounted sub-router. Paths are lists of segments, matched
  case-insensitively as Express does by default; route parameters are collected and merged
  into the parent's when the router was created with \<open>mergeParams\<close>.
  \<open>authController.protect\<close> and \<open>restrictTo\<close> are not in the repository: they are modelled
  by the request's authenticated role (\<open>None\<close> when \<open>protect\<close> rejects the token).
\<close>

section \<open>Express routing\<close>

datatype role = User | Guide | LeadGuide | Admin

datatype meth = GET | HEAD | POST | PUT | PATCH | DELETE | OPTIONS

datatype seg = Lit string | Par string

type_synonym params = "(string \<times> string) list"

datatype mw = Protect | RestrictTo "role list" | Step string

record request =
  req_method :: meth
  req_path :: "string list"
  req_auth :: "role option"

datatype layer =
    Use "seg list" "mw list"
  | Route "seg list" "(meth \<times> mw list \<times> string) list"
  | Mount "seg list" bool "layer list"

datatype response = Next "string list" | Sent string "string list" params | Failed nat string

definition match_seg :: "seg \<Rightarrow> string \<Rightarrow> params option" where
  "match_seg p s = (case p of
      Lit l \<Rightarrow> if map ascii_lower l = map ascii_lower s then Some [] else None
    | Par n \<Rightarrow> Some [(n, s)])"

fun match_prefix :: "seg list \<Rightarrow> string list \<Rightarrow> (params \<times> string list) option" where
  "match_prefix [] ss = Some ([], ss)"
| "match_prefix (p # ps) [] = None"
| "match_prefix (p # ps) (s # ss) =
     (case match_seg p s of
        None \<Rightarrow> None
      | Some b \<Rightarrow> (case match_prefix ps ss of None \<Rightarrow> None | Some (b', r) \<Rightarrow> Some (b @ b', r)))"

definition match_full :: "seg list \<Rightarrow> string list \<Rightarrow> params option" where
  "match_full p ss = (case match_prefix p ss of Some (b, []) \<Rightarrow> Some b | _ \<Rightarrow> None)"

definition protect_error :: "nat \<times> string" where
  "protect_error = (401, ''You are not logged in! Please log in to get access.'')"

definition restrict_error :: "nat \<times> string" where
  "restrict_error = (403, ''You do not have permission to perform this action'')"

fun run_mws :: "role option \<Rightarrow> mw list \<Rightarrow> string list \<Rightarrow> (nat \<times> string) + string list" where
  "run_mws a [] tr = Inr tr"
| "run_mws a (Protect # ms) tr = (case a of None \<Rightarrow> Inl protect_error | Some _ \<Rightarrow> run_mws a ms tr)"
| "run_mws a (RestrictTo rs # ms) tr =
     (case a of
        None \<Rightarrow> Inl (500, ''TypeError'')
      | Some r \<Rightarrow> if r \<in> set rs then run_mws a ms tr else Inl restrict_error)"
| "run_mws a (Step n # ms) tr = run_mws a ms (tr @ [n])"

definition route_handler :: "(meth \<times> mw list \<times> string) list \<Rightarrow> meth \<Rightarrow> (meth \<times> mw list \<times> string) option" where
  "route_handler rs m = (case find (\<lambda>(m', _, _). m' = m) rs of
      Some e \<Rightarrow> Some e
    | None \<Rightarrow> if m = HEAD then find (\<lambda>(m', _, _). m' = GET) rs else None)"

fun run_layers :: "request \<Rightarrow> bool \<Rightarrow> params \<Rightarrow> string list \<Rightarrow> layer list \<Rightarrow> string list \<Rightarrow> response" where
  "run_layers rq mg ps ss [] tr = Next tr"
| "run_layers rq mg ps ss (Use p ms # ls) tr =
     (case match_prefix p ss of
        None \<Rightarrow> run_layers rq mg ps ss ls tr
      | Some _ \<Rightarrow> (case run_mws (req_auth rq) ms tr of
                     Inl (c, msg) \<Rightarrow> Failed c msg
                   | Inr tr' \<Rightarrow> run_layers rq mg ps ss ls tr'))"
| "run_layers rq mg ps ss (Route p rs # ls) tr =
     (case match_full p ss of
        None \<Rightarrow> run_layers rq mg ps ss ls tr
      | Some b \<Rightarrow> (case route_handler rs (req_method rq) of
          None \<Rightarrow> run_layers rq mg ps ss ls tr
        | Some (_, ms, h) \<Rightarrow> (case run_mws (req_auth rq) ms tr of
            Inl (c, msg) \<Rightarrow> Failed c msg
          | Inr tr' \<Rightarrow> Sent h tr' (if mg then b @ ps else b))))"
| "run_layers rq mg ps ss (Mount p mp sub # ls) tr =
     (case match_prefix p ss of
        None \<Rightarrow> run_layers rq mg ps ss ls tr
      | Some (b, rest) \<Rightarrow>
          (case run_layers rq mp (if mg then b @ ps else b) rest sub tr of
             Next tr' \<Rightarrow> run_layers rq mg ps ss ls tr'
           | r \<Rightarrow> r))"

section \<open>The routers of the repository\<close>

definition review_router :: "layer list" where
  "review_router =
    [Use [] [Protect],
     Route [] [(GET, [], ''reviewController.getAllReviews''),
               (POST, [RestrictTo [User], Step ''reviewController.setTourUserIds''], ''reviewController.createReview'')],
     Route [Par ''id''] [(PATCH, [RestrictTo [User, Admin]], ''reviewController.updateReview''),
                         (DELETE, [RestrictTo [User, Admin]], ''reviewController.deleteReview''),
                         (GET, [], ''reviewController.getReview'')]]"

definition tour_router :: "layer list" where
  "tour_router =
    [Mount [Par ''id'', Lit ''reviews''] True review_router,
     Route [Lit ''top-5-cheap''] [(GET, [Step ''tourController.aliasTopTours''], ''tourController.getAllTours'')],
     Route [Lit ''tour-stats''] [(GET, [], ''tourController.getTourStats'')],
     Route [Lit ''monthly-plan'', Par ''year'']
       [(GET, [Protect, RestrictTo [Admin, LeadGuide, Guide]], ''tourController.getMonthlyPlan'')],
     Route [Lit ''tours-within'', Par ''distance'', Lit ''center'', Par ''latlng'', Lit ''unit'', Par ''unit'']
       [(GET, [], ''tourController.getToursWithin'')],
     Route [Lit ''distances'', Par ''latlng'', Lit ''unit'', Par ''unit''] [(GET, [], ''tourController.getDistances'')],
     Route [] [(GET, [], ''tourController.getAllTours''),
               (POST, [Protect, RestrictTo [Admin, LeadGuide]], ''tourController.createTour'')],
     Route [Par ''id''] [(GET, [], ''tourController.getTour''),
       (PATCH, [Protect, RestrictTo [Admin, LeadGuide], Step ''tourController.uploadTourImages'',
                Step ''tourController.resizeTourImages''], ''tourController.updateTour''),
       (DELETE, [Protect, RestrictTo [Admin, LeadGuide]], ''tourController.deleteTour'')]]"

definition user_router :: "layer list" where
  "user_router =
    [Route [Lit ''signup''] [(POST, [], ''authController.signup'')],
     Route [Lit ''login''] [(POST, [], ''authController.login'')],
     Route [Lit ''logout''] [(GET, [], ''authController.logout'')],
     Route [Lit ''forgotPassword''] [(POST, [], ''authController.forgotPassword'')],
     Route [Lit ''resetPassword'', Par ''token''] [(PATCH, [], ''authController.resetPassword'')],
     Use [] [Protect],
     Route [Lit ''me''] [(GET, [Step ''userController.getMe''], ''userController.getUser'')],
     Route [Lit ''updateMyPassword''] [(PATCH, [], ''authController.updatePassword'')],
     Route [Lit ''updateMe''] [(PATCH, [Step ''userController.uploadUserPhoto'', Step ''userController.resizeUserPhoto''],
                                ''userController.updateMe'')],
     Route [Lit ''deleteMe''] [(DELETE, [], ''userController.deleteMe'')],
     Use [] [Protect, RestrictTo [Admin]],
     Route [] [(GET, [], ''userController.getAllUsers''), (POST, [], ''userController.createUser'')],
     Route [Par ''id''] [(GET, [], ''userController.getUser''), (PATCH, [], ''userController.updateUser''),
                         (DELETE, [], ''userController.deleteUser'')]]"

definition api_prefix :: "string \<Rightarrow> seg list" where
  "api_prefix r = [Lit ''api'', Lit ''v1'', Lit r]"

definition app_layers :: "layer list \<Rightarrow> layer list \<Rightarrow> layer list" where
  "app_layers views bookings =
    [Route [Lit ''webhook-checkout''] [(POST, [Step ''express.raw''], ''bookingController.webhookCheckout'')],
     Mount [] False views,
     Mount (api_prefix ''tours'') False tour_router,
     Mount (api_prefix ''users'') False user_router,
     Mount (api_prefix ''reviews'') True review_router,
     Mount (api_prefix ''bookings'') False bookings]"

definition url_of :: "string list \<Rightarrow> string" where
  "url_of ss = (if ss = [] then ''/'' else concat (map (\<lambda>s. CHR ''/'' # s) ss))"

definition app_route :: "layer list \<Rightarrow> layer list \<Rightarrow> request \<Rightarrow> response" where
  "app_route views bookings rq =
     (if req_method rq = OPTIONS then Sent ''cors'' [] []
      else (case run_layers rq False [] (req_path rq) (app_layers views bookings) [] of
              Next _ \<Rightarrow> Failed 404 (''Can't find '' @ url_of (req_path rq) @ '' on this server!'')
            | r \<Rightarrow> r))"

definition app_request ::
  "layer list \<Rightarrow> layer list \<Rightarrow> timestamp \<Rightarrow> string \<Rightarrow> request \<Rightarrow> limiter \<Rightarrow> response \<times> limiter" where
  "app_request views bookings now ip rq st =
     (if req_method rq = OPTIONS then (Sent ''cors'' [] [], st)
      else (case api_limiter now ip (url_of (req_path rq)) st of
              (TooMany msg, st') \<Rightarrow> (Failed 429 msg, st')
            | (Pass, st') \<Rightarrow> (app_route views bookings rq, st')))"

section \<open>Guards of the routes\<close>

fun guard_ok :: "role option \<Rightarrow> mw \<Rightarrow> bool" where
  "guard_ok a Protect = (a \<noteq> None)"
| "guard_ok a (RestrictTo rs) = (case a of None \<Rightarrow> False | Some r \<Rightarrow> r \<in> set rs)"
| "guard_ok a (Step _) = True"

fun entries :: "layer list \<Rightarrow> (meth \<times> mw list \<times> string) list" where
  "entries [] = []"
| "entries (Use p ms # ls) =
     map (\<lambda>(m, g, h). (m, ms @ g, h)) (entries ls) @ (if p = [] then [] else entries ls)"
| "entries (Route p rs # ls) = rs @ entries ls"
| "entries (Mount p mp sub # ls) = entries sub @ entries ls"

definition ctl_module :: "string \<Rightarrow> string" where
  "ctl_module h = takeWhile (\<lambda>c. c \<noteq> CHR ''.'') h"

definition repo_modules :: "string list" where
  "repo_modules = [''tourController'', ''reviewController'', ''userController'', ''authController'']"

definition foreign_router :: "layer list \<Rightarrow> bool" where
  "foreign_router ls \<longleftrightarrow> list_all (\<lambda>(_, _, h). ctl_module h \<notin> set repo_modules) (entries ls)"

section \<open>Lemmas\<close>

lemma eq_char_of_iff: "c = char_of n \<longleftrightarrow> n mod 256 = (of_char c :: nat)"
  using char_of_eq_iff [of n c] by auto

lemmas route_eval = app_route_def app_layers_def api_prefix_def tour_router_def user_router_def review_router_def
  match_full_def match_seg_def route_handler_def url_of_def ascii_lower_def char_of_eq_iff eq_char_of_iff
  protect_error_def restrict_error_def

lemma run_mws_guards: "run_mws a ms tr = Inr tr' \<Longrightarrow> list_all (guard_ok a) ms"
  by (induction a ms tr rule: run_mws.induct) (auto split: option.splits if_splits)

lemma run_mws_append:
  "run_mws a (ms @ g) tr = (case run_mws a ms tr of Inl e \<Rightarrow> Inl e | Inr t \<Rightarrow> run_mws a g t)"
  by (induction a ms tr rule: run_mws.induct) (auto split: option.splits)

lemma find_Some_in: "find P xs = Some x \<Longrightarrow> x \<in> set xs"
  by (induction xs) (auto split: if_splits)

lemma route_handler_in: "route_handler rs m = Some e \<Longrightarrow> e \<in> set rs"
  by (auto simp: route_handler_def split: option.splits if_splits dest: find_Some_in)

lemma run_layers_Sent:
  "run_layers rq mg ps ss ls tr = Sent h tr' ps' \<Longrightarrow>
   \<exists>m g. (m, g, h) \<in> set (entries ls) \<and> list_all (guard_ok (req_auth rq)) g"
proof (induction rq mg ps ss ls tr rule: run_layers.induct)
  case (2 rq mg ps ss p ms ls tr)
  then show ?case
    by (fastforce split: option.splits sum.splits prod.splits dest: run_mws_guards)
next
  case (3 rq mg ps ss p rs ls tr)
  then show ?case
    by (fastforce split: option.splits sum.splits prod.splits dest: run_mws_guards route_handler_in)
next
  case (4 rq mg ps ss p mp sub ls tr)
  then show ?case
    by (fastforce split: option.splits response.splits prod.splits)
qed simp

lemma repo_routes_policy:
  assumes "(m, g, h) \<in> set (entries tour_router @ entries user_router @ entries review_router)"
    and "list_all (guard_ok a) g"
  shows "(h \<in> {''tourController.createTour'', ''tourController.updateTour'', ''tourController.deleteTour''}
            \<longrightarrow> a \<in> {Some Admin, Some LeadGuide})
       \<and> (h = ''tourController.getMonthlyPlan'' \<longrightarrow> a \<in> {Some Admin, Some LeadGuide, Some Guide})
       \<and> (ctl_module h \<in> {''reviewController'', ''userController''} \<longrightarrow> a \<noteq> None)
       \<and> (h = ''reviewController.createReview'' \<longrightarrow> a = Some User)
       \<and> (h \<in> {''reviewController.updateReview'', ''reviewController.deleteReview''} \<longrightarrow> a \<in> {Some User, Some Admin})
       \<and> (h \<in> {''userController.getAllUsers'', ''userController.createUser'', ''userController.updateUser'',
               ''userController.deleteUser''} \<longrightarrow> a = Some Admin)"
  using assms
  by (cases a) (auto simp: tour_router_def user_router_def review_router_def ctl_module_def)

section \<open>Properties of the dispatch\<close>

text \<open>C30. Whatever the request and whatever the routers mounted from outside the repository
  (as long as they answer with their own controllers), a request answered by a tour mutation
  was made by an admin or lead guide, the monthly plan only by staff, any review or user
  controller only by a logged-in user, a review creation only by a user of role user, a
  review update or deletion only by a user or an admin, and the user administration only by
  an admin.\<close>

theorem app_route_authorization:
  assumes "foreign_router views" and "foreign_router bookings"
    and "app_route views bookings rq = Sent h tr ps"
  shows "(h \<in> {''tourController.createTour'', ''tourController.updateTour'', ''tourController.deleteTour''}
            \<longrightarrow> req_auth rq \<in> {Some Admin, Some LeadGuide})
       \<and> (h = ''tourController.getMonthlyPlan'' \<longrightarrow> req_auth rq \<in> {Some Admin, Some LeadGuide, Some Guide})
       \<and> (ctl_module h \<in> {''reviewController'', ''userController''} \<longrightarrow> req_auth rq \<noteq> None)
       \<and> (h = ''reviewController.createReview'' \<longrightarrow> req_auth rq = Some User)
       \<and> (h \<in> {''reviewController.updateReview'', ''reviewController.deleteReview''}
            \<longrightarrow> req_auth rq \<in> {Some User, Some Admin})
       \<and> (h \<in> {''userController.getAllUsers'', ''userController.createUser'', ''userController.updateUser'',
               ''userController.deleteUser''} \<longrightarrow> req_auth rq = Some Admin)"
proof (cases "req_method rq = OPTIONS")
  case True
  with assms(3) have "h = ''cors''" by (simp add: app_route_def)
  then show ?thesis by (simp add: ctl_module_def)
next
  case False
  with assms(3) have "run_layers rq False [] (req_path rq) (app_layers views bookings) [] = Sent h tr ps"
    by (simp add: app_route_def split: response.splits)
  then obtain m g where e: "(m, g, h) \<in> set (entries (app_layers views bookings))"
    and ok: "list_all (guard_ok (req_auth rq)) g"
    by (blast dest: run_layers_Sent)
  have "ctl_module h \<notin> set repo_modules \<or>
        (m, g, h) \<in> set (entries tour_router @ entries user_router @ entries review_router)"
    using e assms(1,2)
    by (auto simp: app_layers_def foreign_router_def list_all_iff repo_modules_def ctl_module_def)
  then show ?thesis
  proof
    assume "ctl_module h \<notin> set repo_modules"
    then show ?thesis by (auto simp: repo_modules_def ctl_module_def)
  next
    assume "(m, g, h) \<in> set (entries tour_router @ entries user_router @ entries review_router)"
    from repo_routes_policy [OF this ok] show ?thesis .
  qed
qed

theorem app_route_authorization_witness:
  "foreign_router [] \<and>
   app_route [] [] \<lparr>req_method = PATCH, req_path = [''api'', ''v1'', ''tours'', ''t1''], req_auth = Some LeadGuide\<rparr> =
     Sent ''tourController.updateTour'' [''tourController.uploadTourImages'', ''tourController.resizeTourImages'']
       [(''id'', ''t1'')] \<and>
   Some LeadGuide \<in> {Some Admin, Some LeadGuide}"
proof -
  have r: "app_route [] [] \<lparr>req_method = PATCH, req_path = [''api'', ''v1'', ''tours'', ''t1''], req_auth = Some LeadGuide\<rparr> =
     Sent ''tourController.updateTour'' [''tourController.uploadTourImages'', ''tourController.resizeTourImages'']
       [(''id'', ''t1'')]"
    by (simp add: route_eval)
  have "foreign_router []" by (simp add: foreign_router_def)
  with app_route_authorization [OF this this r] r show ?thesis by simp
qed

text \<open>Dispatch follows the declaration order and Express's matching: the alias route
  \<open>top-5-cheap\<close> is answered by \<open>getAllTours\<close> after \<open>aliasTopTours\<close>, not by
  \<open>getTour\<close>; paths match case-insensitively; in the nested review router the merged
  parameters carry the tour under \<open>id\<close>, which the review's own \<open>id\<close> shadows (no
  \<open>tourId\<close> is ever set); guards answer 401/403 before any controller; an unknown path
  is answered 404 by the fallback; and the rate limiter answers 429 before routing.\<close>

theorem app_dispatch_scenario:
  "app_route [] [] \<lparr>req_method = GET, req_path = [''api'', ''v1'', ''tours'', ''top-5-cheap''], req_auth = None\<rparr> =
     Sent ''tourController.getAllTours'' [''tourController.aliasTopTours''] []
   \<and> app_route [] [] \<lparr>req_method = GET, req_path = [''API'', ''V1'', ''Tours'', ''t1'', ''reviews'', ''r1''],
         req_auth = Some Guide\<rparr> = Sent ''reviewController.getReview'' [] [(''id'', ''r1''), (''id'', ''t1'')]
   \<and> app_route [] [] \<lparr>req_method = POST, req_path = [''api'', ''v1'', ''tours'', ''t1'', ''reviews''],
         req_auth = Some User\<rparr> = Sent ''reviewController.createReview'' [''reviewController.setTourUserIds''] [(''id'', ''t1'')]
   \<and> app_route [] [] \<lparr>req_method = POST, req_path = [''api'', ''v1'', ''reviews''], req_auth = None\<rparr> =
         Failed 401 ''You are not logged in! Please log in to get access.''
   \<and> app_route [] [] \<lparr>req_method = DELETE, req_path = [''api'', ''v1'', ''users'', ''u1''], req_auth = Some LeadGuide\<rparr> =
         Failed 403 ''You do not have permission to perform this action''
   \<and> app_route [] [] \<lparr>req_method = HEAD, req_path = [''api'', ''v1'', ''tours''], req_auth = None\<rparr> =
         Sent ''tourController.getAllTours'' [] []
   \<and> app_route [] [] \<lparr>req_method = GET, req_path = [''api'', ''v1'', ''tourz''], req_auth = None\<rparr> =
         Failed 404 ''Can't find /api/v1/tourz on this server!''
   \<and> fst (app_request [] [] 5 ''a'' \<lparr>req_method = GET, req_path = [''api'', ''v1'', ''tours''], req_auth = None\<rparr>
         ((limiter_init 0)\<lparr>hits := (\<lambda>_. 100)\<rparr>)) = Failed 429 limiter_message"
  by (simp add: route_eval app_request_def api_limiter_def path_mounted_def limiter_request_def limiter_init_def
      window_ms_def limiter_max_def)

end
