(* ===== verification/Json.thy ===== *)
theory Json
  imports Js_Runtime
begin

text \<open>
  \<open>JSON.stringify\<close> and \<open>JSON.parse\<close> on the values of \<open>Js_Runtime\<close>, as the filter
  stage of the query pipeline uses them: the query object is printed, the printed text is
  rewritten by a regular expression, and the result is parsed back. Strings are byte
  strings (UTF-8); \<open>JSON.stringify\<close> escapes the quote, the backslash and the control
  characters and copies every other byte; \<open>JSON.parse\<close> decodes the escapes, a
  \<open>\u\<close> escape to the UTF-8 bytes of its code unit. The parser takes a fuel argument, one
  unit per nested value; the length of the text is always enough (\<open>json_parse\<close>).
\<close>

section \<open>Printing: JSON.stringify\<close>

definition dq :: char where "dq = CHR 0x22"
definition bsl :: char where "bsl = CHR 0x5C"

definition hex_digit :: "nat \<Rightarrow> char" where
  "hex_digit n = (if n < 10 then char_of (48 + n) else char_of (87 + n))"

text \<open>\<open>QuoteJSONString\<close>, one character: the two-character escapes of the table, a
  \<open>\u00XX\<close> escape (lowercase hexadecimal) for the other control characters.\<close>

definition json_escape_char :: "char \<Rightarrow> string" where
  "json_escape_char c =
     (let n = of_char c :: nat in
      if n = 8 then [bsl, CHR ''b''] else if n = 9 then [bsl, CHR ''t'']
      else if n = 10 then [bsl, CHR ''n''] else if n = 12 then [bsl, CHR ''f'']
      else if n = 13 then [bsl, CHR ''r''] else if c = dq then [bsl, dq]
      else if c = bsl then [bsl, bsl]
      else if n < 32 then [bsl, CHR ''u'', CHR ''0'', CHR ''0'', hex_digit (n div 16), hex_digit (n mod 16)]
      else [c])"

definition json_escape :: "string \<Rightarrow> string" where
  "json_escape s = concat (map json_escape_char s)"

definition json_quote :: "string \<Rightarrow> string" where
  "json_quote s = dq # json_escape s @ [dq]"

fun json_of :: "jval \<Rightarrow> string"
and json_elems :: "jval list \<Rightarrow> string"
and json_members :: "(string \<times> jval) list \<Rightarrow> string" where
  "json_of (JStr s) = json_quote s"
| "json_of (JBool b) = (if b then ''true'' else ''false'')"
| "json_of (JArr vs) = CHR ''['' # json_elems vs @ '']''"
| "json_of (JObj kvs) = CHR ''{'' # json_members kvs @ ''}''"
| "json_elems [] = []"
| "json_elems [v] = json_of v"
| "json_elems (v # w # vs) = json_of v @ CHR '','' # json_elems (w # vs)"
| "json_members [] = []"
| "json_members [(k, v)] = json_quote k @ CHR '':'' # json_of v"
| "json_members ((k, v) # kw # kvs) = json_quote k @ CHR '':'' # json_of v @ CHR '','' # json_members (kw # kvs)"

section \<open>Parsing: JSON.parse\<close>

definition json_ws :: "char \<Rightarrow> bool" where
  "json_ws c \<longleftrightarrow> c \<in> {CHR 0x20, CHR 0x09, CHR 0x0A, CHR 0x0D}"

definition skip_ws :: "string \<Rightarrow> string" where
  "skip_ws s = dropWhile json_ws s"

definition hex_val :: "char \<Rightarrow> nat option" where
  "hex_val c = digit_val 16 c"

text \<open>The UTF-8 bytes of a UTF-16 code unit (a surrogate half is encoded on its own).\<close>

definition utf8_of_unit :: "nat \<Rightarrow> string" where
  "utf8_of_unit n =
     (if n < 128 then [char_of n]
      else if n < 2048 then [char_of (192 + n div 64), char_of (128 + n mod 64)]
      else [char_of (224 + n div 4096), char_of (128 + (n div 64) mod 64), char_of (128 + n mod 64)])"

definition simple_unescape :: "char \<Rightarrow> char option" where
  "simple_unescape e =
     (if e = dq then Some dq else if e = bsl then Some bsl else if e = CHR ''/'' then Some (CHR ''/'')
      else if e = CHR ''b'' then Some (CHR 0x08) else if e = CHR ''f'' then Some (CHR 0x0C)
      else if e = CHR ''n'' then Some (CHR 0x0A) else if e = CHR ''r'' then Some (CHR 0x0D)
      else if e = CHR ''t'' then Some (CHR 0x09) else None)"

text \<open>The characters of a string literal after its opening quote, up to the closing quote:
  the decoded string and the text after the quote; \<open>None\<close> is a \<open>SyntaxError\<close> (an
  unterminated string, a raw control character, a bad escape).\<close>

fun parse_str_body :: "string \<Rightarrow> (string \<times> string) option" where
  "parse_str_body [] = None"
| "parse_str_body (c # cs) =
     (if c = dq then Some ([], cs)
      else if c = bsl then
        (case cs of
           [] \<Rightarrow> None
         | e # cs' \<Rightarrow>
             (case simple_unescape e of
                Some x \<Rightarrow> map_option (\<lambda>(s, r). (x # s, r)) (parse_str_body cs')
              | None \<Rightarrow>
                  if e = CHR ''u'' then
                    (case cs' of
                       h1 # h2 # h3 # h4 # cs'' \<Rightarrow>
                         (case (hex_val h1, hex_val h2, hex_val h3, hex_val h4) of
                            (Some a, Some b, Some c, Some d) \<Rightarrow>
                              map_option (\<lambda>(s, r). (utf8_of_unit (((a * 16 + b) * 16 + c) * 16 + d) @ s, r))
                                (parse_str_body cs'')
                          | _ \<Rightarrow> None)
                     | _ \<Rightarrow> None)
                  else None))
      else if of_char c < (32 :: nat) then None
      else map_option (\<lambda>(s, r). (c # s, r)) (parse_str_body cs))"

text \<open>The object \<open>JSON.parse\<close> builds from its members: each member is assigned in
  turn, so a repeated key keeps its first position and its last value.\<close>

definition obj_of_pairs :: "(string \<times> 'v) list \<Rightarrow> (string \<times> 'v) list" where
  "obj_of_pairs kvs = fold (\<lambda>(k, v). obj_set k v) kvs []"

text \<open>A nonempty text whose first character is \<open>c\<close>.\<close>

definition starts_with :: "char \<Rightarrow> string \<Rightarrow> bool" where
  "starts_with c s \<longleftrightarrow> s \<noteq> [] \<and> hd s = c"

fun parse_value :: "nat \<Rightarrow> string \<Rightarrow> (jval \<times> string) option"
and parse_elems :: "nat \<Rightarrow> string \<Rightarrow> (jval list \<times> string) option"
and parse_members :: "nat \<Rightarrow> string \<Rightarrow> ((string \<times> jval) list \<times> string) option" where
  "parse_value 0 s = None"
| "parse_value (Suc n) s =
     (let t = skip_ws s in
      if t = [] then None
      else if hd t = dq then map_option (\<lambda>(x, r). (JStr x, r)) (parse_str_body (tl t))
      else if hd t = CHR ''['' then
        (if starts_with CHR '']'' (skip_ws (tl t)) then Some (JArr [], tl (skip_ws (tl t)))
         else map_option (\<lambda>(vs, r). (JArr vs, r)) (parse_elems n (tl t)))
      else if hd t = CHR ''{'' then
        (if starts_with CHR ''}'' (skip_ws (tl t)) then Some (JObj [], tl (skip_ws (tl t)))
         else map_option (\<lambda>(kvs, r). (JObj (obj_of_pairs kvs), r)) (parse_members n (tl t)))
      else if take 4 t = ''true'' then Some (JBool True, drop 4 t)
      else if take 5 t = ''false'' then Some (JBool False, drop 5 t)
      else None)"
| "parse_elems 0 s = None"
| "parse_elems (Suc n) s =
     (case parse_value n s of
        None \<Rightarrow> None
      | Some (v, r) \<Rightarrow>
          (let t = skip_ws r in
           if starts_with CHR '','' t then map_option (\<lambda>(vs, r'). (v # vs, r')) (parse_elems n (tl t))
           else if starts_with CHR '']'' t then Some ([v], tl t)
           else None))"
| "parse_members 0 s = None"
| "parse_members (Suc n) s =
     (let t = skip_ws s in
      if \<not> starts_with dq t then None
      else
        (case parse_str_body (tl t) of
           None \<Rightarrow> None
         | Some (k, r) \<Rightarrow>
             (let t1 = skip_ws r in
              if \<not> starts_with CHR '':'' t1 then None
              else
                (case parse_value n (tl t1) of
                   None \<Rightarrow> None
                 | Some (v, r') \<Rightarrow>
                     (let t2 = skip_ws r' in
                      if starts_with CHR '','' t2 then
                        map_option (\<lambda>(kvs, r''). ((k, v) # kvs, r'')) (parse_members n (tl t2))
                      else if starts_with CHR ''}'' t2 then Some ([(k, v)], tl t2)
                      else None)))))"

text \<open>\<open>JSON.parse(text)\<close>: one value and nothing but whitespace after it;
  \<open>None\<close> is the \<open>SyntaxError\<close>.\<close>

definition json_parse :: "string \<Rightarrow> jval option" where
  "json_parse s =
     (case parse_value (Suc (length s)) s of
        Some (v, r) \<Rightarrow> if skip_ws r = [] then Some v else None
      | None \<Rightarrow> None)"

section \<open>The value JSON.parse builds\<close>

text \<open>\<open>JSON.parse\<close> builds each object member by member (\<open>obj_of_pairs\<close>), so
  printing and parsing back normalises every object: a repeated key keeps its first
  position and its last value (\<open>jnorm\<close>). A value whose objects have distinct keys
  (\<open>jwf\<close>, which every JavaScript object satisfies) is its own normal form.\<close>

fun jnorm :: "jval \<Rightarrow> jval"
and jnorm_elems :: "jval list \<Rightarrow> jval list"
and jnorm_members :: "(string \<times> jval) list \<Rightarrow> (string \<times> jval) list" where
  "jnorm (JStr s) = JStr s"
| "jnorm (JBool b) = JBool b"
| "jnorm (JArr vs) = JArr (jnorm_elems vs)"
| "jnorm (JObj kvs) = JObj (obj_of_pairs (jnorm_members kvs))"
| "jnorm_elems [] = []"
| "jnorm_elems (v # vs) = jnorm v # jnorm_elems vs"
| "jnorm_members [] = []"
| "jnorm_members ((k, v) # kvs) = (k, jnorm v) # jnorm_members kvs"

fun jwf :: "jval \<Rightarrow> bool"
and jwf_elems :: "jval list \<Rightarrow> bool"
and jwf_members :: "(string \<times> jval) list \<Rightarrow> bool" where
  "jwf (JStr s) = True"
| "jwf (JBool b) = True"
| "jwf (JArr vs) = jwf_elems vs"
| "jwf (JObj kvs) = (distinct (map fst kvs) \<and> jwf_members kvs)"
| "jwf_elems [] = True"
| "jwf_elems (v # vs) = (jwf v \<and> jwf_elems vs)"
| "jwf_members [] = True"
| "jwf_members ((k, v) # kvs) = (jwf v \<and> jwf_members kvs)"

section \<open>Strings that print as themselves, and maps over strings\<close>

text \<open>A character \<open>JSON.stringify\<close> copies unescaped (\<open>plain_char\<close>), the map of a
  function over every key and string of a value (\<open>jmap_str\<close>), and the values all of
  whose keys and strings are plain (\<open>jplain\<close>).\<close>

definition plain_char :: "char \<Rightarrow> bool" where
  "plain_char c \<longleftrightarrow> c \<noteq> dq \<and> c \<noteq> bsl \<and> 32 \<le> (of_char c :: nat)"

fun jmap_str :: "(string \<Rightarrow> string) \<Rightarrow> jval \<Rightarrow> jval"
and jmap_elems :: "(string \<Rightarrow> string) \<Rightarrow> jval list \<Rightarrow> jval list"
and jmap_members :: "(string \<Rightarrow> string) \<Rightarrow> (string \<times> jval) list \<Rightarrow> (string \<times> jval) list" where
  "jmap_str f (JStr s) = JStr (f s)"
| "jmap_str f (JBool b) = JBool b"
| "jmap_str f (JArr vs) = JArr (jmap_elems f vs)"
| "jmap_str f (JObj kvs) = JObj (jmap_members f kvs)"
| "jmap_elems f [] = []"
| "jmap_elems f (v # vs) = jmap_str f v # jmap_elems f vs"
| "jmap_members f [] = []"
| "jmap_members f ((k, v) # kvs) = (f k, jmap_str f v) # jmap_members f kvs"

fun jplain :: "jval \<Rightarrow> bool"
and jplain_elems :: "jval list \<Rightarrow> bool"
and jplain_members :: "(string \<times> jval) list \<Rightarrow> bool" where
  "jplain (JStr s) = list_all plain_char s"
| "jplain (JBool b) = True"
| "jplain (JArr vs) = jplain_elems vs"
| "jplain (JObj kvs) = jplain_members kvs"
| "jplain_elems [] = True"
| "jplain_elems (v # vs) = (jplain v \<and> jplain_elems vs)"
| "jplain_members [] = True"
| "jplain_members ((k, v) # kvs) = (list_all plain_char k \<and> jplain v \<and> jplain_members kvs)"

section \<open>Printing and parsing back\<close>

lemma char_eq_by_code: "(of_char c :: nat) = of_char d \<Longrightarrow> c = d"
  by (rule of_char_eqI)
lemma hex_val_hex_digit: "k < 16 \<Longrightarrow> hex_val (hex_digit k) = Some k"
  by (auto simp: hex_val_def hex_digit_def digit_val_def Let_def)

lemma parse_str_body_escape_char:
  "parse_str_body (json_escape_char c @ rest) = map_option (\<lambda>(s, r). (c # s, r)) (parse_str_body rest)"
proof -
  define n where "n = (of_char c :: nat)"
  have c: "c = char_of n" by (simp add: n_def)
  have n256: "n < 256" by (simp add: n_def)
  consider "n = 8" | "n = 9" | "n = 10" | "n = 12" | "n = 13" | "c = dq" | "c = bsl"
    | "n < 32" "n \<notin> {8, 9, 10, 12, 13}" | "32 \<le> n" "c \<noteq> dq" "c \<noteq> bsl" by fastforce
  then show ?thesis
  proof cases
    case 1
    then have "c = CHR 0x08" using char_eq_by_code [of c "CHR 0x08"] by (simp add: n_def)
    with 1 show ?thesis by (simp add: json_escape_char_def simple_unescape_def dq_def bsl_def n_def)
  next
    case 2
    then have "c = CHR 0x09" using char_eq_by_code [of c "CHR 0x09"] by (simp add: n_def)
    with 2 show ?thesis by (simp add: json_escape_char_def simple_unescape_def dq_def bsl_def n_def)
  next
    case 3
    then have "c = CHR 0x0A" using char_eq_by_code [of c "CHR 0x0A"] by (simp add: n_def)
    with 3 show ?thesis by (simp add: json_escape_char_def simple_unescape_def dq_def bsl_def n_def)
  next
    case 4
    then have "c = CHR 0x0C" using char_eq_by_code [of c "CHR 0x0C"] by (simp add: n_def)
    with 4 show ?thesis by (simp add: json_escape_char_def simple_unescape_def dq_def bsl_def n_def)
  next
    case 5
    then have "c = CHR 0x0D" using char_eq_by_code [of c "CHR 0x0D"] by (simp add: n_def)
    with 5 show ?thesis by (simp add: json_escape_char_def simple_unescape_def dq_def bsl_def n_def)
  next
    case 6 then show ?thesis by (simp add: json_escape_char_def simple_unescape_def dq_def bsl_def)
  next
    case 7 then show ?thesis by (simp add: json_escape_char_def simple_unescape_def dq_def bsl_def)
  next
    case 8
    have ne: "c \<noteq> dq" "c \<noteq> bsl" using 8 by (auto simp: n_def dq_def bsl_def)
    have u: "simple_unescape (CHR ''u'') = None" by (simp add: simple_unescape_def dq_def bsl_def)
    have h: "hex_val (hex_digit (n div 16)) = Some (n div 16)" "hex_val (hex_digit (n mod 16)) = Some (n mod 16)"
      using 8 by (simp_all add: hex_val_hex_digit)
    have z: "hex_val (CHR ''0'') = Some 0" by (simp add: hex_val_def digit_val_def)
    have "utf8_of_unit (((0 * 16 + 0) * 16 + n div 16) * 16 + n mod 16) = [c]"
      using 8 by (simp add: utf8_of_unit_def c)
    with 8 ne u h z show ?thesis
      by (simp add: json_escape_char_def n_def [symmetric] bsl_def dq_def)
  next
    case 9
    then show ?thesis by (simp add: json_escape_char_def n_def [symmetric] bsl_def dq_def)
  qed
qed

lemma parse_str_body_escape:
  "parse_str_body (json_escape s @ dq # r) = Some (s, r)"
  by (induction s) (simp_all add: json_escape_def parse_str_body_escape_char dq_def)

lemma json_of_first:
  "\<exists>c cs. json_of v = c # cs \<and> \<not> json_ws c \<and> c \<noteq> CHR '']'' \<and> c \<noteq> CHR ''}'' \<and> c \<noteq> CHR '',''"
  by (cases v) (auto simp: json_quote_def dq_def json_ws_def)

lemma skip_ws_json_of [simp]: "skip_ws (json_of v @ r) = json_of v @ r"
  using json_of_first [of v] by (auto simp: skip_ws_def)

lemma json_elems_first:
  "vs \<noteq> [] \<Longrightarrow> \<exists>c cs. json_elems vs @ r = c # cs \<and> \<not> json_ws c \<and> c \<noteq> CHR '']''"
  using json_of_first [of "hd vs"] by (cases vs rule: remdups_adj.cases) auto

lemma skip_ws_punct [simp]:
  "skip_ws (CHR '','' # r) = CHR '','' # r" "skip_ws (CHR '']'' # r) = CHR '']'' # r"
  "skip_ws (CHR ''}'' # r) = CHR ''}'' # r" "skip_ws (CHR '':'' # r) = CHR '':'' # r"
  "skip_ws (dq # r) = dq # r" "skip_ws (CHR ''['' # r) = CHR ''['' # r"
  "skip_ws (CHR ''{'' # r) = CHR ''{'' # r"
  by (simp_all add: skip_ws_def json_ws_def dq_def)

lemma json_members_Cons:
  "json_members ((k, v) # kvs) =
     json_quote k @ CHR '':'' # json_of v @ (if kvs = [] then [] else CHR '','' # json_members kvs)"
  by (cases kvs) auto

lemma json_elems_Cons:
  "json_elems (v # vs) = json_of v @ (if vs = [] then [] else CHR '','' # json_elems vs)"
  by (cases vs) auto

lemma parse_json_of:
  "(\<forall>v r. length (json_of v) < n \<longrightarrow> parse_value n (json_of v @ r) = Some (jnorm v, r)) \<and>
   (\<forall>vs r. vs \<noteq> [] \<longrightarrow> length (json_elems vs) + 1 < n \<longrightarrow>
       parse_elems n (json_elems vs @ CHR '']'' # r) = Some (jnorm_elems vs, r)) \<and>
   (\<forall>kvs r. kvs \<noteq> [] \<longrightarrow> length (json_members kvs) < n \<longrightarrow>
       parse_members n (json_members kvs @ CHR ''}'' # r) = Some (jnorm_members kvs, r))"
proof (induction n)
  case 0
  then show ?case by simp
next
  case (Suc n)
  have V: "parse_value (Suc n) (json_of v @ r) = Some (jnorm v, r)" if "length (json_of v) < Suc n" for v r
  proof (cases v)
    case (JStr s)
    then show ?thesis by (simp add: Let_def json_quote_def parse_str_body_escape)
  next
    case (JBool b)
    then show ?thesis by (simp add: Let_def dq_def skip_ws_def json_ws_def)
  next
    case (JArr vs)
    show ?thesis
    proof (cases "vs = []")
      case True
      with JArr show ?thesis by (simp add: Let_def dq_def starts_with_def)
    next
      case False
      have "length (json_elems vs) + 1 < n" using that JArr by simp
      then have pe: "parse_elems n (json_elems vs @ CHR '']'' # r) = Some (jnorm_elems vs, r)"
        using Suc.IH False by blast
      have sk: "skip_ws (json_elems vs @ CHR '']'' # r) = json_elems vs @ CHR '']'' # r"
        and ns: "\<not> starts_with CHR '']'' (json_elems vs @ CHR '']'' # r)"
        using json_elems_first [OF False, of "CHR '']'' # r"] by (auto simp: skip_ws_def starts_with_def)
      from JArr show ?thesis by (simp add: Let_def dq_def sk ns pe)
    qed
  next
    case (JObj kvs)
    show ?thesis
    proof (cases "kvs = []")
      case True
      with JObj show ?thesis by (simp add: Let_def dq_def starts_with_def obj_of_pairs_def)
    next
      case False
      then obtain k v' kvs' where kvs: "kvs = (k, v') # kvs'" by (cases kvs) auto
      have "length (json_members kvs) < n" using that JObj by simp
      then have pm: "parse_members n (json_members kvs @ CHR ''}'' # r) = Some (jnorm_members kvs, r)"
        using Suc.IH False by blast
      have sk: "skip_ws (json_members kvs @ CHR ''}'' # r) = json_members kvs @ CHR ''}'' # r"
        using kvs by (simp add: json_members_Cons json_quote_def)
      have ns: "\<not> starts_with CHR ''}'' (json_members kvs @ CHR ''}'' # r)"
        using kvs by (simp add: json_members_Cons json_quote_def starts_with_def dq_def)
      from JObj show ?thesis by (simp add: Let_def dq_def sk ns pm)
    qed
  qed
  have E: "parse_elems (Suc n) (json_elems vs @ CHR '']'' # r) = Some (jnorm_elems vs, r)"
    if ne: "vs \<noteq> []" and len: "length (json_elems vs) + 1 < Suc n" for vs r
  proof -
    obtain v vs' where vs: "vs = v # vs'" using ne by (cases vs) auto
    show ?thesis
    proof (cases "vs' = []")
      case True
      with vs len Suc.IH show ?thesis by (simp add: Let_def starts_with_def)
    next
      case False
      have "length (json_of v) < n" "length (json_elems vs') + 1 < n"
        using len vs False json_of_first [of v] by (auto simp: json_elems_Cons)
      with vs False Suc.IH show ?thesis
        by (simp add: Let_def json_elems_Cons starts_with_def)
    qed
  qed
  have M: "parse_members (Suc n) (json_members kvs @ CHR ''}'' # r) = Some (jnorm_members kvs, r)"
    if ne: "kvs \<noteq> []" and len: "length (json_members kvs) < Suc n" for kvs r
  proof -
    obtain k v kvs' where kvs: "kvs = (k, v) # kvs'" using ne by (cases kvs) auto
    have lv: "length (json_of v) < n" using len kvs by (simp add: Let_def json_members_Cons json_quote_def)
    show ?thesis
    proof (cases "kvs' = []")
      case True
      with kvs lv Suc.IH show ?thesis
        by (simp add: Let_def json_quote_def starts_with_def parse_str_body_escape)
    next
      case False
      have "length (json_members kvs') < n"
        using len kvs False by (simp add: Let_def json_members_Cons json_quote_def)
      with kvs lv False Suc.IH show ?thesis
        by (simp add: Let_def json_members_Cons json_quote_def starts_with_def parse_str_body_escape)
    qed
  qed
  from V E M show ?case by blast
qed

lemma json_parse_json_of: "json_parse (json_of v) = Some (jnorm v)"
proof -
  have "parse_value (Suc (length (json_of v))) (json_of v @ []) = Some (jnorm v, [])"
    using parse_json_of [of "Suc (length (json_of v))"] by blast
  then show ?thesis by (simp add: json_parse_def skip_ws_def)
qed

lemma map_fst_jnorm_members [simp]: "map fst (jnorm_members kvs) = map fst kvs"
proof (induction kvs)
  case Nil
  then show ?case by simp
next
  case (Cons kv kvs)
  then show ?case by (cases kv) simp
qed

lemma jnorm_wf:
  "jwf v \<Longrightarrow> jnorm v = v" and "jwf_elems vs \<Longrightarrow> jnorm_elems vs = vs"
  and "jwf_members kvs \<Longrightarrow> jnorm_members kvs = kvs"
  by (induction v and vs and kvs rule: jnorm_jnorm_elems_jnorm_members.induct)
     (simp_all add: obj_of_pairs_def fold_obj_set_fresh)

lemma json_escape_plain: "list_all plain_char s \<Longrightarrow> json_escape s = s"
  by (induction s) (auto simp: json_escape_def json_escape_char_def plain_char_def)

lemma jmap_members_Cons [simp]:
  "jmap_members f (kv # kvs) = (f (fst kv), jmap_str f (snd kv)) # jmap_members f kvs"
  by (cases kv) simp

section \<open>Properties of the JSON round trip\<close>

text \<open>\<open>JSON.parse(JSON.stringify(v))\<close> gives back \<open>v\<close> for every value whose
  objects have distinct keys, whatever its strings contain (quotes, backslashes and control
  characters are escaped and decoded back); the parser's fuel, the length of the text plus
  one, is always enough.\<close>

lemma json_roundtrip: "jwf v \<Longrightarrow> json_parse (json_of v) = Some v"
  using json_parse_json_of [of v] jnorm_wf(1) [of v] by simp

lemma json_roundtrip_witness:
  "json_parse (json_of (JObj [(''price'', JObj [(''gte'', JStr ''1\"0'')]), (''tags'', JArr [JStr [CHR 0x0A], JBool False])])) =
     Some (JObj [(''price'', JObj [(''gte'', JStr ''1\"0'')]), (''tags'', JArr [JStr [CHR 0x0A], JBool False])])"
  using json_roundtrip [of "JObj [(''price'', JObj [(''gte'', JStr ''1\"0'')]), (''tags'', JArr [JStr [CHR 0x0A], JBool False])]"]
  by simp

section \<open>Objects as JSON.parse builds them are well formed\<close>

lemma jwf_elems_iff: "jwf_elems vs \<longleftrightarrow> (\<forall>v\<in>set vs. jwf v)"
  by (induction vs) simp_all

lemma jwf_members_iff: "jwf_members kvs \<longleftrightarrow> (\<forall>(k, v)\<in>set kvs. jwf v)"
  by (induction kvs) auto

lemma obj_set_keys: "fst ` set (obj_set k v kvs) = insert k (fst ` set kvs)"
proof (induction kvs)
  case (Cons p kvs)
  then show ?case by (cases p) (simp add: insert_commute)
qed simp

lemma distinct_obj_set: "distinct (map fst kvs) \<Longrightarrow> distinct (map fst (obj_set k v kvs))"
proof (induction kvs)
  case (Cons p kvs)
  then show ?case by (cases p) (auto simp: obj_set_keys)
qed simp

lemma distinct_obj_of_pairs: "distinct (map fst (obj_of_pairs kvs))"
proof -
  have "distinct (map fst acc) \<Longrightarrow> distinct (map fst (fold (\<lambda>(k, v). obj_set k v) kvs acc))" for acc
    by (induction kvs arbitrary: acc) (auto simp: distinct_obj_set)
  then show ?thesis by (simp add: obj_of_pairs_def)
qed

lemma set_obj_set: "set (obj_set k v kvs) \<subseteq> insert (k, v) (set kvs)"
  by (induction kvs) (auto split: if_splits)

lemma set_obj_of_pairs: "set (obj_of_pairs kvs) \<subseteq> set kvs"
proof -
  have "set (fold (\<lambda>(k, v). obj_set k v) kvs acc) \<subseteq> set acc \<union> set kvs" for acc
  proof (induction kvs arbitrary: acc)
    case (Cons kv kvs)
    then show ?case using set_obj_set [of "fst kv" "snd kv" acc] by (cases kv) fastforce
  qed simp
  from this [of "[]"] show ?thesis by (simp add: obj_of_pairs_def)
qed

lemma jnorm_jwf: "jwf (jnorm v)" "jwf_elems (jnorm_elems vs)" "jwf_members (jnorm_members kvs)"
  by (induction v and vs and kvs rule: jnorm_jnorm_elems_jnorm_members.induct)
     (auto simp: distinct_obj_of_pairs jwf_members_iff dest!: set_obj_of_pairs [THEN subsetD])

section \<open>The parser's fuel\<close>

text \<open>Every successful parse consumes input, and a parse consuming \<open>c\<close> characters needs
  at most \<open>c\<close> units of fuel (\<open>parse_fuel\<close>, by induction on the fuel with one step
  lemma per function).\<close>

lemma length_skip_ws: "length (skip_ws s) \<le> length s"
  by (simp add: skip_ws_def length_dropWhile_le)

lemma map_option_pair_Some: "map_option (\<lambda>(s, r). (g s, r)) p = Some (x, r) \<Longrightarrow> \<exists>y. p = Some (y, r)"
  by (cases p) auto

lemma parse_str_body_length: "parse_str_body s = Some (x, r) \<Longrightarrow> length r < length s"
proof (induction s arbitrary: x r rule: length_induct)
  case (1 s)
  show ?case
  proof (cases s)
    case Nil
    with "1.prems" show ?thesis by simp
  next
    case (Cons c cs)
    note eq = "1.prems" [unfolded Cons parse_str_body.simps(2)]
    have ih: "length r < length (c # cs)" if "parse_str_body ys = Some (y, r)" "length ys < length (c # cs)" for ys y
      using "1.IH" that Cons by fastforce
    consider "c = dq" | "c \<noteq> dq" "c = bsl" | "c \<noteq> dq" "c \<noteq> bsl" by blast
    then show ?thesis
    proof cases
      case 1
      with eq Cons show ?thesis by simp
    next
      case 3
      with eq obtain y where "parse_str_body cs = Some (y, r)"
        by (auto split: if_split_asm dest: map_option_pair_Some)
      with ih Cons show ?thesis by simp
    next
      case 2
      then obtain e cs' where cs: "cs = e # cs'" using eq by (cases cs) auto
      show ?thesis
      proof (cases "simple_unescape e")
        case (Some z)
        with eq 2 cs obtain y where "parse_str_body cs' = Some (y, r)"
          by (auto dest: map_option_pair_Some)
        with ih Cons cs show ?thesis by simp
      next
        case None
        with eq 2 cs obtain h1 h2 h3 h4 cs'' where c4: "cs' = h1 # h2 # h3 # h4 # cs''"
          by (auto split: if_split_asm list.split_asm)
        with eq 2 cs None obtain y where "parse_str_body cs'' = Some (y, r)"
          by (auto split: if_split_asm option.split_asm dest: map_option_pair_Some)
        with ih Cons cs c4 show ?thesis by simp
      qed
    qed
  qed
qed

lemma length_tl_skip_ws: "skip_ws s \<noteq> [] \<Longrightarrow> length (tl (skip_ws s)) < length s"
  using length_skip_ws [of s] by (cases "skip_ws s") auto

lemma parse_value_fuel_step:
  assumes IHe: "\<forall>s vs r m. parse_elems n s = Some (vs, r) \<longrightarrow>
      length r < length s \<and> (length s - length r \<le> m \<longrightarrow> parse_elems m s = Some (vs, r))"
    and IHm: "\<forall>s kvs r m. parse_members n s = Some (kvs, r) \<longrightarrow>
      length r < length s \<and> (length s - length r \<le> m \<longrightarrow> parse_members m s = Some (kvs, r))"
    and p: "parse_value (Suc n) s = Some (v, r)"
  shows "length r < length s \<and> (length s - length r \<le> m \<longrightarrow> parse_value m s = Some (v, r))"
proof -
  define t where "t = skip_ws s"
  have pv: "parse_value (Suc k) s =
     (if t = [] then None
      else if hd t = dq then map_option (\<lambda>(x, r). (JStr x, r)) (parse_str_body (tl t))
      else if hd t = CHR ''['' then
        (if starts_with CHR '']'' (skip_ws (tl t)) then Some (JArr [], tl (skip_ws (tl t)))
         else map_option (\<lambda>(vs, r). (JArr vs, r)) (parse_elems k (tl t)))
      else if hd t = CHR ''{'' then
        (if starts_with CHR ''}'' (skip_ws (tl t)) then Some (JObj [], tl (skip_ws (tl t)))
         else map_option (\<lambda>(kvs, r). (JObj (obj_of_pairs kvs), r)) (parse_members k (tl t)))
      else if take 4 t = ''true'' then Some (JBool True, drop 4 t)
      else if take 5 t = ''false'' then Some (JBool False, drop 5 t)
      else None)" for k
    by (simp only: parse_value.simps Let_def t_def)
  note p' = p [unfolded pv]
  have t: "t \<noteq> []" using p' by (auto split: if_split_asm)
  have lt: "length (tl t) < length s" using length_tl_skip_ws [of s] t by (simp add: t_def)
  have lt2: "length (tl (skip_ws (tl t))) < length s"
    using lt length_tl_skip_ws [of "tl t"] length_skip_ws [of "tl t"] by (cases "skip_ws (tl t)") auto
  have ltt: "length t \<le> length s" using length_skip_ws [of s] by (simp add: t_def)
  show ?thesis
  proof (cases "hd t = dq")
    case True
    with p' t obtain x where x: "parse_str_body (tl t) = Some (x, r)" "v = JStr x" by auto
    have sh: "length r < length s" using parse_str_body_length [OF x(1)] lt by simp
    then show ?thesis using t True x by (cases m) (auto simp del: parse_value.simps simp add: pv)
  next
    case nd: False
    show ?thesis
    proof (cases "hd t = CHR ''[''")
      case ob: True
      show ?thesis
      proof (cases "starts_with CHR '']'' (skip_ws (tl t))")
        case True
        with p' t nd ob have r: "r = tl (skip_ws (tl t))" by auto
        then show ?thesis using lt2 t nd ob True p' by (cases m) (auto simp del: parse_value.simps simp add: pv)
      next
        case False
        with p' t nd ob obtain vs where e: "parse_elems n (tl t) = Some (vs, r)" "v = JArr vs" by auto
        note ih = IHe [rule_format, OF e(1)]
        have sh: "length r < length (tl t)" by (rule conjunct1 [OF ih])
        have fu: "parse_elems k (tl t) = Some (vs, r)" if "length (tl t) - length r \<le> k" for k
          by (rule mp [OF conjunct2 [OF ih] that])
        show ?thesis
        proof (intro conjI impI)
          show "length r < length s" using sh lt by simp
          assume "length s - length r \<le> m"
          then obtain k where "m = Suc k" "length (tl t) - length r \<le> k" using sh lt by (cases m) auto
          then show "parse_value m s = Some (v, r)" using fu t nd ob False e(2) by (simp del: parse_value.simps add: pv)
        qed
      qed
    next
      case nb: False
      show ?thesis
      proof (cases "hd t = CHR ''{''")
        case ob: True
        show ?thesis
        proof (cases "starts_with CHR ''}'' (skip_ws (tl t))")
          case True
          with p' t nd nb ob have r: "r = tl (skip_ws (tl t))" by auto
          then show ?thesis using lt2 t nd nb ob True p' by (cases m) (auto simp del: parse_value.simps simp add: pv)
        next
          case False
          with p' t nd nb ob obtain kvs where e: "parse_members n (tl t) = Some (kvs, r)"
            "v = JObj (obj_of_pairs kvs)" by auto
          note ih = IHm [rule_format, OF e(1)]
          have sh: "length r < length (tl t)" by (rule conjunct1 [OF ih])
          have fu: "parse_members k (tl t) = Some (kvs, r)" if "length (tl t) - length r \<le> k" for k
            by (rule mp [OF conjunct2 [OF ih] that])
          show ?thesis
          proof (intro conjI impI)
            show "length r < length s" using sh lt by simp
            assume "length s - length r \<le> m"
            then obtain k where "m = Suc k" "length (tl t) - length r \<le> k" using sh lt by (cases m) auto
            then show "parse_value m s = Some (v, r)" using fu t nd nb ob False e(2) by (simp del: parse_value.simps add: pv)
          qed
        qed
      next
        case False
        with p' t nd nb have "r = drop 4 t \<or> r = drop 5 t" by (auto split: if_split_asm)
        then have sh: "length r < length s" using ltt t by (cases t) auto
        then show ?thesis using p' t nd nb False by (cases m) (auto simp del: parse_value.simps simp add: pv)
      qed
    qed
  qed
qed

lemma parse_elems_fuel_step:
  assumes IHv: "\<forall>s v r m. parse_value n s = Some (v, r) \<longrightarrow>
      length r < length s \<and> (length s - length r \<le> m \<longrightarrow> parse_value m s = Some (v, r))"
    and IHe: "\<forall>s vs r m. parse_elems n s = Some (vs, r) \<longrightarrow>
      length r < length s \<and> (length s - length r \<le> m \<longrightarrow> parse_elems m s = Some (vs, r))"
    and p: "parse_elems (Suc n) s = Some (vs, r)"
  shows "length r < length s \<and> (length s - length r \<le> m \<longrightarrow> parse_elems m s = Some (vs, r))"
proof -
  have pe: "parse_elems (Suc k) s =
     (case parse_value k s of
        None \<Rightarrow> None
      | Some (v, r) \<Rightarrow>
          (if starts_with CHR '','' (skip_ws r) then map_option (\<lambda>(vs, r'). (v # vs, r')) (parse_elems k (tl (skip_ws r)))
           else if starts_with CHR '']'' (skip_ws r) then Some ([v], tl (skip_ws r))
           else None))" for k
    by (simp only: parse_elems.simps Let_def)
  note p' = p [unfolded pe]
  obtain v r0 where v: "parse_value n s = Some (v, r0)"
    using p' by (auto split: option.split_asm)
  note ihv = IHv [rule_format, OF v]
  have sv: "length r0 < length s" by (rule conjunct1 [OF ihv])
  have fv: "parse_value k s = Some (v, r0)" if "length s - length r0 \<le> k" for k
    by (rule mp [OF conjunct2 [OF ihv] that])
  define t where "t = skip_ws r0"
  have tl_t: "length (tl t) < length s" if "starts_with c t" for c
    using that sv length_tl_skip_ws [of r0] by (simp add: t_def starts_with_def)
  note p'' = p' [unfolded v option.case prod.case, folded t_def]
  show ?thesis
  proof (cases "starts_with CHR '','' t")
    case True
    with p'' obtain vs' where e: "parse_elems n (tl t) = Some (vs', r)" "vs = v # vs'"
      by (auto dest: map_option_pair_Some)
    note ihe = IHe [rule_format, OF e(1)]
    have se: "length r < length (tl t)" by (rule conjunct1 [OF ihe])
    have fe: "parse_elems k (tl t) = Some (vs', r)" if "length (tl t) - length r \<le> k" for k
      by (rule mp [OF conjunct2 [OF ihe] that])
    show ?thesis
    proof (intro conjI impI)
      show "length r < length s" using se tl_t [OF True] by simp
      assume "length s - length r \<le> m"
      then obtain k where "m = Suc k" "length s - length r0 \<le> k" "length (tl t) - length r \<le> k"
        using se tl_t [OF True] sv length_tl_skip_ws [of r0] True
        by (cases m) (auto simp: t_def starts_with_def)
      then show "parse_elems m s = Some (vs, r)"
        using fv fe True e(2) by (simp del: parse_value.simps parse_elems.simps add: pe t_def [symmetric])
    qed
  next
    case nc: False
    with p'' have cl: "starts_with CHR '']'' t" and r: "r = tl t" "vs = [v]"
      by (auto split: if_split_asm)
    show ?thesis
    proof (intro conjI impI)
      show "length r < length s" using tl_t [OF cl] r by simp
      assume "length s - length r \<le> m"
      then obtain k where "m = Suc k" "length s - length r0 \<le> k"
        using r sv length_tl_skip_ws [of r0] cl by (cases m) (auto simp: t_def starts_with_def)
      then show "parse_elems m s = Some (vs, r)"
        using fv nc cl r by (simp del: parse_value.simps parse_elems.simps add: pe t_def [symmetric])
    qed
  qed
qed

lemma parse_members_fuel_step:
  assumes IHv: "\<forall>s v r m. parse_value n s = Some (v, r) \<longrightarrow>
      length r < length s \<and> (length s - length r \<le> m \<longrightarrow> parse_value m s = Some (v, r))"
    and IHm: "\<forall>s kvs r m. parse_members n s = Some (kvs, r) \<longrightarrow>
      length r < length s \<and> (length s - length r \<le> m \<longrightarrow> parse_members m s = Some (kvs, r))"
    and p: "parse_members (Suc n) s = Some (kvs, r)"
  shows "length r < length s \<and> (length s - length r \<le> m \<longrightarrow> parse_members m s = Some (kvs, r))"
proof -
  define t where "t = skip_ws s"
  have pm: "parse_members (Suc j) s =
     (if \<not> starts_with dq t then None
      else
        (case parse_str_body (tl t) of
           None \<Rightarrow> None
         | Some (k, r) \<Rightarrow>
             (if \<not> starts_with CHR '':'' (skip_ws r) then None
              else
                (case parse_value j (tl (skip_ws r)) of
                   None \<Rightarrow> None
                 | Some (v, r') \<Rightarrow>
                     (if starts_with CHR '','' (skip_ws r') then
                        map_option (\<lambda>(kvs, r''). ((k, v) # kvs, r'')) (parse_members j (tl (skip_ws r')))
                      else if starts_with CHR ''}'' (skip_ws r') then Some ([(k, v)], tl (skip_ws r'))
                      else None)))))" for j
    by (simp only: parse_members.simps Let_def t_def)
  note p' = p [unfolded pm]
  have q: "starts_with dq t" using p' by (auto split: if_split_asm)
  obtain k r1 where k: "parse_str_body (tl t) = Some (k, r1)"
    using p' q by (auto split: option.split_asm)
  have s1: "length r1 < length s"
    using parse_str_body_length [OF k] length_tl_skip_ws [of s] q by (simp add: t_def starts_with_def)
  define t1 where "t1 = skip_ws r1"
  have c: "starts_with CHR '':'' t1" using p' q k by (auto simp: t1_def split: if_split_asm)
  have s2: "length (tl t1) < length s"
    using s1 length_tl_skip_ws [of r1] c by (simp add: t1_def starts_with_def)
  obtain v r2 where v: "parse_value n (tl t1) = Some (v, r2)"
    using p' q k c by (auto simp: t1_def [symmetric] split: option.split_asm)
  note ihv = IHv [rule_format, OF v]
  have sv: "length r2 < length (tl t1)" by (rule conjunct1 [OF ihv])
  have fv: "parse_value j (tl t1) = Some (v, r2)" if "length (tl t1) - length r2 \<le> j" for j
    by (rule mp [OF conjunct2 [OF ihv] that])
  define t2 where "t2 = skip_ws r2"
  note p'' = p' [unfolded k v option.case prod.case, folded t1_def, unfolded v option.case prod.case, folded t2_def]
  have tl2r: "length (tl t2) < length r2" if "starts_with ch t2" for ch
    using that length_tl_skip_ws [of r2] by (simp add: t2_def starts_with_def)
  have tl2: "length (tl t2) < length (tl t1)" if "starts_with ch t2" for ch
    using tl2r [OF that] sv by simp
  show ?thesis
  proof (cases "starts_with CHR '','' t2")
    case True
    with p'' q c obtain kvs' where e: "parse_members n (tl t2) = Some (kvs', r)" "kvs = (k, v) # kvs'"
      by (auto dest: map_option_pair_Some)
    note ihm = IHm [rule_format, OF e(1)]
    have se: "length r < length (tl t2)" by (rule conjunct1 [OF ihm])
    have fe: "parse_members j (tl t2) = Some (kvs', r)" if "length (tl t2) - length r \<le> j" for j
      by (rule mp [OF conjunct2 [OF ihm] that])
    show ?thesis
    proof (intro conjI impI)
      show "length r < length s" using se tl2 [OF True] s2 by simp
      assume "length s - length r \<le> m"
      then obtain j where "m = Suc j" "length (tl t1) - length r2 \<le> j" "length (tl t2) - length r \<le> j"
        using se tl2r [OF True] s2 sv by (cases m) auto
      then show "parse_members m s = Some (kvs, r)"
        using fv fe True q k c e(2)
        by (simp del: parse_value.simps parse_members.simps add: pm t1_def [symmetric] t2_def [symmetric])
    qed
  next
    case nc: False
    with p'' q c have cl: "starts_with CHR ''}'' t2" and r: "r = tl t2" "kvs = [(k, v)]"
      by (auto split: if_split_asm)
    show ?thesis
    proof (intro conjI impI)
      show "length r < length s" using tl2 [OF cl] r s2 by simp
      assume "length s - length r \<le> m"
      then obtain j where "m = Suc j" "length (tl t1) - length r2 \<le> j"
        using r tl2r [OF cl] s2 sv by (cases m) auto
      then show "parse_members m s = Some (kvs, r)"
        using fv nc cl r q k c
        by (simp del: parse_value.simps parse_members.simps add: pm t1_def [symmetric] t2_def [symmetric])
    qed
  qed
qed

lemma parse_fuel:
  "(\<forall>s v r m. parse_value n s = Some (v, r) \<longrightarrow>
      length r < length s \<and> (length s - length r \<le> m \<longrightarrow> parse_value m s = Some (v, r)))
 \<and> (\<forall>s vs r m. parse_elems n s = Some (vs, r) \<longrightarrow>
      length r < length s \<and> (length s - length r \<le> m \<longrightarrow> parse_elems m s = Some (vs, r)))
 \<and> (\<forall>s kvs r m. parse_members n s = Some (kvs, r) \<longrightarrow>
      length r < length s \<and> (length s - length r \<le> m \<longrightarrow> parse_members m s = Some (kvs, r)))"
proof (induction n)
  case (Suc n)
  note IHv = conjunct1 [OF Suc]
  note IHe = conjunct1 [OF conjunct2 [OF Suc]]
  note IHm = conjunct2 [OF conjunct2 [OF Suc]]
  show ?case
  proof (intro conjI)
    show "\<forall>s v r m. parse_value (Suc n) s = Some (v, r) \<longrightarrow>
      length r < length s \<and> (length s - length r \<le> m \<longrightarrow> parse_value m s = Some (v, r))"
      using parse_value_fuel_step [OF IHe IHm] by blast
    show "\<forall>s vs r m. parse_elems (Suc n) s = Some (vs, r) \<longrightarrow>
      length r < length s \<and> (length s - length r \<le> m \<longrightarrow> parse_elems m s = Some (vs, r))"
      using parse_elems_fuel_step [OF IHv IHe] by blast
    show "\<forall>s kvs r m. parse_members (Suc n) s = Some (kvs, r) \<longrightarrow>
      length r < length s \<and> (length s - length r \<le> m \<longrightarrow> parse_members m s = Some (kvs, r))"
      using parse_members_fuel_step [OF IHv IHm] by blast
  qed
qed simp

text \<open>The parser's fuel never decides the outcome: whatever fuel parses a text, the
  fuel \<open>JSON.parse\<close> gives it (one more than the length of the text) parses it to the same
  value and remainder, so running out of fuel is never the reason for a syntax error.\<close>

theorem json_parse_fuel_enough:
  "parse_value n s = Some (v, r) \<Longrightarrow> parse_value (Suc (length s)) s = Some (v, r)"
proof -
  assume p: "parse_value n s = Some (v, r)"
  note h = conjunct1 [OF parse_fuel, rule_format, OF p]
  show ?thesis by (rule mp [OF conjunct2 [OF h]]) simp
qed

theorem json_parse_fuel_enough_witness:
  "parse_value 3 ''[true]'' = Some (JArr [JBool True], []) \<and>
   parse_value (Suc (length ''[true]'')) ''[true]'' = Some (JArr [JBool True], [])"
proof -
  have p: "parse_value 3 ''[true]'' = Some (JArr [JBool True], [])"
    by (simp add: skip_ws_def json_ws_def dq_def starts_with_def numeral_3_eq_3)
  show ?thesis using json_parse_fuel_enough [OF p] p by simp
qed

end
