(* ===== verification/Api_Features.thy ===== *)
theory Api_Features
  imports Json
begin

text \<open>
  The query pipeline of \<open>src/utils/apiFeatures.js\<close>: the class \<open>APIFeatures\<close> holds a
  Mongoose query and the request's query object and refines the query in four stages,
  \<open>filter\<close>, \<open>sort\<close>, \<open>limitFields\<close> and \<open>paginate\<close>. The query is modelled by the
  parts the stages set (the record \<open>mquery\<close>, with the library's \<open>find\<close>, \<open>sort\<close>,
  \<open>select\<close>, \<open>skip\<close> and \<open>limit\<close>); each stage is a function on the pair, failing
  where the JavaScript throws.
\<close>

section \<open>The query descriptor\<close>

text \<open>The conditions object, the parsed sort and projection specifications (field and
  direction, 1 or -1; field and inclusion, 1 or 0), and the skip and limit values.\<close>

record mquery =
  conditions :: "(string \<times> jval) list"
  sort_spec :: "(string \<times> int) list"
  select_spec :: "(string \<times> int) list"
  skip_val :: "jsnum option"
  limit_val :: "jsnum option"

definition empty_query :: mquery where
  "empty_query = \<lparr>conditions = [], sort_spec = [], select_spec = [], skip_val = None, limit_val = None\<rparr>"

text \<open>
  \<open>Query.prototype.find(obj)\<close> merges \<open>obj\<close> into the conditions (Mongoose's
  \<open>utils.merge\<close> with \<open>overwrite\<close>): a new key is added; an object value is merged
  recursively into the existing value (replacing it by \<open>{}\<close> first when that is not an
  object); any other value overwrites.
\<close>

fun obj_merge :: "(string \<times> jval) list \<Rightarrow> (string \<times> jval) list \<Rightarrow> (string \<times> jval) list"
and merge_val :: "jval option \<Rightarrow> jval \<Rightarrow> jval" where
  "obj_merge to [] = to"
| "obj_merge to ((k, v) # kvs) = obj_merge (obj_set k (merge_val (map_of to k) v) to) kvs"
| "merge_val None v = v"
| "merge_val (Some (JObj old)) (JObj f) = JObj (obj_merge old f)"
| "merge_val (Some (JStr _)) (JObj f) = JObj (obj_merge [] f)"
| "merge_val (Some (JBool _)) (JObj f) = JObj (obj_merge [] f)"
| "merge_val (Some (JArr _)) (JObj f) = JObj (obj_merge [] f)"
| "merge_val (Some _) (JStr s) = JStr s"
| "merge_val (Some _) (JBool b) = JBool b"
| "merge_val (Some _) (JArr vs) = JArr vs"

definition mq_find :: "(string \<times> jval) list \<Rightarrow> mquery \<Rightarrow> mquery" where
  "mq_find obj q = q\<lparr>conditions := obj_merge (conditions q) obj\<rparr>"

text \<open>
  \<open>sort(str)\<close> and \<open>select(str)\<close> with a string argument: the string is split at runs
  of whitespace, empty pieces are skipped, and a leading \<open>-\<close> makes a field descending
  (sort) or excluded (select).
\<close>

fun split_on :: "(char \<Rightarrow> bool) \<Rightarrow> string \<Rightarrow> string list" where
  "split_on P [] = [[]]"
| "split_on P (x # xs) =
     (if P x then [] # split_on P xs
      else (case split_on P xs of p # ps \<Rightarrow> (x # p) # ps | [] \<Rightarrow> [[x]]))"

definition words :: "string \<Rightarrow> string list" where
  "words s = filter (\<lambda>w. w \<noteq> []) (split_on js_space s)"

definition signed_field :: "int \<Rightarrow> int \<Rightarrow> string \<Rightarrow> string \<times> int" where
  "signed_field pos neg f = (if f \<noteq> [] \<and> hd f = CHR ''-'' then (tl f, neg) else (f, pos))"

definition mq_sort :: "string \<Rightarrow> mquery \<Rightarrow> mquery" where
  "mq_sort str q =
     q\<lparr>sort_spec := fold (\<lambda>f. case signed_field 1 (-1) f of (g, d) \<Rightarrow> obj_set g d) (words str) (sort_spec q)\<rparr>"

definition mq_select :: "string \<Rightarrow> mquery \<Rightarrow> mquery" where
  "mq_select str q =
     q\<lparr>select_spec := fold (\<lambda>f. case signed_field 1 0 f of (g, d) \<Rightarrow> obj_set g d) (words str) (select_spec q)\<rparr>"

definition mq_skip :: "jsnum \<Rightarrow> mquery \<Rightarrow> mquery" where
  "mq_skip n q = q\<lparr>skip_val := Some n\<rparr>"

definition mq_limit :: "jsnum \<Rightarrow> mquery \<Rightarrow> mquery" where
  "mq_limit n q = q\<lparr>limit_val := Some n\<rparr>"

section \<open>The operator rewrite\<close>

text \<open>
  \<open>queryStr.replace(/\b(gte|gt|lte|lt)\b/g, (match) => `$${match}`)\<close>. A word
  character is \<open>[A-Za-z0-9_]\<close>; \<open>\b\<close> holds between a word character and a non-word
  character or an end of the text. The scan goes left to right; at each position the
  alternatives are tried in their order, and after a match the scan resumes behind it.
  The flag of \<open>rewrite_ops\<close> says whether the character before the position is a word
  character.
\<close>

definition is_word_char :: "char \<Rightarrow> bool" where
  "is_word_char c \<longleftrightarrow>
     (let n = of_char c :: nat in
      (48 \<le> n \<and> n \<le> 57) \<or> (65 \<le> n \<and> n \<le> 90) \<or> (97 \<le> n \<and> n \<le> 122) \<or> n = 95)"

fun word_at :: "string \<Rightarrow> bool" where
  "word_at [] = False"
| "word_at (c # _) = is_word_char c"

definition op_alternatives :: "string list" where
  "op_alternatives = [''gte'', ''gt'', ''lte'', ''lt'']"

definition match_op :: "string \<Rightarrow> string option" where
  "match_op s = find (\<lambda>op. take (length op) s = op \<and> \<not> word_at (drop (length op) s)) op_alternatives"

fun rewrite_ops :: "bool \<Rightarrow> string \<Rightarrow> string" where
  "rewrite_ops pw [] = []"
| "rewrite_ops pw (c # cs) =
     (case (if pw then None else match_op (c # cs)) of
        Some op \<Rightarrow> CHR ''$'' # op @ rewrite_ops True (drop (length op - 1) cs)
      | None \<Rightarrow> c # rewrite_ops (is_word_char c) cs)"

section \<open>APIFeatures\<close>

record api_features =
  af_query :: mquery
  af_queryString :: "(string \<times> jval) list"

definition excludedFields :: "string list" where
  "excludedFields = [''page'', ''sort'', ''limit'', ''fields'']"

text \<open>\<open>filter()\<close>: copy the query object, delete the control keys, print it, rewrite
  the comparison operators into MongoDB's \<open>$\<close>-operators, parse it back and merge it
  into the query's conditions.\<close>

definition af_filter :: "api_features \<Rightarrow> error + api_features" where
  "af_filter af =
     (let queryObj = fold obj_delete excludedFields (af_queryString af);
          queryStr = rewrite_ops False (json_of (JObj queryObj))
      in case json_parse queryStr of
           None \<Rightarrow> Inl (SyntaxError ''Unexpected token in JSON'')
         | Some (JObj obj) \<Rightarrow> Inr (af\<lparr>af_query := mq_find obj (af_query af)\<rparr>)
         | Some _ \<Rightarrow> Inr af)"

text \<open>\<open>sort()\<close>: a truthy \<open>sort\<close> parameter must be a string (\<open>split\<close> is called on
  it); its commas become spaces. Without one, newest first, then by name.\<close>

definition af_sort :: "api_features \<Rightarrow> error + api_features" where
  "af_sort af =
     (let v = map_of (af_queryString af) ''sort'' in
      if js_truthy v then
        (case v of
           Some (JStr s) \<Rightarrow> Inr (af\<lparr>af_query := mq_sort (js_join '' '' (js_split CHR '','' s)) (af_query af)\<rparr>)
         | _ \<Rightarrow> Inl (TypeError ''this.queryString.sort.split is not a function''))
      else Inr (af\<lparr>af_query := mq_sort ''-createdAt name'' (af_query af)\<rparr>))"

text \<open>\<open>limitFields()\<close>: the same for \<open>fields\<close> and \<open>select\<close>; without it, the
  version key \<open>__v\<close> is excluded.\<close>

definition af_limitFields :: "api_features \<Rightarrow> error + api_features" where
  "af_limitFields af =
     (let v = map_of (af_queryString af) ''fields'' in
      if js_truthy v then
        (case v of
           Some (JStr s) \<Rightarrow> Inr (af\<lparr>af_query := mq_select (js_join '' '' (js_split CHR '','' s)) (af_query af)\<rparr>)
         | _ \<Rightarrow> Inl (TypeError ''this.queryString.fields.split is not a function''))
      else Inr (af\<lparr>af_query := mq_select ''-__v'' (af_query af)\<rparr>))"

text \<open>\<open>paginate()\<close>: \<open>page * 1 || 1\<close>, \<open>limit * 1 || 100\<close>,
  \<open>skip = (page - 1) * limit\<close>.\<close>

definition af_paginate :: "api_features \<Rightarrow> api_features" where
  "af_paginate af =
     (let page = js_or (js_mul (js_to_number (map_of (af_queryString af) ''page'')) (Num 1)) (Num 1);
          limit = js_or (js_mul (js_to_number (map_of (af_queryString af) ''limit'')) (Num 1)) (Num 100);
          skip = js_mul (js_sub page (Num 1)) limit
      in af\<lparr>af_query := mq_limit limit (mq_skip skip (af_query af))\<rparr>)"

text \<open>The controllers' use: \<open>new APIFeatures(query, req.query).filter().sort()
  .limitFields().paginate()\<close>, stopping at the first exception.\<close>

definition api_build :: "mquery \<Rightarrow> (string \<times> jval) list \<Rightarrow> error + mquery" where
  "api_build q qs =
     (case af_filter \<lparr>af_query = q, af_queryString = qs\<rparr> of
        Inl e \<Rightarrow> Inl e
      | Inr af1 \<Rightarrow>
          (case af_sort af1 of
             Inl e \<Rightarrow> Inl e
           | Inr af2 \<Rightarrow>
               (case af_limitFields af2 of
                  Inl e \<Rightarrow> Inl e
                | Inr af3 \<Rightarrow> Inr (af_query (af_paginate af3)))))"

section \<open>The specification of the control parameters\<close>

text \<open>What the specification asks of \<open>sort\<close> and \<open>fields\<close>: the parameter split at
  commas, in order, each name with its sign (\<open>spec_fields\<close>), for a list of nonempty
  names without whitespace, none repeated (\<open>plain_field_list\<close>).\<close>

definition spec_fields :: "int \<Rightarrow> int \<Rightarrow> string \<Rightarrow> (string \<times> int) list" where
  "spec_fields pos neg s = map (signed_field pos neg) (js_split CHR '','' s)"

definition plain_field_list :: "string \<Rightarrow> bool" where
  "plain_field_list s \<longleftrightarrow>
     list_all (\<lambda>w. w \<noteq> [] \<and> \<not> list_ex js_space w) (js_split CHR '','' s) \<and>
     distinct (map (fst \<circ> signed_field 1 0) (js_split CHR '','' s))"

text \<open>The reference meaning of \<open>filter()\<close>: the control keys deleted, the operator
  rewrite applied to each key and each string value on its own, and the objects normalised
  as \<open>JSON.parse\<close> builds them.\<close>

definition filter_conditions_ref :: "(string \<times> jval) list \<Rightarrow> (string \<times> jval) list" where
  "filter_conditions_ref qs =
     obj_of_pairs (jnorm_members (jmap_members (rewrite_ops False) (fold obj_delete excludedFields qs)))"

section \<open>Properties of the query pipeline\<close>

lemmas api_eval = api_build_def af_filter_def af_sort_def af_limitFields_def af_paginate_def excludedFields_def
  obj_delete_def json_quote_def json_escape_def json_escape_char_def dq_def bsl_def match_op_def op_alternatives_def
  is_word_char_def json_parse_def skip_ws_def json_ws_def simple_unescape_def obj_of_pairs_def starts_with_def mq_find_def
  mq_sort_def mq_select_def mq_skip_def mq_limit_def words_def signed_field_def js_space_def js_truthy_def
  js_to_number_def string_to_number_def trim_js_def unsigned_decimal_def digits_val_def digit_val_def is_digit_def
  radix_prefix_def js_or_def num_truthy_def empty_query_def Let_def

lemma split_on_no_sep: "\<not> list_ex P x \<Longrightarrow> split_on P x = [x]"
  by (induction x) auto

lemma split_on_append_sep:
  "\<not> list_ex P x \<Longrightarrow> P c \<Longrightarrow> split_on P (x @ c # y) = x # split_on P y"
  by (induction x) auto

lemma words_join_space:
  "list_all (\<lambda>w. w \<noteq> [] \<and> \<not> list_ex js_space w) ws \<Longrightarrow> words (js_join '' '' ws) = ws"
proof (induction "'' ''" ws rule: js_join.induct)
  case 1
  then show ?case by (simp add: words_def)
next
  case (2 x)
  then show ?case by (simp add: words_def split_on_no_sep)
next
  case (3 x y xs)
  have sp: "js_space CHR '' ''" by (simp add: js_space_def)
  from 3 show ?case
    by (simp add: words_def split_on_append_sep [where P = js_space and c = "CHR '' ''", OF _ sp])
qed

lemma fst_signed_field: "fst (signed_field pos neg f) = fst (signed_field 1 0 f)"
  by (simp add: signed_field_def split: list.splits)

lemma fold_signed_fields:
  assumes "plain_field_list s"
  shows "fold (\<lambda>f. case signed_field pos neg f of (g, d) \<Rightarrow> obj_set g d)
           (words (js_join '' '' (js_split CHR '','' s))) [] = spec_fields pos neg s"
proof -
  let ?ws = "js_split CHR '','' s"
  have d: "distinct (map fst (map (signed_field pos neg) ?ws))"
    using assms by (simp add: plain_field_list_def comp_def fst_signed_field [of pos neg])
  have "fold (\<lambda>f. case signed_field pos neg f of (g, d) \<Rightarrow> obj_set g d) ?ws [] =
        fold (\<lambda>(k, v). obj_set k v) (map (signed_field pos neg) ?ws) []"
    by (simp add: fold_map comp_def)
  also have "\<dots> = spec_fields pos neg s"
    using d by (simp add: fold_obj_set_fresh spec_fields_def)
  finally show ?thesis using assms by (simp add: plain_field_list_def words_join_space)
qed

lemma op_alternatives_word: "op \<in> set op_alternatives \<Longrightarrow> op \<noteq> [] \<and> list_all is_word_char op \<and> list_all plain_char op"
  by (auto simp: op_alternatives_def is_word_char_def plain_char_def dq_def bsl_def)

lemma word_op_append_nonword:
  assumes w: "list_all is_word_char op" and c: "\<not> is_word_char c"
  shows "(take (length op) (x @ c # y) = op \<and> \<not> word_at (drop (length op) (x @ c # y))) \<longleftrightarrow>
         (take (length op) x = op \<and> \<not> word_at (drop (length op) x))"
proof (cases "length op \<le> length x")
  case True
  then show ?thesis using c by (cases "drop (length op) x") simp_all
next
  case False
  have "take (length op) (x @ c # y) \<noteq> op"
  proof
    assume t: "take (length op) (x @ c # y) = op"
    obtain k where k: "length op - length x = Suc k" using False by (cases "length op - length x") auto
    have "op ! length x = c" using t [symmetric] k by (simp add: nth_append)
    moreover have "op ! length x \<in> set op" using False by simp
    ultimately show False using w c by (simp add: list_all_iff)
  qed
  moreover have "take (length op) x \<noteq> op" using False by auto
  ultimately show ?thesis by simp
qed

lemma match_op_append_nonword:
  "\<not> is_word_char c \<Longrightarrow> match_op (x @ c # y) = match_op x"
  unfolding match_op_def
  by (rule find_cong [OF refl]) (metis op_alternatives_word word_op_append_nonword)

lemma match_op_Nil: "match_op [] = None"
  by (simp add: match_op_def op_alternatives_def)

lemma match_op_Some:
  "match_op s = Some op \<Longrightarrow> op \<noteq> [] \<and> length op \<le> length s \<and> op \<in> set op_alternatives"
proof -
  assume "match_op s = Some op"
  then have "op \<in> set op_alternatives" and t: "take (length op) s = op"
    unfolding match_op_def by (auto dest!: find_SomeD)
  moreover have "length op \<le> length s" using arg_cong [OF t, of length] by simp
  ultimately show ?thesis using op_alternatives_word by blast
qed

lemma rewrite_ops_nonword_Cons:
  "\<not> is_word_char c \<Longrightarrow> rewrite_ops pw (c # y) = c # rewrite_ops False y"
proof -
  assume c: "\<not> is_word_char c"
  then have "match_op (c # y) = None" using match_op_append_nonword [of c "[]" y] by (simp add: match_op_Nil)
  with c show ?thesis by simp
qed

lemma rewrite_ops_append_nonword:
  assumes "\<not> is_word_char c"
  shows "rewrite_ops pw (x @ c # y) = rewrite_ops pw x @ c # rewrite_ops False y"
proof (induction "length x" arbitrary: x pw rule: less_induct)
  case less
  show ?case
  proof (cases x)
    case Nil
    then show ?thesis using rewrite_ops_nonword_Cons [OF assms, of pw y] by simp
  next
    case (Cons a x')
    have m: "match_op (x @ c # y) = match_op x" using assms by (rule match_op_append_nonword)
    show ?thesis
    proof (cases "if pw then None else match_op x")
      case None
      then show ?thesis using Cons m less [of x' "is_word_char a"] by (simp split: if_splits)
    next
      case (Some op)
      then have mo: "match_op x = Some op" and npw: "\<not> pw" by (simp_all split: if_splits)
      then have l: "op \<noteq> []" "length op \<le> length x" using match_op_Some by blast+
      then have d: "drop (length op - 1) (x' @ c # y) = drop (length op - 1) x' @ c # y"
        using Cons by simp
      have "length (drop (length op - 1) x') < length x" using Cons by simp
      then show ?thesis using Cons m mo npw d less [of "drop (length op - 1) x'" True] by simp
    qed
  qed
qed

lemma nonword_punct [simp]:
  "\<not> is_word_char dq" "\<not> is_word_char CHR ''[''" "\<not> is_word_char CHR '']''" "\<not> is_word_char CHR ''{''"
  "\<not> is_word_char CHR ''}''" "\<not> is_word_char CHR '',''" "\<not> is_word_char CHR '':''"
  by (simp_all add: is_word_char_def dq_def)

lemma rewrite_ops_plain:
  "list_all plain_char s \<Longrightarrow> list_all plain_char (rewrite_ops pw s)"
proof (induction pw s rule: rewrite_ops.induct)
  case (1 pw)
  then show ?case by simp
next
  case (2 pw c cs)
  have dollar: "plain_char CHR ''$''" by (simp add: plain_char_def dq_def bsl_def)
  show ?case
  proof (cases "if pw then None else match_op (c # cs)")
    case None
    with 2 show ?thesis by simp
  next
    case (Some op)
    then have "op \<in> set op_alternatives" by (auto dest: match_op_Some split: if_splits)
    then have "list_all plain_char op" using op_alternatives_word by blast
    moreover have "list_all plain_char (drop (length op - 1) cs)"
      using "2.prems" by (auto simp: list_all_iff dest: in_set_dropD)
    ultimately show ?thesis using Some 2 dollar by simp
  qed
qed

lemma rewrite_ops_bool [simp]:
  "rewrite_ops False ''true'' = ''true''" "rewrite_ops False ''false'' = ''false''"
  by (simp_all add: match_op_def op_alternatives_def is_word_char_def)

lemma rewrite_json_of:
  "jplain v \<Longrightarrow> rewrite_ops False (json_of v) = json_of (jmap_str (rewrite_ops False) v)"
  "jplain_elems vs \<Longrightarrow> rewrite_ops False (json_elems vs) = json_elems (jmap_elems (rewrite_ops False) vs)"
  "jplain_members kvs \<Longrightarrow>
     rewrite_ops False (json_members kvs) = json_members (jmap_members (rewrite_ops False) kvs)"
  by (induction v and vs and kvs rule: json_of_json_elems_json_members.induct)
     (simp_all add: json_quote_def json_escape_plain rewrite_ops_plain rewrite_ops_nonword_Cons
        rewrite_ops_append_nonword del: rewrite_ops.simps(2))

lemma jplain_members_filter: "jplain_members kvs \<Longrightarrow> jplain_members (filter P kvs)"
proof (induction kvs)
  case Nil
  then show ?case by simp
next
  case (Cons kv kvs)
  then show ?case by (cases kv) simp
qed

lemma jplain_members_delete: "jplain_members kvs \<Longrightarrow> jplain_members (fold obj_delete ks kvs)"
  by (induction ks arbitrary: kvs) (simp_all add: obj_delete_def jplain_members_filter)

lemma af_paginate_query:
  "af_query (af_paginate \<lparr>af_query = q, af_queryString = qs\<rparr>) =
     (let page = js_or (js_to_number (map_of qs ''page'')) (Num 1);
          limit = js_or (js_to_number (map_of qs ''limit'')) (Num 100)
      in q\<lparr>skip_val := Some (js_mul (js_sub page (Num 1)) limit), limit_val := Some limit\<rparr>)"
  by (simp add: af_paginate_def mq_skip_def mq_limit_def Let_def)

text \<open>A \<open>page\<close> and a \<open>limit\<close> that are missing or do not convert to a nonzero number (\<open>NaN\<close>, \<open>0\<close>, the empty string) fall back to page 1 and limit 100: the query gets skip 0 and limit 100.\<close>

lemma af_paginate_defaults:
  assumes "\<not> num_truthy (js_to_number (map_of qs ''page''))"
    and "\<not> num_truthy (js_to_number (map_of qs ''limit''))"
  shows "af_query (af_paginate \<lparr>af_query = q, af_queryString = qs\<rparr>) =
           q\<lparr>skip_val := Some (Num 0), limit_val := Some (Num 100)\<rparr>"
  using assms by (simp add: af_paginate_query js_or_def)

lemma af_paginate_defaults_witness:
  "af_query (af_paginate \<lparr>af_query = empty_query, af_queryString = [(''page'', JStr ''abc''), (''price'', JStr ''500'')]\<rparr>) =
     empty_query\<lparr>skip_val := Some (Num 0), limit_val := Some (Num 100)\<rparr>"
  using af_paginate_defaults [of "[(''page'', JStr ''abc''), (''price'', JStr ''500'')]" empty_query]
  by (simp add: js_to_number_def string_to_number_def trim_js_def js_space_def radix_prefix_def
      unsigned_decimal_def is_digit_def digit_val_def num_truthy_def)

text \<open>C16. For \<open>page = p\<close> and \<open>limit = l\<close> given as decimal digit strings of positive integers, the query gets \<open>skip = (p - 1) * l\<close> and \<open>limit = l\<close>.\<close>

lemma af_paginate_positive:
  assumes "map_of qs ''page'' = Some (JStr p)" and "digits_val 10 p = Some i" and "0 < i"
    and "map_of qs ''limit'' = Some (JStr l)" and "digits_val 10 l = Some j" and "0 < j"
  shows "af_query (af_paginate \<lparr>af_query = q, af_queryString = qs\<rparr>) =
           q\<lparr>skip_val := Some (Num (of_nat ((i - 1) * j))), limit_val := Some (Num (of_nat j))\<rparr>"
  using assms by (simp add: af_paginate_query js_or_def js_to_number_def num_truthy_def
      string_to_number_digits of_nat_diff)

lemma af_paginate_positive_witness:
  "af_query (af_paginate \<lparr>af_query = empty_query, af_queryString = [(''page'', JStr ''3''), (''limit'', JStr ''20'')]\<rparr>) =
     empty_query\<lparr>skip_val := Some (Num 40), limit_val := Some (Num 20)\<rparr>"
  using af_paginate_positive [of "[(''page'', JStr ''3''), (''limit'', JStr ''20'')]" "''3''" 3 "''20''" 20 empty_query]
  by (simp add: digits_val_def digit_val_def)

text \<open>C17. Any limit that converts to a nonzero number, negative or fractional included, is passed to the query unchanged; only 0 and non-numbers are replaced by 100 (the specification asks that 0 and negative limits be clamped to the default).\<close>

lemma af_paginate_limit_passthrough:
  assumes "js_to_number (map_of qs ''limit'') = Num r" and "r \<noteq> 0"
  shows "limit_val (af_query (af_paginate \<lparr>af_query = q, af_queryString = qs\<rparr>)) = Some (Num r)"
  using assms by (simp add: af_paginate_query js_or_def num_truthy_def Let_def)

lemma af_paginate_limit_passthrough_witness:
  "limit_val (af_query (af_paginate \<lparr>af_query = empty_query, af_queryString = [(''limit'', JStr ''-5'')]\<rparr>)) =
     Some (Num (-5))"
  using af_paginate_limit_passthrough [of "[(''limit'', JStr ''-5'')]" "-5" empty_query]
  by (simp add: js_to_number_def string_to_number_def trim_js_def js_space_def radix_prefix_def
      unsigned_decimal_def is_digit_def digit_val_def js_negate_def)

text \<open>C18. A \<open>sort\<close> parameter that is a comma-separated list of distinct, nonempty, whitespace-free field names sets the sort specification to exactly those fields, in order, each descending when it carries a leading minus (a functional refinement of the specification's sort stage).\<close>

lemma af_sort_refines_spec:
  assumes "map_of qs ''sort'' = Some (JStr s)" and "s \<noteq> []" and "plain_field_list s"
    and "sort_spec q = []"
  shows "af_sort \<lparr>af_query = q, af_queryString = qs\<rparr> =
           Inr \<lparr>af_query = q\<lparr>sort_spec := spec_fields 1 (-1) s\<rparr>, af_queryString = qs\<rparr>"
  using assms by (simp add: af_sort_def js_truthy_def mq_sort_def fold_signed_fields)

lemma af_sort_refines_spec_witness:
  "af_sort \<lparr>af_query = empty_query, af_queryString = [(''sort'', JStr ''price,-ratingsAverage'')]\<rparr> =
     Inr \<lparr>af_query = empty_query\<lparr>sort_spec := [(''price'', 1), (''ratingsAverage'', -1)]\<rparr>,
          af_queryString = [(''sort'', JStr ''price,-ratingsAverage'')]\<rparr>"
  using af_sort_refines_spec [of "[(''sort'', JStr ''price,-ratingsAverage'')]" "''price,-ratingsAverage''" empty_query]
  by (simp add: plain_field_list_def spec_fields_def signed_field_def js_space_def empty_query_def)

text \<open>Without a truthy \<open>sort\<close> parameter the query is sorted by descending \<open>createdAt\<close>, then by \<open>name\<close>.\<close>

lemma af_sort_default:
  assumes "\<not> js_truthy (map_of qs ''sort'')" and "sort_spec q = []"
  shows "af_sort \<lparr>af_query = q, af_queryString = qs\<rparr> =
           Inr \<lparr>af_query = q\<lparr>sort_spec := [(''createdAt'', -1), (''name'', 1)]\<rparr>, af_queryString = qs\<rparr>"
  using assms by (simp add: af_sort_def mq_sort_def words_def signed_field_def js_space_def)

lemma af_sort_default_witness:
  "af_sort \<lparr>af_query = empty_query, af_queryString = [(''sort'', JStr '''')]\<rparr> =
     Inr \<lparr>af_query = empty_query\<lparr>sort_spec := [(''createdAt'', -1), (''name'', 1)]\<rparr>,
          af_queryString = [(''sort'', JStr '''')]\<rparr>"
  using af_sort_default [of "[(''sort'', JStr '''')]" empty_query]
  by (simp add: js_truthy_def empty_query_def)

text \<open>A \<open>sort\<close> parameter that is an array (the query string repeats the key) makes the sort stage throw a \<open>TypeError\<close>, so the pipeline fails instead of falling back to a default.\<close>

lemma af_sort_array_TypeError:
  "map_of qs ''sort'' = Some (JArr vs) \<Longrightarrow>
   af_sort \<lparr>af_query = q, af_queryString = qs\<rparr> = Inl (TypeError ''this.queryString.sort.split is not a function'')"
  by (simp add: af_sort_def js_truthy_def)

lemma af_sort_array_TypeError_witness:
  "api_build empty_query [(''sort'', JArr [JStr ''price'', JStr ''name''])] =
     Inl (TypeError ''this.queryString.sort.split is not a function'')"
proof -
  have "af_filter \<lparr>af_query = empty_query, af_queryString = [(''sort'', JArr [JStr ''price'', JStr ''name''])]\<rparr> =
          Inr \<lparr>af_query = empty_query, af_queryString = [(''sort'', JArr [JStr ''price'', JStr ''name''])]\<rparr>"
    by (simp add: api_eval mq_find_def)
  then show ?thesis
    using af_sort_array_TypeError [of "[(''sort'', JArr [JStr ''price'', JStr ''name''])]" "[JStr ''price'', JStr ''name'']" empty_query]
    by (simp add: api_build_def)
qed

text \<open>C19. A \<open>fields\<close> parameter that is a comma-separated list of distinct plain names sets the projection to exactly those fields, in order, a leading minus excluding the field.\<close>

lemma af_limitFields_refines_spec:
  assumes "map_of qs ''fields'' = Some (JStr s)" and "s \<noteq> []" and "plain_field_list s"
    and "select_spec q = []"
  shows "af_limitFields \<lparr>af_query = q, af_queryString = qs\<rparr> =
           Inr \<lparr>af_query = q\<lparr>select_spec := spec_fields 1 0 s\<rparr>, af_queryString = qs\<rparr>"
  using assms by (simp add: af_limitFields_def js_truthy_def mq_select_def fold_signed_fields)

lemma af_limitFields_refines_spec_witness:
  "af_limitFields \<lparr>af_query = empty_query, af_queryString = [(''fields'', JStr ''name,-price'')]\<rparr> =
     Inr \<lparr>af_query = empty_query\<lparr>select_spec := [(''name'', 1), (''price'', 0)]\<rparr>,
          af_queryString = [(''fields'', JStr ''name,-price'')]\<rparr>"
  using af_limitFields_refines_spec [of "[(''fields'', JStr ''name,-price'')]" "''name,-price''" empty_query]
  by (simp add: plain_field_list_def spec_fields_def signed_field_def js_space_def empty_query_def)

text \<open>Without a truthy \<open>fields\<close> parameter the projection excludes the version key \<open>__v\<close>.\<close>

lemma af_limitFields_default:
  assumes "\<not> js_truthy (map_of qs ''fields'')" and "select_spec q = []"
  shows "af_limitFields \<lparr>af_query = q, af_queryString = qs\<rparr> =
           Inr \<lparr>af_query = q\<lparr>select_spec := [(''__v'', 0)]\<rparr>, af_queryString = qs\<rparr>"
  using assms by (simp add: af_limitFields_def mq_select_def words_def signed_field_def js_space_def)

lemma af_limitFields_default_witness:
  "af_limitFields \<lparr>af_query = empty_query, af_queryString = [(''limit'', JStr ''5'')]\<rparr> =
     Inr \<lparr>af_query = empty_query\<lparr>select_spec := [(''__v'', 0)]\<rparr>, af_queryString = [(''limit'', JStr ''5'')]\<rparr>"
  using af_limitFields_default [of "[(''limit'', JStr ''5'')]" empty_query]
  by (simp add: js_truthy_def empty_query_def)

text \<open>The whole pipeline on \<open>fields=name,price\<close> alone: no conditions, the default sort, the projection of exactly \<open>name\<close> and \<open>price\<close>, skip 0 and limit 100.\<close>

lemma api_build_fields_scenario:
  "api_build empty_query [(''fields'', JStr ''name,price'')] =
     Inr \<lparr>conditions = [], sort_spec = [(''createdAt'', -1), (''name'', 1)],
          select_spec = [(''name'', 1), (''price'', 1)], skip_val = Some (Num 0), limit_val = Some (Num 100)\<rparr>"
  by (simp add: api_eval)

text \<open>The whole pipeline on \<open>price[gte]=100\<close> alone: the condition on \<open>price\<close> is MongoDB's \<open>$gte\<close> operator with the value, not an equality on a string, with the default sort, projection and pagination.\<close>

lemma api_build_filter_scenario:
  "api_build empty_query [(''price'', JObj [(''gte'', JStr ''100'')])] =
     Inr \<lparr>conditions = [(''price'', JObj [(''$gte'', JStr ''100'')])], sort_spec = [(''createdAt'', -1), (''name'', 1)],
          select_spec = [(''__v'', 0)], skip_val = Some (Num 0), limit_val = Some (Num 100)\<rparr>"
  by (simp add: api_eval)

text \<open>The operator rewrite is not limited to the keys of comparison objects: every
  whole word \<open>gte\<close>, \<open>gt\<close>, \<open>lte\<close> or \<open>lt\<close> of the printed query is prefixed with
  \<open>$\<close>, string values included, so an equality filter on the name \<open>The lt tour\<close>
  searches for \<open>The $lt tour\<close>.\<close>

lemma api_build_rewrites_value_words:
  "api_build empty_query [(''name'', JStr ''The lt tour'')] =
     Inr \<lparr>conditions = [(''name'', JStr ''The $lt tour'')], sort_spec = [(''createdAt'', -1), (''name'', 1)],
          select_spec = [(''__v'', 0)], skip_val = Some (Num 0), limit_val = Some (Num 100)\<rparr>"
  by (simp add: api_eval)

text \<open>C23. The filter stage, which prints the query object, rewrites the printed text with
  the regular expression and parses it back, is equivalent to applying the rewrite to
  each key and each string value separately, for every query object whose keys and strings
  print without escapes: it never throws, and it merges exactly the reference conditions
  \<open>filter_conditions_ref\<close> into the query.\<close>

lemma af_filter_equiv:
  assumes "jplain_members qs"
  shows "af_filter \<lparr>af_query = q, af_queryString = qs\<rparr> =
           Inr \<lparr>af_query = mq_find (filter_conditions_ref qs) q, af_queryString = qs\<rparr>"
proof -
  let ?qo = "fold obj_delete excludedFields qs"
  have "jplain (JObj ?qo)" using assms by (simp add: jplain_members_delete)
  then have rw: "rewrite_ops False (json_of (JObj ?qo)) = json_of (JObj (jmap_members (rewrite_ops False) ?qo))"
    using rewrite_json_of(1) by fastforce
  have e: "json_parse (json_of (JObj (jmap_members (rewrite_ops False) ?qo))) =
             Some (JObj (filter_conditions_ref qs))"
    by (simp only: json_parse_json_of jnorm.simps filter_conditions_ref_def)
  show ?thesis
    unfolding af_filter_def Let_def api_features.select_convs rw e by simp
qed

lemma af_filter_equiv_witness:
  "af_filter \<lparr>af_query = empty_query, af_queryString = [(''price'', JObj [(''lt'', JStr ''500'')]), (''page'', JStr ''2'')]\<rparr> =
     Inr \<lparr>af_query = empty_query\<lparr>conditions := [(''price'', JObj [(''$lt'', JStr ''500'')])]\<rparr>,
          af_queryString = [(''price'', JObj [(''lt'', JStr ''500'')]), (''page'', JStr ''2'')]\<rparr>"
  using af_filter_equiv [of "[(''price'', JObj [(''lt'', JStr ''500'')]), (''page'', JStr ''2'')]" empty_query]
  by (simp add: plain_char_def dq_def bsl_def filter_conditions_ref_def excludedFields_def obj_delete_def
      match_op_def op_alternatives_def is_word_char_def obj_of_pairs_def mq_find_def empty_query_def)

end
