(* ===== verification/Filter_Escapes.thy ===== *)
theory Filter_Escapes
  imports Api_Features
begin

text \<open>
  The filter stage of \<open>src/utils/apiFeatures.js\<close> on arbitrary query objects. The
  regular expression runs over the printed JSON, where quotes, backslashes and control
  characters of keys and values appear escaped. The rewrite of an escaped string is the
  escape of \<open>rewrite_raw\<close>, the same scan on the raw string in which a word boundary
  after an escaped character is judged by the last character of its escape sequence
  (\<open>rewrite_ops_escape\<close>). Hence the printed query object rewrites to the printed object
  with every key and string mapped by \<open>rewrite_raw\<close> (\<open>rewrite_json_of_any\<close>), and
  \<open>filter()\<close> never throws: \<open>JSON.parse\<close> accepts the text and yields that object
  (\<open>af_filter_any\<close>).
\<close>

text \<open>The reference scan on raw strings.\<close>

fun rewrite_raw :: "bool \<Rightarrow> string \<Rightarrow> string" where
  "rewrite_raw pw [] = []"
| "rewrite_raw pw (c # cs) =
     (case (if pw then None else match_op (c # cs)) of
        Some op \<Rightarrow> CHR ''$'' # op @ rewrite_raw True (drop (length op - 1) cs)
      | None \<Rightarrow> c # rewrite_raw (is_word_char (last (json_escape_char c))) cs)"

lemma not_plain_nonword: "\<not> plain_char c \<Longrightarrow> \<not> is_word_char c"
  by (auto simp: plain_char_def is_word_char_def dq_def bsl_def Let_def)

lemma escape_char_not_plain: "\<not> plain_char c \<Longrightarrow> \<exists>t. json_escape_char c = bsl # t"
  by (auto simp: plain_char_def json_escape_char_def Let_def)

lemma escape_char_plain [simp]: "plain_char c \<Longrightarrow> json_escape_char c = [c]"
  by (simp add: plain_char_def json_escape_char_def Let_def)

lemma json_escape_Cons [simp]: "json_escape (c # s) = json_escape_char c @ json_escape s"
  by (simp add: json_escape_def)

lemma json_escape_Nil [simp]: "json_escape [] = []"
  by (simp add: json_escape_def)

lemma json_escape_append: "json_escape (a @ b) = json_escape a @ json_escape b"
  by (simp add: json_escape_def)

lemma nonword_bsl [simp]: "\<not> is_word_char bsl"
  by (simp add: is_word_char_def bsl_def)

lemma word_at_escape: "word_at (json_escape s) = word_at s"
proof (cases s)
  case (Cons c cs)
  show ?thesis
  proof (cases "plain_char c")
    case False
    then obtain t where "json_escape_char c = bsl # t" using escape_char_not_plain by blast
    with False Cons show ?thesis using not_plain_nonword [OF False] by simp
  qed (use Cons in simp)
qed (simp add: json_escape_def)

lemma op_prefix_escape:
  "list_all is_word_char op \<Longrightarrow>
   (take (length op) (json_escape s) = op \<and> \<not> word_at (drop (length op) (json_escape s))) \<longleftrightarrow>
   (take (length op) s = op \<and> \<not> word_at (drop (length op) s))"
proof (induction op arbitrary: s)
  case Nil
  then show ?case by (simp add: word_at_escape)
next
  case (Cons a os)
  show ?case
  proof (cases s)
    case Nil
    then show ?thesis by (simp add: json_escape_def)
  next
    case (Cons c cs)
    show ?thesis
    proof (cases "plain_char c")
      case True
      with Cons.IH Cons.prems \<open>s = c # cs\<close> show ?thesis by auto
    next
      case False
      then obtain t where "json_escape_char c = bsl # t" using escape_char_not_plain by blast
      moreover have "a \<noteq> bsl" "a \<noteq> c" using Cons.prems False not_plain_nonword
        by (auto simp: bsl_def is_word_char_def)
      ultimately show ?thesis using \<open>s = c # cs\<close> by simp
    qed
  qed
qed

lemma match_op_escape: "match_op (json_escape s) = match_op s"
  unfolding match_op_def
  by (rule find_cong [OF refl]) (metis op_alternatives_word op_prefix_escape)

lemma match_op_not_op_start: "c \<noteq> CHR ''g'' \<Longrightarrow> c \<noteq> CHR ''l'' \<Longrightarrow> match_op (c # y) = None"
  by (simp add: match_op_def op_alternatives_def)

lemma rewrite_ops_word_prefix:
  "list_all is_word_char x \<Longrightarrow> rewrite_ops True (x @ y) = x @ rewrite_ops True y"
  by (induction x) auto

lemma rewrite_ops_letter:
  "is_word_char c \<Longrightarrow> c \<noteq> CHR ''g'' \<Longrightarrow> c \<noteq> CHR ''l'' \<Longrightarrow> rewrite_ops False (c # y) = c # rewrite_ops True y"
  by (simp add: match_op_not_op_start)

lemma hex_digit_word: "k < 16 \<Longrightarrow> is_word_char (hex_digit k)"
  by (auto simp: hex_digit_def is_word_char_def Let_def)

lemma rewrite_escape_tail:
  assumes np: "\<not> plain_char c" and e: "json_escape_char c = bsl # t"
  shows "rewrite_ops False (t @ y) = t @ rewrite_ops (is_word_char (last (bsl # t))) y"
proof -
  define n where "n = (of_char c :: nat)"
  consider "n = 8" | "n = 9" | "n = 10" | "n = 12" | "n = 13" | "c = dq" | "c = bsl"
    | "n < 32" "n \<notin> {8, 9, 10, 12, 13}" | "32 \<le> n" "c \<noteq> dq" "c \<noteq> bsl" by fastforce
  then show ?thesis
  proof cases
    case 1
    then have "t = [CHR ''b'']" using e by (simp add: json_escape_char_def n_def [symmetric])
    then show ?thesis by (simp add: rewrite_ops_letter is_word_char_def del: rewrite_ops.simps(2))
  next
    case 2
    then have "t = [CHR ''t'']" using e by (simp add: json_escape_char_def n_def [symmetric])
    then show ?thesis by (simp add: rewrite_ops_letter is_word_char_def del: rewrite_ops.simps(2))
  next
    case 3
    then have "t = [CHR ''n'']" using e by (simp add: json_escape_char_def n_def [symmetric])
    then show ?thesis by (simp add: rewrite_ops_letter is_word_char_def del: rewrite_ops.simps(2))
  next
    case 4
    then have "t = [CHR ''f'']" using e by (simp add: json_escape_char_def n_def [symmetric])
    then show ?thesis by (simp add: rewrite_ops_letter is_word_char_def del: rewrite_ops.simps(2))
  next
    case 5
    then have "t = [CHR ''r'']" using e by (simp add: json_escape_char_def n_def [symmetric])
    then show ?thesis by (simp add: rewrite_ops_letter is_word_char_def del: rewrite_ops.simps(2))
  next
    case 6
    then have "t = [dq]" using e by (simp add: json_escape_char_def dq_def)
    then show ?thesis by (simp add: rewrite_ops_nonword_Cons del: rewrite_ops.simps(2))
  next
    case 7
    then have "t = [bsl]" using e by (simp add: json_escape_char_def dq_def bsl_def)
    then show ?thesis by (simp add: rewrite_ops_nonword_Cons del: rewrite_ops.simps(2))
  next
    case 8
    have ne: "c \<noteq> dq" "c \<noteq> bsl" using 8 by (auto simp: n_def dq_def bsl_def)
    have t: "t = [CHR ''u'', CHR ''0'', CHR ''0'', hex_digit (n div 16), hex_digit (n mod 16)]"
      using e 8 ne by (simp add: json_escape_char_def n_def [symmetric])
    have w: "list_all is_word_char [CHR ''0'', CHR ''0'', hex_digit (n div 16), hex_digit (n mod 16)]"
      using 8 by (simp add: hex_digit_word) (simp add: is_word_char_def)
    have "rewrite_ops False (t @ y) = CHR ''u'' # rewrite_ops True ([CHR ''0'', CHR ''0'', hex_digit (n div 16), hex_digit (n mod 16)] @ y)"
      using t by (simp add: rewrite_ops_letter is_word_char_def del: rewrite_ops.simps(2))
    also have "\<dots> = t @ rewrite_ops True y" using t rewrite_ops_word_prefix [OF w] by simp
    finally show ?thesis using t 8 by (simp add: hex_digit_word)
  next
    case 9
    then have "plain_char c" by (simp add: plain_char_def n_def)
    with np show ?thesis by simp
  qed
qed

lemma rewrite_escape_special:
  assumes "\<not> plain_char c"
  shows "rewrite_ops pw (json_escape_char c @ y) =
           json_escape_char c @ rewrite_ops (is_word_char (last (json_escape_char c))) y"
proof -
  obtain t where e: "json_escape_char c = bsl # t" using escape_char_not_plain [OF assms] by blast
  then show ?thesis using rewrite_escape_tail [OF assms e, of y]
    by (simp add: rewrite_ops_nonword_Cons del: rewrite_ops.simps(2))
qed

lemma drop_escape_plain_prefix:
  assumes "list_all plain_char (take k s)" and "k \<le> length s"
  shows "drop k (json_escape s) = json_escape (drop k s)"
proof -
  have "json_escape s = take k s @ json_escape (drop k s)"
    using assms(1) json_escape_append [of "take k s" "drop k s"] json_escape_plain [of "take k s"] by simp
  then show ?thesis using assms(2) by simp
qed

lemma match_op_plain_prefix:
  assumes "match_op (c # cs) = Some op"
  shows "list_all plain_char (take (length op - 1) cs) \<and> length op - 1 \<le> length cs \<and>
         list_all plain_char op"
proof -
  have t: "take (length op) (c # cs) = op" and op: "op \<in> set op_alternatives"
    using assms unfolding match_op_def by (auto dest!: find_SomeD)
  have pl: "list_all plain_char op" using op op_alternatives_word by blast
  have ne: "op \<noteq> []" using op op_alternatives_word by blast
  have "take (length op - 1) cs = tl op" using t ne by (cases op) auto
  moreover have "length op \<le> length (c # cs)" using arg_cong [OF t, of length] by simp
  ultimately show ?thesis using pl by (cases op) auto
qed

lemma plain_dollar [simp]: "plain_char CHR ''$''"
  by (simp add: plain_char_def dq_def bsl_def)

lemma rewrite_ops_escape:
  "rewrite_ops pw (json_escape s) = json_escape (rewrite_raw pw s)"
proof (induction pw s rule: rewrite_raw.induct)
  case (1 pw)
  then show ?case by (simp add: json_escape_def)
next
  case (2 pw c cs)
  show ?case
  proof (cases "plain_char c")
    case True
    have m: "match_op (c # json_escape cs) = match_op (c # cs)"
      using match_op_escape [of "c # cs"] True by simp
    show ?thesis
    proof (cases "if pw then None else match_op (c # cs)")
      case None
      then show ?thesis using True m "2.IH"(1) [OF None] by (auto split: if_splits)
    next
      case (Some op)
      then have mo: "match_op (c # cs) = Some op" and npw: "\<not> pw" by (simp_all split: if_splits)
      from match_op_plain_prefix [OF mo] have
        d: "drop (length op - 1) (json_escape cs) = json_escape (drop (length op - 1) cs)"
        and pl: "list_all plain_char op" by (simp_all add: drop_escape_plain_prefix)
      have "json_escape (CHR ''$'' # op @ rewrite_raw True (drop (length op - 1) cs)) =
            CHR ''$'' # op @ json_escape (rewrite_raw True (drop (length op - 1) cs))"
        using pl by (simp add: json_escape_append json_escape_plain)
      then show ?thesis using True m mo npw d "2.IH"(2) [OF Some] by simp
    qed
  next
    case False
    have "match_op (c # cs) = None"
      using False not_plain_nonword [OF False] by (intro match_op_not_op_start) (auto simp: is_word_char_def)
    then have r: "rewrite_raw pw (c # cs) = c # rewrite_raw (is_word_char (last (json_escape_char c))) cs"
      by simp
    have "rewrite_ops pw (json_escape (c # cs)) =
          json_escape_char c @ rewrite_ops (is_word_char (last (json_escape_char c))) (json_escape cs)"
      using rewrite_escape_special [OF False] by simp
    moreover have "(if pw then None else match_op (c # cs)) = None" using \<open>match_op (c # cs) = None\<close> by simp
    ultimately show ?thesis using r "2.IH"(1) by simp
  qed
qed

lemma rewrite_json_of_any:
  "rewrite_ops False (json_of v) = json_of (jmap_str (rewrite_raw False) v)"
  "rewrite_ops False (json_elems vs) = json_elems (jmap_elems (rewrite_raw False) vs)"
  "rewrite_ops False (json_members kvs) = json_members (jmap_members (rewrite_raw False) kvs)"
  by (induction v and vs and kvs rule: json_of_json_elems_json_members.induct)
     (simp_all add: json_quote_def rewrite_ops_escape rewrite_ops_nonword_Cons
        rewrite_ops_append_nonword del: rewrite_ops.simps(2) json_escape_Cons)

lemma af_filter_any:
  "af_filter \<lparr>af_query = q, af_queryString = qs\<rparr> =
     Inr \<lparr>af_query = mq_find (obj_of_pairs (jnorm_members (jmap_members (rewrite_raw False)
                                  (fold obj_delete excludedFields qs)))) q, af_queryString = qs\<rparr>"
proof -
  let ?qo = "fold obj_delete excludedFields qs"
  have rw: "rewrite_ops False (json_of (JObj ?qo)) = json_of (JObj (jmap_members (rewrite_raw False) ?qo))"
    using rewrite_json_of_any(1) [of "JObj ?qo"] by simp
  have e: "json_parse (json_of (JObj (jmap_members (rewrite_raw False) ?qo))) =
             Some (JObj (obj_of_pairs (jnorm_members (jmap_members (rewrite_raw False) ?qo))))"
    by (simp only: json_parse_json_of jnorm.simps)
  show ?thesis
    unfolding af_filter_def Let_def api_features.select_convs rw e by simp
qed

end
