(* ===== verification/App_Middleware.thy ===== *)
theory App_Middleware
  imports Filter_Escapes
begin

text \<open>
  The middleware of \<open>src/app.js\<close> that rewrites \<open>req.query\<close> before the controllers
  build queries from it (lines 100--115), in the order of the \<open>app.use\<close> calls:
  \<open>express-mongo-sanitize\<close> removes, at every depth, the keys that start with \<open>$\<close> or
  contain a dot (\<open>mongo_sanitize\<close>); \<open>xss-clean\<close> prints the object, replaces every
  \<open><\<close> by \<open>&lt;\<close>, trims and parses it back (\<open>xss_clean\<close>); \<open>hpp\<close> replaces every
  top-level array value by its last element unless the key is in the whitelist
  (\<open>hpp_query\<close>). \<open>app_query\<close> is the three in turn. The libraries are modelled from
  their documented behaviour; the configuration (the whitelist, the order) is the code's.
\<close>

section \<open>The middleware\<close>

definition bad_key :: "string \<Rightarrow> bool" where
  "bad_key k \<longleftrightarrow> (k \<noteq> [] \<and> hd k = CHR ''$'') \<or> CHR ''.'' \<in> set k"

fun mongo_sanitize :: "jval \<Rightarrow> jval"
and sanitize_elems :: "jval list \<Rightarrow> jval list"
and sanitize_members :: "(string \<times> jval) list \<Rightarrow> (string \<times> jval) list" where
  "mongo_sanitize (JStr s) = JStr s"
| "mongo_sanitize (JBool b) = JBool b"
| "mongo_sanitize (JArr vs) = JArr (sanitize_elems vs)"
| "mongo_sanitize (JObj kvs) = JObj (sanitize_members kvs)"
| "sanitize_elems [] = []"
| "sanitize_elems (v # vs) = mongo_sanitize v # sanitize_elems vs"
| "sanitize_members [] = []"
| "sanitize_members ((k, v) # kvs) =
     (if bad_key k then sanitize_members kvs else (k, mongo_sanitize v) # sanitize_members kvs)"

definition xss_char :: "char \<Rightarrow> string" where
  "xss_char c = (if c = CHR ''<'' then ''&lt;'' else [c])"

definition in_html_data :: "string \<Rightarrow> string" where
  "in_html_data s = concat (map xss_char s)"

definition xss_clean :: "jval \<Rightarrow> error + jval" where
  "xss_clean v =
     (case json_parse (trim_js (in_html_data (json_of v))) of
        None \<Rightarrow> Inl (SyntaxError ''Unexpected token in JSON'')
      | Some v' \<Rightarrow> Inr v')"

definition hpp_whitelist :: "string list" where
  "hpp_whitelist = [''duration'', ''ratingsQuantity'', ''ratingsAverage'', ''maxGroupSize'', ''difficulty'', ''price'']"

fun hpp_query :: "string list \<Rightarrow> (string \<times> jval) list \<Rightarrow> (string \<times> jval) list" where
  "hpp_query wl [] = []"
| "hpp_query wl ((k, v) # kvs) =
     (case v of
        JArr vs \<Rightarrow>
          if k \<in> set wl then (k, v) # hpp_query wl kvs
          else if vs = [] then hpp_query wl kvs
          else (k, last vs) # hpp_query wl kvs
      | _ \<Rightarrow> (k, v) # hpp_query wl kvs)"

definition app_query :: "(string \<times> jval) list \<Rightarrow> error + (string \<times> jval) list" where
  "app_query qs =
     (case xss_clean (mongo_sanitize (JObj qs)) of
        Inl e \<Rightarrow> Inl e
      | Inr (JObj kvs) \<Rightarrow> Inr (hpp_query hpp_whitelist kvs)
      | Inr _ \<Rightarrow> Inr [])"

definition key_safe :: "string \<Rightarrow> bool" where
  "key_safe k \<longleftrightarrow>
     (k \<noteq> [] \<and> hd k = CHR ''$'' \<longrightarrow>
        list_ex (\<lambda>op. take (Suc (length op)) k = CHR ''$'' # op \<and> \<not> word_at (drop (Suc (length op)) k))
          op_alternatives)"

fun jkeys :: "(string \<Rightarrow> bool) \<Rightarrow> jval \<Rightarrow> bool"
and jkeys_elems :: "(string \<Rightarrow> bool) \<Rightarrow> jval list \<Rightarrow> bool"
and jkeys_members :: "(string \<Rightarrow> bool) \<Rightarrow> (string \<times> jval) list \<Rightarrow> bool" where
  "jkeys P (JStr s) = True"
| "jkeys P (JBool b) = True"
| "jkeys P (JArr vs) = jkeys_elems P vs"
| "jkeys P (JObj kvs) = jkeys_members P kvs"
| "jkeys_elems P [] = True"
| "jkeys_elems P (v # vs) = (jkeys P v \<and> jkeys_elems P vs)"
| "jkeys_members P [] = True"
| "jkeys_members P ((k, v) # kvs) = (P k \<and> jkeys P v \<and> jkeys_members P kvs)"

section \<open>Lemmas\<close>

lemma in_html_data_append [simp]: "in_html_data (a @ b) = in_html_data a @ in_html_data b"
  by (simp add: in_html_data_def)

lemma in_html_data_Cons [simp]: "in_html_data (c # s) = xss_char c @ in_html_data s"
  by (simp add: in_html_data_def)

lemma in_html_data_Nil [simp]: "in_html_data [] = []"
  by (simp add: in_html_data_def)

lemma hex_digit_not_lt: "k < 16 \<Longrightarrow> hex_digit k \<noteq> CHR ''<''"
proof
  assume k: "k < 16" and h: "hex_digit k = CHR ''<''"
  have "(of_char (hex_digit k) :: nat) = 60" using h by simp
  then show False using k by (simp add: hex_digit_def split: if_splits)
qed

lemma in_html_data_id: "CHR ''<'' \<notin> set s \<Longrightarrow> in_html_data s = s"
  by (induction s) (auto simp: xss_char_def)

lemma in_html_data_escape_char: "in_html_data (json_escape_char c) = json_escape (xss_char c)"
proof (cases "c = CHR ''<''")
  case True
  then show ?thesis by (simp add: xss_char_def json_escape_char_def dq_def bsl_def)
next
  case False
  have "(of_char c :: nat) < 256" by simp
  then have "(of_char c :: nat) div 16 < 16" by (simp add: div_less_iff_less_mult)
  then have "CHR ''<'' \<notin> set (json_escape_char c)"
    using False hex_digit_not_lt [of "of_char c div 16"] hex_digit_not_lt [of "of_char c mod 16"]
    by (auto simp: json_escape_char_def Let_def dq_def bsl_def)
  then have "in_html_data (json_escape_char c) = json_escape_char c"
    by (rule in_html_data_id)
  then show ?thesis using False by (simp add: xss_char_def json_escape_def)
qed

lemma in_html_data_escape: "in_html_data (json_escape s) = json_escape (in_html_data s)"
  by (induction s) (simp_all add: in_html_data_escape_char json_escape_append)

lemma xss_nonlt [simp]: "c \<noteq> CHR ''<'' \<Longrightarrow> xss_char c = [c]"
  by (simp add: xss_char_def)

lemma in_html_data_json_of:
  "in_html_data (json_of v) = json_of (jmap_str in_html_data v)"
  "in_html_data (json_elems vs) = json_elems (jmap_elems in_html_data vs)"
  "in_html_data (json_members kvs) = json_members (jmap_members in_html_data kvs)"
  by (induction v and vs and kvs rule: json_of_json_elems_json_members.induct)
     (simp_all add: json_quote_def in_html_data_escape dq_def xss_char_def del: json_escape_Cons)

lemma json_of_ends:
  "json_of v \<noteq> [] \<and> \<not> js_space (hd (json_of v)) \<and> \<not> js_space (last (json_of v))"
  by (cases v) (simp_all add: json_quote_def js_space_def dq_def)

lemma xss_text_json_of: "trim_js (in_html_data (json_of v)) = json_of (jmap_str in_html_data v)"
  using json_of_ends [of "jmap_str in_html_data v"] by (simp add: in_html_data_json_of(1) trim_js_id)

lemma jkeys_elems_iff: "jkeys_elems P vs \<longleftrightarrow> (\<forall>v\<in>set vs. jkeys P v)"
  by (induction vs) simp_all

lemma jkeys_members_iff: "jkeys_members P kvs \<longleftrightarrow> (\<forall>(k, v)\<in>set kvs. P k \<and> jkeys P v)"
  by (induction kvs) auto

lemma jkeys_members_subset:
  "set kvs' \<subseteq> set kvs \<Longrightarrow> jkeys_members P kvs \<Longrightarrow> jkeys_members P kvs'"
  by (auto simp: jkeys_members_iff)

lemma jkeys_jnorm:
  "jkeys P v \<Longrightarrow> jkeys P (jnorm v)"
  "jkeys_elems P vs \<Longrightarrow> jkeys_elems P (jnorm_elems vs)"
  "jkeys_members P kvs \<Longrightarrow> jkeys_members P (jnorm_members kvs)"
  by (induction v and vs and kvs rule: jnorm_jnorm_elems_jnorm_members.induct)
     (auto intro: jkeys_members_subset [OF set_obj_of_pairs])

lemma jkeys_jmap:
  "jkeys P v \<Longrightarrow> (\<And>k. P k \<Longrightarrow> Q (f k)) \<Longrightarrow> jkeys Q (jmap_str f v)"
  "jkeys_elems P vs \<Longrightarrow> (\<And>k. P k \<Longrightarrow> Q (f k)) \<Longrightarrow> jkeys_elems Q (jmap_elems f vs)"
  "jkeys_members P kvs \<Longrightarrow> (\<And>k. P k \<Longrightarrow> Q (f k)) \<Longrightarrow> jkeys_members Q (jmap_members f kvs)"
  by (induction f v and f vs and f kvs rule: jmap_str_jmap_elems_jmap_members.induct) auto

lemma jkeys_mono:
  "jkeys P v \<Longrightarrow> (\<And>k. P k \<Longrightarrow> Q k) \<Longrightarrow> jkeys Q v"
  "jkeys_elems P vs \<Longrightarrow> (\<And>k. P k \<Longrightarrow> Q k) \<Longrightarrow> jkeys_elems Q vs"
  "jkeys_members P kvs \<Longrightarrow> (\<And>k. P k \<Longrightarrow> Q k) \<Longrightarrow> jkeys_members Q kvs"
  by (induction P v and P vs and P kvs rule: jkeys_jkeys_elems_jkeys_members.induct) auto

lemma jkeys_sanitize:
  "jkeys (\<lambda>k. \<not> bad_key k) (mongo_sanitize v)"
  "jkeys_elems (\<lambda>k. \<not> bad_key k) (sanitize_elems vs)"
  "jkeys_members (\<lambda>k. \<not> bad_key k) (sanitize_members kvs)"
  by (induction v and vs and kvs rule: mongo_sanitize_sanitize_elems_sanitize_members.induct) auto

lemma html_keeps_no_dollar:
  "\<not> (k \<noteq> [] \<and> hd k = CHR ''$'') \<Longrightarrow> \<not> (in_html_data k \<noteq> [] \<and> hd (in_html_data k) = CHR ''$'')"
  by (cases k) (auto simp: xss_char_def)

lemma word_at_rewrite_raw_True: "word_at (rewrite_raw True s) = word_at s"
  by (cases s) simp_all

lemma rewrite_raw_key_safe:
  assumes "\<not> (k \<noteq> [] \<and> hd k = CHR ''$'')"
  shows "key_safe (rewrite_raw False k)"
proof (cases k)
  case Nil
  then show ?thesis by (simp add: key_safe_def)
next
  case (Cons c cs)
  show ?thesis
  proof (cases "match_op (c # cs)")
    case None
    with Cons assms show ?thesis by (simp add: key_safe_def)
  next
    case (Some op)
    have t: "take (length op) (c # cs) = op" and nw: "\<not> word_at (drop (length op) (c # cs))"
      and op: "op \<in> set op_alternatives"
      using Some unfolding match_op_def by (auto dest!: find_SomeD)
    have ne: "op \<noteq> []" using op op_alternatives_word by blast
    have "drop (length op) (c # cs) = drop (length op - 1) cs" using ne by (cases op) simp_all
    then have "\<not> word_at (rewrite_raw True (drop (length op - 1) cs))"
      using nw by (simp add: word_at_rewrite_raw_True)
    then show ?thesis using Some Cons op unfolding key_safe_def list_ex_iff
      by (intro impI bexI [of _ op]) simp_all
  qed
qed

lemma jkeys_hpp:
  "jkeys_members P kvs \<Longrightarrow> jkeys_members P (hpp_query wl kvs)"
  by (induction wl kvs rule: hpp_query.induct) (auto simp: jkeys_elems_iff split: jval.splits)

lemma set_fold_delete: "set (fold obj_delete ks kvs) \<subseteq> set kvs"
proof (induction ks arbitrary: kvs)
  case (Cons k ks)
  then show ?case using Cons.IH [of "obj_delete k kvs"] by (auto simp: obj_delete_def)
qed simp

lemma jkeys_obj_merge:
  "jkeys_members P to \<Longrightarrow> jkeys_members P kvs \<Longrightarrow> jkeys_members P (obj_merge to kvs)"
  "(case old of None \<Rightarrow> True | Some x \<Rightarrow> jkeys P x) \<Longrightarrow> jkeys P v \<Longrightarrow> jkeys P (merge_val old v)"
proof (induction to kvs and old v rule: obj_merge_merge_val.induct)
  case (2 to k v kvs)
  have "case map_of to k of None \<Rightarrow> True | Some x \<Rightarrow> jkeys P x"
    using "2.prems"(1) by (auto simp: jkeys_members_iff dest: map_of_SomeD split: option.splits)
  then have "jkeys P (merge_val (map_of to k) v)" using "2.IH"(1) "2.prems"(2) by simp
  then have "jkeys_members P (obj_set k (merge_val (map_of to k) v) to)"
    using "2.prems" set_obj_set [of k "merge_val (map_of to k) v" to] by (auto simp: jkeys_members_iff)
  then show ?case using "2.IH"(2) "2.prems"(2) by simp
qed auto

lemma app_query_eq:
  "app_query qs = Inr (hpp_query hpp_whitelist
                        (obj_of_pairs (jnorm_members (jmap_members in_html_data (sanitize_members qs)))))"
  unfolding app_query_def xss_clean_def xss_text_json_of json_parse_json_of by simp

lemma no_dollar_not_bad: "\<not> bad_key k \<Longrightarrow> \<not> (k \<noteq> [] \<and> hd k = CHR ''$'')"
  by (simp add: bad_key_def)



lemmas mw_eval = app_query_eq bad_key_def xss_char_def obj_of_pairs_def hpp_whitelist_def

section \<open>Properties of the request middleware\<close>

text \<open>C27. Whatever query string a request carries, after the middleware of \<open>app.js\<close>
  the filter stage succeeds, and every key of the resulting MongoDB conditions, at any
  depth, that starts with \<open>$\<close> is one of the comparison operators \<open>$gte\<close>, \<open>$gt\<close>,
  \<open>$lte\<close>, \<open>$lt\<close> followed by a non-word character or the end: no other query operator
  (\<open>$where\<close>, \<open>$ne\<close>, \<open>$regex\<close>, ...) can be injected.\<close>

theorem app_filter_operator_keys_safe:
  "\<exists>qs' af'. app_query qs = Inr qs' \<and>
     af_filter \<lparr>af_query = empty_query, af_queryString = qs'\<rparr> = Inr af' \<and>
     jkeys key_safe (JObj (conditions (af_query af')))"
proof -
  let ?nd = "\<lambda>k. \<not> (k \<noteq> [] \<and> hd k = CHR ''$'')"
  let ?qs' = "hpp_query hpp_whitelist (obj_of_pairs (jnorm_members (jmap_members in_html_data (sanitize_members qs))))"
  have "jkeys_members (\<lambda>k. \<not> bad_key k) (sanitize_members qs)" by (rule jkeys_sanitize(3))
  then have "jkeys_members ?nd (sanitize_members qs)" by (rule jkeys_mono(3)) (rule no_dollar_not_bad)
  then have "jkeys_members ?nd (jmap_members in_html_data (sanitize_members qs))"
    by (rule jkeys_jmap(3)) (rule html_keeps_no_dollar)
  then have "jkeys_members ?nd ?qs'"
    by (intro jkeys_hpp jkeys_members_subset [OF set_obj_of_pairs] jkeys_jnorm(3))
  then have "jkeys_members ?nd (fold obj_delete excludedFields ?qs')"
    by (rule jkeys_members_subset [OF set_fold_delete])
  then have "jkeys_members key_safe (jmap_members (rewrite_raw False) (fold obj_delete excludedFields ?qs'))"
    by (rule jkeys_jmap(3)) (rule rewrite_raw_key_safe)
  then have "jkeys_members key_safe
               (obj_merge [] (obj_of_pairs (jnorm_members (jmap_members (rewrite_raw False)
                  (fold obj_delete excludedFields ?qs')))))"
    by (intro jkeys_obj_merge(1) jkeys_members_subset [OF set_obj_of_pairs] jkeys_jnorm(3)) simp_all
  then show ?thesis
    by (simp add: app_query_eq af_filter_any mq_find_def empty_query_def)
qed

text \<open>\<open>xss-clean\<close> on a value is the value with every \<open><\<close> of every key and string
  replaced by \<open>&lt;\<close> (objects normalised as \<open>JSON.parse\<close> builds them): the text-level
  replacement never breaks the JSON, because no escape sequence contains \<open><\<close>.\<close>

theorem xss_clean_structural:
  "xss_clean v = Inr (jnorm (jmap_str in_html_data v))"
  unfolding xss_clean_def xss_text_json_of json_parse_json_of by simp

text \<open>A repeated \<open>sort\<close> key (\<open>?sort=price&sort=-name\<close>) reaches \<open>sort()\<close> as its
  last value after \<open>hpp\<close>, so the pipeline sorts by \<open>-name\<close>; a \<open>sort\<close> given as an
  object (\<open>?sort[price]=1\<close>), which \<open>hpp\<close> leaves alone, still makes \<open>sort()\<close> throw a
  \<open>TypeError\<close>.\<close>

theorem app_sort_after_hpp:
  "app_query [(''sort'', JArr [JStr ''price'', JStr ''-name''])] = Inr [(''sort'', JStr ''-name'')] \<and>
   api_build empty_query [(''sort'', JStr ''-name'')] =
     Inr \<lparr>conditions = [], sort_spec = [(''name'', -1)], select_spec = [(''__v'', 0)],
          skip_val = Some (Num 0), limit_val = Some (Num 100)\<rparr> \<and>
   app_query [(''sort'', JObj [(''price'', JStr ''1'')])] = Inr [(''sort'', JObj [(''price'', JStr ''1'')])] \<and>
   api_build empty_query [(''sort'', JObj [(''price'', JStr ''1'')])] =
     Inl (TypeError ''this.queryString.sort.split is not a function'')"
  by (simp add: mw_eval api_eval)

lemma hpp_query_keys: "(k, v) \<in> set (hpp_query wl kvs) \<Longrightarrow> k \<in> fst ` set kvs"
proof (induction wl kvs rule: hpp_query.induct)
  case (2 wl k' v' kvs)
  then show ?case by (cases v') (auto split: if_splits)
qed simp

lemma hpp_query_wf:
  "distinct (map fst kvs) \<Longrightarrow> jwf_members kvs \<Longrightarrow>
   distinct (map fst (hpp_query wl kvs)) \<and> jwf_members (hpp_query wl kvs)"
proof (induction wl kvs rule: hpp_query.induct)
  case (2 wl k v kvs)
  then show ?case
    by (cases v) (auto simp: jwf_elems_iff dest: hpp_query_keys)
qed simp

text \<open>Whatever the query string, the middleware stack succeeds and leaves \<open>req.query\<close>
  a well-formed object: no key repeated at any depth (hpp only drops or collapses members, and
  the values it keeps come from the parsed value).\<close>

theorem app_query_wf: "\<exists>qs'. app_query qs = Inr qs' \<and> jwf (JObj qs')"
  using hpp_query_wf [OF distinct_obj_of_pairs, of "jnorm_members (jmap_members in_html_data (sanitize_members qs))"]
    jnorm_jwf(3) [of "jmap_members in_html_data (sanitize_members qs)"]
    set_obj_of_pairs
  by (auto simp: app_query_eq jwf_members_iff)

end
