(* ===== verification/App_Stack.thy ===== *)
theory App_Stack
  imports Routes App_Middleware
begin

text \<open>
  The whole request pipeline of \<open>src/app.js\<close> in \<open>app.use\<close> order: the CORS preflight
  (line 41), the rate limiter on \<open>/api\<close> (line 90), the Stripe webhook route with its raw
  body parser (line 93), the JSON and urlencoded body parsers limited to 10 kB (lines
  96--97), the sanitizers of \<open>req.body\<close> and \<open>req.query\<close> (lines 103--115), the request
  time (lines 121--124), and the routers with the 404 fallback (lines 127--144). A request
  carries its method, path, role, parsed query, content type and body text; when it reaches
  a controller, \<open>app_stack\<close> returns what the controller sees (\<open>ctl_input\<close>). The
  body is given by its length and by what \<open>JSON.parse\<close> (or, for a form, the qs library)
  makes of it (\<open>None\<close> for a syntax error); body values range over \<open>jval\<close>, so numbers and
  \<open>null\<close> are not represented.
\<close>

section \<open>The pipeline\<close>

datatype content_type = CT_json | CT_form | CT_none

record http_req =
  hr_method :: meth
  hr_path :: "string list"
  hr_auth :: "role option"
  hr_query :: "(string \<times> jval) list"
  hr_content :: content_type
  hr_body_len :: nat
  hr_body_val :: "jval option"

record ctl_input =
  ci_query :: "(string \<times> jval) list"
  ci_body :: jval
  ci_time :: timestamp

definition body_limit :: nat where
  "body_limit = 10 * 1024"

definition raw_limit :: nat where
  "raw_limit = 100 * 1024"

definition too_large :: "nat \<times> string" where
  "too_large = (413, ''request entity too large'')"

text \<open>\<open>express.json({ limit: '10kb' })\<close>: the size check first, an empty body gives
  \<open>{}\<close>, a syntax error is a 400, and strict mode accepts only an object or an array;
  \<open>express.urlencoded\<close> checks the same limit.\<close>

definition parse_body :: "http_req \<Rightarrow> (nat \<times> string) + jval" where
  "parse_body r =
     (if hr_content r = CT_none then Inr (JObj [])
      else if body_limit < hr_body_len r then Inl too_large
      else if hr_body_len r = 0 then Inr (JObj [])
      else (case hr_body_val r of
              None \<Rightarrow> Inl (400, ''Unexpected token in JSON'')
            | Some (JObj kvs) \<Rightarrow> Inr (JObj kvs)
            | Some (JArr vs) \<Rightarrow> Inr (JArr vs)
            | Some _ \<Rightarrow> Inl (400, ''Unexpected token in JSON'')))"

definition to_request :: "http_req \<Rightarrow> request" where
  "to_request r = \<lparr>req_method = hr_method r, req_path = hr_path r, req_auth = hr_auth r\<rparr>"

definition is_webhook :: "http_req \<Rightarrow> bool" where
  "is_webhook r \<longleftrightarrow> hr_method r = POST \<and> match_full [Lit ''webhook-checkout''] (hr_path r) \<noteq> None"

text \<open>hpp also rewrites \<open>req.body\<close> when the body is urlencoded (its
  \<open>checkBody\<close> default), with the same whitelist.\<close>

fun hpp_body :: "content_type \<Rightarrow> jval \<Rightarrow> jval" where
  "hpp_body CT_form (JObj kvs) = JObj (hpp_query hpp_whitelist kvs)"
| "hpp_body _ v = v"

definition app_stack ::
  "layer list \<Rightarrow> layer list \<Rightarrow> timestamp \<Rightarrow> string \<Rightarrow>
   http_req \<Rightarrow> limiter \<Rightarrow> (response \<times> ctl_input option) \<times> limiter" where
  "app_stack views bookings now ip r st =
     (if hr_method r = OPTIONS then ((Sent ''cors'' [] [], None), st)
      else (case api_limiter now ip (url_of (hr_path r)) st of
        (TooMany msg, st') \<Rightarrow> ((Failed 429 msg, None), st')
      | (Pass, st') \<Rightarrow>
          if is_webhook r then
            (if hr_content r = CT_json \<and> raw_limit < hr_body_len r
             then ((Failed (fst too_large) (snd too_large), None), st')
             else ((app_route views bookings (to_request r), None), st'))
          else (case parse_body r of
            Inl (c, m) \<Rightarrow> ((Failed c m, None), st')
          | Inr b \<Rightarrow>
              (case (xss_clean (mongo_sanitize b), app_query (hr_query r)) of
                 (Inr b', Inr q) \<Rightarrow>
                   ((app_route views bookings (to_request r),
                     Some \<lparr>ci_query = q, ci_body = hpp_body (hr_content r) b', ci_time = now\<rparr>), st')
               | _ \<Rightarrow> ((Failed 400 ''Unexpected token in JSON'', None), st')))))"

section \<open>Lemmas\<close>

lemma in_html_data_not_bad: "\<not> bad_key k \<Longrightarrow> \<not> bad_key (in_html_data k)"
proof -
  assume nb: "\<not> bad_key k"
  have "CHR ''.'' \<notin> set (in_html_data k)"
    using nb by (auto simp: bad_key_def in_html_data_def xss_char_def split: if_splits)
  moreover have "\<not> (in_html_data k \<noteq> [] \<and> hd (in_html_data k) = CHR ''$'')"
    using html_keeps_no_dollar [OF no_dollar_not_bad [OF nb]] .
  ultimately show ?thesis by (simp add: bad_key_def)
qed

lemma xss_clean_keys:
  assumes "jkeys (\<lambda>k. \<not> bad_key k) v" and "xss_clean v = Inr v'"
  shows "jkeys (\<lambda>k. \<not> bad_key k) v'"
proof -
  have "v' = jnorm (jmap_str in_html_data v)"
    using assms(2) unfolding xss_clean_def xss_text_json_of json_parse_json_of by simp
  then show ?thesis
    using jkeys_jnorm(1) [OF jkeys_jmap(1) [where Q = "\<lambda>k. \<not> bad_key k" and f = in_html_data, OF assms(1) in_html_data_not_bad]] by simp
qed

lemma app_query_keys:
  assumes "app_query qs = Inr q"
  shows "jkeys_members (\<lambda>k. \<not> bad_key k) q"
proof -
  have "jkeys_members (\<lambda>k. \<not> bad_key k) (jnorm_members (jmap_members in_html_data (sanitize_members qs)))"
    using jkeys_jnorm(3) [OF jkeys_jmap(3) [where Q = "\<lambda>k. \<not> bad_key k" and f = in_html_data, OF jkeys_sanitize(3) in_html_data_not_bad]] .
  then have "jkeys_members (\<lambda>k. \<not> bad_key k)
               (obj_of_pairs (jnorm_members (jmap_members in_html_data (sanitize_members qs))))"
    by (rule jkeys_members_subset [OF set_obj_of_pairs])
  then have "jkeys_members (\<lambda>k. \<not> bad_key k) (hpp_query hpp_whitelist
               (obj_of_pairs (jnorm_members (jmap_members in_html_data (sanitize_members qs)))))"
    by (rule jkeys_hpp)
  then show ?thesis using assms by (simp add: app_query_eq)
qed

lemma hpp_body_keys: "jkeys P v \<Longrightarrow> jkeys P (hpp_body c v)"
  by (cases "(c, v)" rule: hpp_body.cases) (simp_all add: jkeys_hpp)

section \<open>Properties of the pipeline\<close>

text \<open>C28. Whatever the request and the limiter's state, a controller that answers it
  through the whole stack receives a body of at most 10 kB (unless the request had none)
  and a body and a query in which no key, at any depth, starts with \<open>$\<close> or contains a dot,
  together with the request time; and it is the controller the routers dispatch to.\<close>

theorem app_stack_controller_input:
  assumes "app_stack views bookings now ip r st = ((Sent h tr ps, Some ci), st')"
  shows "(hr_content r = CT_none \<or> hr_body_len r \<le> body_limit) \<and>
         jkeys (\<lambda>k. \<not> bad_key k) (ci_body ci) \<and> jkeys_members (\<lambda>k. \<not> bad_key k) (ci_query ci) \<and>
         ci_time ci = now \<and> app_route views bookings (to_request r) = Sent h tr ps"
proof -
  from assms obtain b b' q where
    nw: "hr_method r \<noteq> OPTIONS" "\<not> is_webhook r" and pb: "parse_body r = Inr b"
    and x: "xss_clean (mongo_sanitize b) = Inr b'" and aq: "app_query (hr_query r) = Inr q"
    and ci: "ci = \<lparr>ci_query = q, ci_body = hpp_body (hr_content r) b', ci_time = now\<rparr>"
    and rt: "app_route views bookings (to_request r) = Sent h tr ps"
    by (auto simp: app_stack_def split: if_splits prod.splits limit_outcome.splits sum.splits)
  have "hr_content r = CT_none \<or> hr_body_len r \<le> body_limit"
    using pb by (auto simp: parse_body_def split: if_splits)
  moreover have "jkeys (\<lambda>k. \<not> bad_key k) (ci_body ci)"
    using hpp_body_keys [OF xss_clean_keys [OF jkeys_sanitize(1) x]] ci by simp
  moreover have "jkeys_members (\<lambda>k. \<not> bad_key k) (ci_query ci)"
    using app_query_keys [OF aq] ci by simp
  ultimately show ?thesis using ci rt by simp
qed

theorem app_stack_controller_input_witness:
  "app_stack [] [] 5 ''a''
     \<lparr>hr_method = GET, hr_path = [''api'', ''v1'', ''tours''], hr_auth = None,
      hr_query = [(''price'', JObj [(''$where'', JStr ''1'')])], hr_content = CT_none, hr_body_len = 0,
      hr_body_val = None\<rparr> (limiter_init 0) =
   ((Sent ''tourController.getAllTours'' [] [],
     Some \<lparr>ci_query = [(''price'', JObj [])], ci_body = JObj [], ci_time = 5\<rparr>),
    (limiter_init 0)\<lparr>hits := (\<lambda>_. 0)(''a'' := 1)\<rparr>) \<and>
   jkeys_members (\<lambda>k. \<not> bad_key k) [(''price'', JObj [])]"
proof -
  have x: "xss_clean (JObj []) = Inr (JObj [])"
    unfolding xss_clean_def xss_text_json_of json_parse_json_of by (simp add: obj_of_pairs_def)
  have e: "app_stack [] [] 5 ''a''
     \<lparr>hr_method = GET, hr_path = [''api'', ''v1'', ''tours''], hr_auth = None,
      hr_query = [(''price'', JObj [(''$where'', JStr ''1'')])], hr_content = CT_none, hr_body_len = 0,
      hr_body_val = None\<rparr> (limiter_init 0) =
   ((Sent ''tourController.getAllTours'' [] [],
     Some \<lparr>ci_query = [(''price'', JObj [])], ci_body = JObj [], ci_time = 5\<rparr>),
    (limiter_init 0)\<lparr>hits := (\<lambda>_. 0)(''a'' := 1)\<rparr>)"
    by (simp add: app_stack_def is_webhook_def parse_body_def to_request_def route_eval mw_eval x
      api_limiter_def path_mounted_def limiter_request_def limiter_init_def window_ms_def limiter_max_def)
  show ?thesis using app_stack_controller_input [OF e] e by simp
qed

end
