(* ===== verification/Tour_Create.thy ===== *)
theory Tour_Create
  imports Review_Model
begin

text \<open>
  Creating a tour, \<open>Tour.create(body)\<close> on the model of \<open>src/models/tourModel.js\<close>: the
  casting of the body (the \<open>trim\<close> option, the defaults of \<open>ratingsAverage\<close>,
  \<open>ratingsQuantity\<close>, \<open>createdAt\<close>, \<open>secretTour\<close> and the GeoJSON \<open>type\<close>, the
  setter of \<open>ratingsAverage\<close>), the schema's validators path by path, the
  \<open>pre('save')\<close> hook that sets the slug with \<open>slugify(name, { lower: true })\<close>, and
  the insert under the unique index on \<open>name\<close>. The invariant \<open>tours_wf\<close> is what the
  schema promises of every stored tour; \<open>tour_create\<close> preserves it on every branch.
  \<open>slugify\<close> is the library's algorithm on ASCII text (a byte outside ASCII is one of
  the characters it removes).
\<close>

section \<open>slugify\<close>

text \<open>The entries of slugify's \<open>charMap\<close> for ASCII characters.\<close>

definition slug_charmap :: "char \<Rightarrow> string option" where
  "slug_charmap c =
     (if c = CHR ''$'' then Some ''dollar''
      else if c = CHR ''%'' then Some ''percent''
      else if c = CHR ''&'' then Some ''and''
      else if c = CHR ''<'' then Some ''less''
      else if c = CHR ''>'' then Some ''greater''
      else if c = CHR ''|'' then Some ''or''
      else None)"

text \<open>The characters the default \<open>remove\<close> pattern \<open>/[^\w\s$*_+~.()'"!\-:@]+/g\<close> keeps.\<close>

definition slug_allowed :: "char \<Rightarrow> bool" where
  "slug_allowed c \<longleftrightarrow>
     (let n = of_char c :: nat in
      (48 \<le> n \<and> n \<le> 57) \<or> (65 \<le> n \<and> n \<le> 90) \<or> (97 \<le> n \<and> n \<le> 122) \<or> js_space c \<or>
      n \<in> {36, 42, 95, 43, 126, 46, 40, 41, 39, 34, 33, 45, 58, 64})"

text \<open>One step of the \<open>reduce\<close>: the character's replacement, the replacement character
  \<open>-\<close> itself turned into a space, and the removal of the characters not kept.\<close>

definition slug_char :: "char \<Rightarrow> string" where
  "slug_char c =
     filter slug_allowed
       (let a = (case slug_charmap c of Some r \<Rightarrow> r | None \<Rightarrow> [c]) in
        if a = ''-'' then '' '' else a)"

text \<open>\<open>slug.replace(/\s+/g, replacement)\<close>: every run of white space becomes one
  \<open>-\<close>; the flag tells whether the previous character was white space.\<close>

fun ws_to_dash :: "bool \<Rightarrow> string \<Rightarrow> string" where
  "ws_to_dash b [] = []"
| "ws_to_dash b (c # cs) =
     (if js_space c then (if b then ws_to_dash True cs else CHR ''-'' # ws_to_dash True cs)
      else c # ws_to_dash False cs)"

text \<open>\<open>toLowerCase\<close> on an ASCII character.\<close>

definition js_lower :: "char \<Rightarrow> char" where
  "js_lower c =
     (if 65 \<le> (of_char c :: nat) \<and> (of_char c :: nat) \<le> 90 then char_of (of_char c + (32 :: nat)) else c)"

text \<open>\<open>slugify(string, { lower: true })\<close>: map and filter every character, \<open>trim\<close>,
  replace white space by \<open>-\<close>, lower the case.\<close>

definition slugify_lower :: "string \<Rightarrow> string" where
  "slugify_lower s = map js_lower (ws_to_dash False (trim_js (concat (map slug_char s))))"

section \<open>The request body and its casting\<close>

text \<open>A GeoJSON point as the body gives it: every path may be absent.\<close>

record geo_input =
  gi_type :: "string option"
  gi_coordinates :: "rat list"
  gi_address :: "string option"
  gi_description :: "string option"
  gi_day :: "rat option"

text \<open>The body of \<open>Tour.create\<close>, one optional value per path of \<open>tourSchema\<close> (a
  \<open>slug\<close> in the body is overwritten by the hook, and paths outside the schema are
  dropped by strict mode, so neither is represented).\<close>

record tour_input =
  ti_name :: "string option"
  ti_duration :: "rat option"
  ti_maxGroupSize :: "rat option"
  ti_difficulty :: "string option"
  ti_ratingsAverage :: "rat option"
  ti_ratingsQuantity :: "nat option"
  ti_price :: "rat option"
  ti_priceDiscount :: "rat option"
  ti_summary :: "string option"
  ti_description :: "string option"
  ti_imageCover :: "string option"
  ti_images :: "string list"
  ti_createdAt :: "timestamp option"
  ti_startDates :: "timestamp list"
  ti_secretTour :: "bool option"
  ti_startLocation :: geo_input
  ti_locations :: "geo_input list"
  ti_guides :: "oid list"

text \<open>The \<open>type\<close> path of a point defaults to \<open>'Point'\<close>; \<open>startLocation\<close> has no
  \<open>day\<close>.\<close>

definition cast_geo :: "geo_input \<Rightarrow> geo_location" where
  "cast_geo g =
     \<lparr>loc_type = upd_opt (gi_type g) ''Point'', coordinates = gi_coordinates g,
      address = gi_address g, loc_description = gi_description g, day = gi_day g\<rparr>"

definition cast_start :: "geo_input \<Rightarrow> geo_location" where
  "cast_start g = (cast_geo g)\<lparr>day := None\<rparr>"

text \<open>The cast value of the \<open>difficulty\<close> string, when it is one of the enum's values.\<close>

definition difficulty_of :: "string \<Rightarrow> difficulty option" where
  "difficulty_of s =
     (if s = ''easy'' then Some Easy else if s = ''medium'' then Some Medium
      else if s = ''difficult'' then Some Difficult else None)"

text \<open>\<open>ratingsAverage\<close> after casting: the default 4.5 or the body's value, through the
  setter.\<close>

definition cast_ratingsAverage :: "tour_input \<Rightarrow> rat" where
  "cast_ratingsAverage inp = set_ratingsAverage (upd_opt (ti_ratingsAverage inp) (9 / 2))"

section \<open>The validators of tourSchema\<close>

text \<open>A required string with \<open>maxLength\<close> and \<open>minLength\<close> (the empty string fails
  \<open>required\<close>); the value is the one cast, trimmed where the path has \<open>trim\<close>.\<close>

definition str_error :: "nat \<Rightarrow> nat \<Rightarrow> string option \<Rightarrow> validator_kind option" where
  "str_error hi lo v =
     (case v of
        None \<Rightarrow> Some Required
      | Some s \<Rightarrow> if s = [] then Some Required
                else if hi < length s then Some MaxLength
                else if length s < lo then Some MinLength
                else None)"

definition required_error :: "'a option \<Rightarrow> validator_kind option" where
  "required_error v = (case v of None \<Rightarrow> Some Required | Some _ \<Rightarrow> None)"

definition required_str_error :: "string option \<Rightarrow> validator_kind option" where
  "required_str_error v = (case v of None \<Rightarrow> Some Required | Some s \<Rightarrow> if s = [] then Some Required else None)"

definition difficulty_error :: "string option \<Rightarrow> validator_kind option" where
  "difficulty_error v =
     (case v of
        None \<Rightarrow> Some Required
      | Some s \<Rightarrow> if s = [] then Some Required else if difficulty_of s = None then Some Enum else None)"

definition range_error :: "rat \<Rightarrow> validator_kind option" where
  "range_error x = (if x < 1 then Some Min else if 5 < x then Some Max else None)"

text \<open>\<open>validator: function (val) { return val < this.price; }\<close>: not run on an absent
  value; with no price, \<open>val < undefined\<close> is false.\<close>

definition discount_error :: "rat option \<Rightarrow> rat option \<Rightarrow> validator_kind option" where
  "discount_error pd p =
     (case pd of
        None \<Rightarrow> None
      | Some v \<Rightarrow> (case p of Some q \<Rightarrow> if v < q then None else Some User_defined | None \<Rightarrow> Some User_defined))"

definition point_error :: "geo_location \<Rightarrow> validator_kind option" where
  "point_error g = (if loc_type g = ''Point'' then None else Some Enum)"

text \<open>The decimal text of an array index, as in the path \<open>locations.0.type\<close>.\<close>

fun index_str :: "nat \<Rightarrow> string" where
  "index_str n = (if n < 10 then [char_of (48 + n)] else index_str (n div 10) @ [char_of (48 + n mod 10)])"

definition tour_errors :: "tour_input \<Rightarrow> (string \<times> validator_kind) list" where
  "tour_errors inp =
     path_errors
       ([(''name'', str_error 40 10 (map_option trim_js (ti_name inp))),
         (''duration'', required_error (ti_duration inp)),
         (''maxGroupSize'', required_error (ti_maxGroupSize inp)),
         (''difficulty'', difficulty_error (ti_difficulty inp)),
         (''ratingsAverage'', range_error (cast_ratingsAverage inp)),
         (''price'', required_error (ti_price inp)),
         (''priceDiscount'', discount_error (ti_priceDiscount inp) (ti_price inp)),
         (''summary'', required_str_error (map_option trim_js (ti_summary inp))),
         (''imageCover'', required_str_error (ti_imageCover inp)),
         (''startLocation.type'', point_error (cast_start (ti_startLocation inp)))] @
        map (\<lambda>(i, g). (''locations.'' @ index_str i @ ''.type'', point_error (cast_geo g)))
          (enumerate 0 (ti_locations inp)))"

section \<open>Tour.create\<close>

text \<open>The document \<open>new Tour(body)\<close> builds, when the required paths are present and
  the difficulty is one of the enum's values: a fresh \<open>_id\<close>, the cast values and the
  defaults (\<open>createdAt\<close> is the instant the schema was built, like the review's).\<close>

definition new_tour :: "tour_input \<Rightarrow> oid \<Rightarrow> timestamp \<Rightarrow> tour_doc option" where
  "new_tour inp i t0 =
     (case (ti_name inp, ti_duration inp, ti_maxGroupSize inp, Option.bind (ti_difficulty inp) difficulty_of,
            ti_price inp, ti_summary inp, ti_imageCover inp) of
        (Some n, Some du, Some g, Some df, Some p, Some sm, Some ic) \<Rightarrow>
          Some \<lparr>tour_id = i, name = trim_js n, slug = None, duration = du, maxGroupSize = g,
                difficulty = df, ratingsAverage = cast_ratingsAverage inp,
                ratingsQuantity = upd_opt (ti_ratingsQuantity inp) 0, price = p,
                priceDiscount = ti_priceDiscount inp, summary = trim_js sm,
                description = map_option trim_js (ti_description inp), imageCover = ic,
                images = ti_images inp, tour_createdAt = upd_opt (ti_createdAt inp) t0,
                startDates = ti_startDates inp, secretTour = upd_opt (ti_secretTour inp) False,
                startLocation = cast_start (ti_startLocation inp),
                locations = map cast_geo (ti_locations inp), guides = ti_guides inp\<rparr>
      | _ \<Rightarrow> None)"

text \<open>\<open>tourSchema.pre('save', ...)\<close>: \<open>this.slug = slugify(this.name, { lower: true })\<close>.\<close>

definition tour_pre_save :: "tour_doc \<Rightarrow> tour_doc" where
  "tour_pre_save d = d\<lparr>slug := Some (slugify_lower (name d))\<rparr>"

text \<open>The insert, under the unique index on \<open>name\<close> (an index ignores the query
  middleware: secret tours count too).\<close>

definition tour_insert :: "tour_doc \<Rightarrow> db \<Rightarrow> error + db" where
  "tour_insert d st =
     (if list_ex (\<lambda>t. name t = name d) (tours st) then Inl DuplicateKey
      else Inr (st\<lparr>tours := tours st @ [d]\<rparr>))"

text \<open>\<open>Tour.create(body)\<close>: the ObjectId is drawn when the document is built; validation
  runs first among the \<open>save\<close> hooks, then the slug hook, then the insert.\<close>

definition tour_create :: "tour_input \<Rightarrow> db \<Rightarrow> (error + tour_doc) \<times> db" where
  "tour_create inp st =
     (let st0 = st\<lparr>next_id := Suc (next_id st)\<rparr>; errs = tour_errors inp in
      case new_tour inp (next_id st) (load_time st) of
        None \<Rightarrow> (Inl (ValidationError errs), st0)
      | Some d \<Rightarrow>
          if errs \<noteq> [] then (Inl (ValidationError errs), st0)
          else (let d' = tour_pre_save d in
                case tour_insert d' st0 of
                  Inl e \<Rightarrow> (Inl e, st0)
                | Inr st1 \<Rightarrow> (Inr d', st1)))"

section \<open>The invariant of the tours collection\<close>

text \<open>What the schema promises of a tour it has saved: the name trimmed, of 10 to 40
  characters, the rating cache within \<open>min\<close>/\<open>max\<close>, the discount below the price,
  points of type \<open>'Point'\<close>, and the slug of the name.\<close>

definition tour_valid :: "tour_doc \<Rightarrow> bool" where
  "tour_valid d \<longleftrightarrow>
     trim_js (name d) = name d \<and> 10 \<le> length (name d) \<and> length (name d) \<le> 40 \<and>
     1 \<le> ratingsAverage d \<and> ratingsAverage d \<le> 5 \<and>
     (case priceDiscount d of None \<Rightarrow> True | Some v \<Rightarrow> v < price d) \<and>
     loc_type (startLocation d) = ''Point'' \<and> list_all (\<lambda>g. loc_type g = ''Point'') (locations d) \<and>
     slug d = Some (slugify_lower (name d))"

definition tours_wf :: "db \<Rightarrow> bool" where
  "tours_wf st \<longleftrightarrow>
     distinct (map tour_id (tours st)) \<and> list_all (\<lambda>t. tour_id t < next_id st) (tours st) \<and>
     distinct (map name (tours st)) \<and> list_all tour_valid (tours st)"

section \<open>An example body\<close>

text \<open>The first tour of the application's sample data, as a request body.\<close>

definition example_tour :: tour_input where
  "example_tour =
     \<lparr>ti_name = Some ''  The Forest Hiker '', ti_duration = Some 5, ti_maxGroupSize = Some 25,
      ti_difficulty = Some ''easy'', ti_ratingsAverage = None, ti_ratingsQuantity = None,
      ti_price = Some 397, ti_priceDiscount = Some 297,
      ti_summary = Some ''Breathtaking hike through the Canadian Banff National Park'',
      ti_description = None, ti_imageCover = Some ''tour-1-cover.jpg'', ti_images = [],
      ti_createdAt = None, ti_startDates = [], ti_secretTour = None,
      ti_startLocation = \<lparr>gi_type = None, gi_coordinates = [-116, 51], gi_address = None,
                          gi_description = Some ''Banff, CAN'', gi_day = None\<rparr>,
      ti_locations = [\<lparr>gi_type = Some ''Point'', gi_coordinates = [-116, 51], gi_address = None,
                        gi_description = Some ''Banff National Park'', gi_day = Some 1\<rparr>],
      ti_guides = []\<rparr>"

section \<open>Lemmas: slugify\<close>


lemma of_char_js_lower:
  "(of_char (js_lower c) :: nat) = (if 65 \<le> (of_char c :: nat) \<and> (of_char c :: nat) \<le> 90 then of_char c + 32 else of_char c)"
  by (simp add: js_lower_def)

lemma char_eq_of_char: "c = d \<longleftrightarrow> (of_char c :: nat) = of_char d"
  by (metis char_of_char)

lemma js_lower_space [simp]: "js_space (js_lower c) = js_space c"
  by (simp add: js_space_def of_char_js_lower)

lemma js_lower_idem [simp]: "js_lower (js_lower c) = js_lower c"
  by (simp add: char_eq_of_char of_char_js_lower)

lemma js_lower_dash [simp]: "js_lower c = CHR ''-'' \<longleftrightarrow> c = CHR ''-''"
  by (simp add: char_eq_of_char of_char_js_lower)

lemma js_lower_allowed: "slug_allowed c \<Longrightarrow> slug_allowed (js_lower c)"
  by (simp add: slug_allowed_def of_char_js_lower js_space_def Let_def)

lemma js_lower_charmap: "slug_charmap c = None \<Longrightarrow> slug_charmap (js_lower c) = None"
  by (simp add: slug_charmap_def char_eq_of_char of_char_js_lower split: if_splits)

lemma slug_char_chars:
  "x \<in> set (slug_char c) \<Longrightarrow> slug_allowed x \<and> slug_charmap x = None \<and> x \<noteq> CHR ''-''"
  by (auto simp: slug_char_def slug_charmap_def split: if_splits option.splits)

lemma slug_char_plain:
  "slug_allowed c \<Longrightarrow> slug_charmap c = None \<Longrightarrow> slug_char c = [if c = CHR ''-'' then CHR '' '' else c]"
  by (auto simp: slug_char_def slug_allowed_def js_space_def)

lemma ws_to_dash_chars: "x \<in> set (ws_to_dash b u) \<Longrightarrow> x = CHR ''-'' \<or> (x \<in> set u \<and> \<not> js_space x)"
  by (induction b u rule: ws_to_dash.induct) (auto split: if_splits)

lemma ws_to_dash_no_space: "x \<in> set (ws_to_dash b u) \<Longrightarrow> \<not> js_space x"
  using ws_to_dash_chars [of x b u] by (auto simp: js_space_def)

lemma ws_to_dash_map:
  assumes "\<And>c. js_space (f c) = js_space c" and "f (CHR ''-'') = CHR ''-''"
  shows "ws_to_dash b (map f u) = map f (ws_to_dash b u)"
  by (induction b u rule: ws_to_dash.induct) (simp_all add: assms)

lemma ws_to_dash_resquash:
  "\<forall>c\<in>set u. c \<noteq> CHR ''-'' \<Longrightarrow>
   ws_to_dash b (map (\<lambda>c. if c = CHR ''-'' then CHR '' '' else c) (ws_to_dash b u)) = ws_to_dash b u"
  by (induction b u rule: ws_to_dash.induct) (auto simp: js_space_def)

lemma ws_to_dash_last:
  "u \<noteq> [] \<Longrightarrow> \<not> js_space (last u) \<Longrightarrow> ws_to_dash b u \<noteq> [] \<and> last (ws_to_dash b u) = last u"
  by (induction b u rule: ws_to_dash.induct) (auto split: if_splits)

lemma concat_slug_char_plain:
  "list_all (\<lambda>c. slug_allowed c \<and> slug_charmap c = None) t \<Longrightarrow>
   concat (map slug_char t) = map (\<lambda>c. if c = CHR ''-'' then CHR '' '' else c) t"
  by (induction t) (simp_all add: slug_char_plain)

lemma slug_chars_text:
  assumes "x \<in> set (trim_js (concat (map slug_char s)))"
  shows "slug_allowed x \<and> slug_charmap x = None \<and> x \<noteq> CHR ''-''"
  using assms set_trim_js slug_char_chars by fastforce

text \<open>The text after the replacement by \<open>-\<close>, before the case is lowered.\<close>

lemma dash_plain: "slug_allowed (CHR ''-'') \<and> slug_charmap (CHR ''-'') = None \<and> \<not> js_space (CHR ''-'')"
  by (simp add: slug_allowed_def slug_charmap_def js_space_def)

lemma slug_dashed_chars:
  assumes "x \<in> set (ws_to_dash False (trim_js (concat (map slug_char s))))"
  shows "slug_allowed x \<and> slug_charmap x = None \<and> \<not> js_space x"
proof -
  have "x = CHR ''-'' \<or> x \<in> set (trim_js (concat (map slug_char s)))"
    using ws_to_dash_chars [OF assms] by blast
  then show ?thesis
  proof
    assume "x = CHR ''-''" then show ?thesis using dash_plain by simp
  next
    assume "x \<in> set (trim_js (concat (map slug_char s)))"
    then show ?thesis using slug_chars_text ws_to_dash_no_space [OF assms] by blast
  qed
qed

lemma slug_dashed_ends:
  assumes "ws_to_dash False (trim_js (concat (map slug_char s))) \<noteq> []"
  shows "hd (ws_to_dash False (trim_js (concat (map slug_char s)))) \<noteq> CHR ''-'' \<and>
         last (ws_to_dash False (trim_js (concat (map slug_char s)))) \<noteq> CHR ''-''"
proof -
  define u where "u = trim_js (concat (map slug_char s))"
  have une: "u \<noteq> []" using assms by (auto simp: u_def)
  have ends: "\<not> js_space (hd u) \<and> \<not> js_space (last u)" using trim_js_ends une by (simp add: u_def)
  have hu: "hd u \<noteq> CHR ''-''" "last u \<noteq> CHR ''-''"
    using slug_chars_text [of "hd u" s] slug_chars_text [of "last u" s] une by (simp_all add: u_def)
  have "hd (ws_to_dash False u) \<noteq> CHR ''-''"
    using une ends hu(1) by (cases u) simp_all
  moreover have "last (ws_to_dash False u) = last u" using ws_to_dash_last une ends by blast
  ultimately show ?thesis using hu(2) by (simp add: u_def)
qed

lemma js_lower_dash_space: "js_lower (if c = CHR ''-'' then CHR '' '' else c) = (if js_lower c = CHR ''-'' then CHR '' '' else js_lower c)"
  by (cases "c = CHR ''-''") (simp add: js_lower_def, simp)

lemma slugify_lower_fixed: "slugify_lower (slugify_lower s) = slugify_lower s"
proof -
  define u where "u = trim_js (concat (map slug_char s))"
  define v where "v = ws_to_dash False u"
  define d where "d = (\<lambda>c. if c = CHR ''-'' then CHR '' '' else c)"
  have sl: "slugify_lower s = map js_lower v" by (simp add: slugify_lower_def u_def v_def)
  have plain: "list_all (\<lambda>c. slug_allowed c \<and> slug_charmap c = None) (map js_lower v)"
    unfolding list_all_iff set_map
  proof
    fix y assume "y \<in> js_lower ` set v"
    then obtain x where x: "x \<in> set v" and y: "y = js_lower x" by blast
    have "slug_allowed x \<and> slug_charmap x = None"
      using slug_dashed_chars [of x s] x by (simp add: v_def u_def)
    then show "slug_allowed y \<and> slug_charmap y = None"
      by (simp add: y js_lower_allowed js_lower_charmap)
  qed
  have nodash: "\<forall>c\<in>set u. c \<noteq> CHR ''-''"
  proof
    fix c assume "c \<in> set u"
    then show "c \<noteq> CHR ''-''" using slug_chars_text [of c s] by (simp add: u_def)
  qed
  have comm: "map d (map js_lower v) = map js_lower (map d v)"
    by (simp add: d_def js_lower_dash_space del: js_lower_dash)
  have ends: "map d v \<noteq> [] \<Longrightarrow> \<not> js_space (hd (map d v)) \<and> \<not> js_space (last (map d v))"
  proof -
    assume ne: "map d v \<noteq> []"
    then have vne: "v \<noteq> []" by simp
    then have "hd v \<noteq> CHR ''-''" "last v \<noteq> CHR ''-''"
      using slug_dashed_ends [of s] unfolding v_def u_def by simp_all
    moreover have "\<not> js_space (hd v)" "\<not> js_space (last v)"
      using vne ws_to_dash_no_space [of "hd v" False u] ws_to_dash_no_space [of "last v" False u]
      unfolding v_def by simp_all
    ultimately show ?thesis using vne by (simp add: d_def hd_map last_map)
  qed
  have cc: "concat (map slug_char (map js_lower v)) = map js_lower (map d v)"
    using concat_slug_char_plain [OF plain] comm unfolding d_def by (rule trans)
  have "slugify_lower (slugify_lower s) = map js_lower (ws_to_dash False (trim_js (map js_lower (map d v))))"
    unfolding sl slugify_lower_def [of "map js_lower v"] cc ..
  also have "\<dots> = map js_lower (ws_to_dash False (map d v))"
  proof -
    have t1: "trim_js (map js_lower (map d v)) = map js_lower (trim_js (map d v))"
      by (rule trim_js_map) simp
    have t2: "ws_to_dash False (map js_lower (map d v)) = map js_lower (ws_to_dash False (map d v))"
      by (rule ws_to_dash_map) simp_all
    have t0: "trim_js (map d v) = map d v"
    proof (cases "map d v = []")
      case False
      then show ?thesis using ends by (intro trim_js_id) simp_all
    qed (simp add: trim_js_def)
    have t3: "\<And>X. map js_lower (map js_lower X) = map js_lower X" by simp
    show ?thesis by (simp only: t1 t0 t2 t3)
  qed
  also have "\<dots> = map js_lower v" using ws_to_dash_resquash [OF nodash] by (simp add: v_def d_def)
  finally show ?thesis by (simp add: sl)
qed

section \<open>Lemmas: validation and creation\<close>

lemma path_errors_Nil: "path_errors ps = [] \<longleftrightarrow> list_all (\<lambda>x. snd x = None) ps"
  by (induction ps) (auto simp: path_errors_def split: option.splits)

lemma list_all_enumerate_errors:
  "list_all (\<lambda>x. snd x = None) (map (\<lambda>(i, g). (f i, h g)) (enumerate n xs)) \<longleftrightarrow> list_all (\<lambda>g. h g = None) xs"
  by (induction xs arbitrary: n) simp_all

lemma tour_errors_Nil:
  "tour_errors inp = [] \<longleftrightarrow>
     str_error 40 10 (map_option trim_js (ti_name inp)) = None \<and> ti_duration inp \<noteq> None \<and>
     ti_maxGroupSize inp \<noteq> None \<and> difficulty_error (ti_difficulty inp) = None \<and>
     range_error (cast_ratingsAverage inp) = None \<and> ti_price inp \<noteq> None \<and>
     discount_error (ti_priceDiscount inp) (ti_price inp) = None \<and>
     required_str_error (map_option trim_js (ti_summary inp)) = None \<and>
     required_str_error (ti_imageCover inp) = None \<and>
     point_error (cast_start (ti_startLocation inp)) = None \<and>
     list_all (\<lambda>g. point_error (cast_geo g) = None) (ti_locations inp)"
  by (simp add: tour_errors_def path_errors_Nil list_all_enumerate_errors required_error_def split: option.splits)

lemma new_tour_exists: "tour_errors inp = [] \<Longrightarrow> \<exists>d. new_tour inp i t0 = Some d"
  by (auto simp: tour_errors_Nil new_tour_def str_error_def difficulty_error_def required_str_error_def
           split: option.splits if_splits)

lemma new_tour_fields:
  "new_tour inp i t0 = Some d \<Longrightarrow>
     tour_id d = i \<and> map_option trim_js (ti_name inp) = Some (name d) \<and>
     ratingsAverage d = cast_ratingsAverage inp \<and> priceDiscount d = ti_priceDiscount inp \<and>
     ti_price inp = Some (price d) \<and> startLocation d = cast_start (ti_startLocation inp) \<and>
     locations d = map cast_geo (ti_locations inp)"
  by (auto simp: new_tour_def split: option.splits)

lemma tour_valid_new:
  assumes "new_tour inp i t0 = Some d" and "tour_errors inp = []"
  shows "tour_valid (tour_pre_save d)"
proof -
  note f = new_tour_fields [OF assms(1)]
  note e = assms(2) [unfolded tour_errors_Nil]
  have "10 \<le> length (name d) \<and> length (name d) \<le> 40"
    using f e by (auto simp: str_error_def split: if_splits)
  moreover have "trim_js (name d) = name d" using f by (auto dest: sym)
  moreover have "1 \<le> ratingsAverage d \<and> ratingsAverage d \<le> 5"
    using f e by (auto simp: range_error_def split: if_splits)
  moreover have "case priceDiscount d of None \<Rightarrow> True | Some v \<Rightarrow> v < price d"
    using f e by (auto simp: discount_error_def split: option.splits if_splits)
  moreover have "loc_type (startLocation d) = ''Point'' \<and> list_all (\<lambda>g. loc_type g = ''Point'') (locations d)"
    using f e by (auto simp: point_error_def list_all_iff split: if_splits)
  ultimately show ?thesis by (simp add: tour_valid_def tour_pre_save_def split: option.splits)
qed

lemma tour_create_cases:
  assumes "tour_create inp st = (r, st')"
  obtains (invalid) "tour_errors inp \<noteq> []" "r = Inl (ValidationError (tour_errors inp))"
      "st' = st\<lparr>next_id := Suc (next_id st)\<rparr>"
  | (duplicate) d where "tour_errors inp = []" "new_tour inp (next_id st) (load_time st) = Some d"
      "list_ex (\<lambda>t. name t = name d) (tours st)" "r = Inl DuplicateKey"
      "st' = st\<lparr>next_id := Suc (next_id st)\<rparr>"
  | (created) d where "tour_errors inp = []" "new_tour inp (next_id st) (load_time st) = Some d"
      "\<not> list_ex (\<lambda>t. name t = name d) (tours st)" "r = Inr (tour_pre_save d)"
      "st' = st\<lparr>next_id := Suc (next_id st), tours := tours st @ [tour_pre_save d]\<rparr>"
proof (cases "tour_errors inp = []")
  case False
  then show ?thesis using assms invalid
    by (auto simp: tour_create_def Let_def split: option.splits)
next
  case True
  then obtain d where d: "new_tour inp (next_id st) (load_time st) = Some d"
    using new_tour_exists by blast
  show ?thesis
  proof (cases "list_ex (\<lambda>t. name t = name d) (tours st)")
    case dup: True
    then show ?thesis using assms True d duplicate
      by (simp add: tour_create_def tour_insert_def tour_pre_save_def)
  next
    case fresh: False
    then show ?thesis using assms True d created
      by (simp add: tour_create_def tour_insert_def tour_pre_save_def Let_def)
  qed
qed

lemma tours_wf_next_id:
  "tours_wf st \<Longrightarrow> db_wf st \<Longrightarrow>
   tours_wf (st\<lparr>next_id := Suc (next_id st)\<rparr>) \<and> db_wf (st\<lparr>next_id := Suc (next_id st)\<rparr>)"
  by (auto simp: tours_wf_def db_wf_def list_all_iff)

section \<open>Properties of tour creation\<close>

text \<open>C10. Creating a tour keeps the tours collection well formed, on every branch: unique
  identifiers below the id counter, unique names, and every stored tour valid for the schema
  (trimmed name of 10 to 40 characters, \<open>ratingsAverage\<close> in [1, 5], discount below the
  price, points of type \<open>'Point'\<close>, the slug of its name); the rest of the store stays
  well formed too. The creation succeeds exactly when the body passes every validator and
  no tour, secret ones included, has its trimmed name.\<close>

theorem tour_create_wf:
  assumes wf: "tours_wf st" and dw: "db_wf st" and tc: "tour_create inp st = (r, st')"
  shows "tours_wf st' \<and> db_wf st' \<and>
         ((\<exists>d. r = Inr d) \<longleftrightarrow> tour_errors inp = [] \<and>
            \<not> list_ex (\<lambda>t. map_option trim_js (ti_name inp) = Some (name t)) (tours st))"
  using tc
proof (cases rule: tour_create_cases)
  case invalid
  then show ?thesis using tours_wf_next_id [OF wf dw] by simp
next
  case (duplicate d)
  have nm: "map_option trim_js (ti_name inp) = Some (name d)" using new_tour_fields [OF duplicate(2)] by blast
  obtain t where "t \<in> set (tours st)" "name t = name d" using duplicate(3) by (auto simp: list_ex_iff)
  then have "list_ex (\<lambda>t. map_option trim_js (ti_name inp) = Some (name t)) (tours st)"
    unfolding nm list_ex_iff by (metis option.inject)
  then show ?thesis using tours_wf_next_id [OF wf dw] duplicate by simp
next
  case (created d)
  note f = new_tour_fields [OF created(2)]
  have fresh: "tour_id d \<notin> tour_id ` set (tours st)" using wf f by (auto simp: tours_wf_def list_all_iff)
  have "tours_wf st'"
    using wf created(3,5) fresh tour_valid_new [OF created(2,1)] f
    by (auto simp: tours_wf_def list_all_iff list_ex_iff tour_pre_save_def)
  moreover have "db_wf st'"
    using dw created(5) fresh by (auto simp: db_wf_def list_all_iff tour_pre_save_def)
  moreover have "\<not> list_ex (\<lambda>t. map_option trim_js (ti_name inp) = Some (name t)) (tours st)"
    using created(3) f by (auto simp: list_ex_iff)
  ultimately show ?thesis using created by simp
qed

theorem tour_create_wf_witness:
  "tours_wf \<lparr>reviews = [], tours = [], next_id = 1, load_time = 0\<rparr> \<and>
   tours_wf (snd (tour_create example_tour \<lparr>reviews = [], tours = [], next_id = 1, load_time = 0\<rparr>)) \<and>
   (\<exists>d. fst (tour_create example_tour \<lparr>reviews = [], tours = [], next_id = 1, load_time = 0\<rparr>) = Inr d)"
proof -
  have e: "tour_errors example_tour = []"
    by (simp add: tour_errors_Nil example_tour_def str_error_def trim_js_def js_space_def difficulty_error_def
                  difficulty_of_def cast_ratingsAverage_def range_error_def discount_error_def
                  required_str_error_def point_error_def cast_start_def cast_geo_def)
  have w: "tours_wf \<lparr>reviews = [], tours = [], next_id = 1, load_time = 0\<rparr>" by (simp add: tours_wf_def)
  have d: "db_wf \<lparr>reviews = [], tours = [], next_id = 1, load_time = 0\<rparr>" by (simp add: db_wf_def)
  show ?thesis using tour_create_wf [OF w d surjective_pairing] e w by simp
qed

text \<open>C31. The slug \<open>slugify(name, { lower: true })\<close> stores is a fixed point of the
  same call, has no white space and no upper-case letter, and neither starts nor ends with
  \<open>-\<close>.\<close>

theorem slugify_lower_slug:
  "slugify_lower (slugify_lower s) = slugify_lower s \<and>
   list_all (\<lambda>c. \<not> js_space c \<and> js_lower c = c) (slugify_lower s) \<and>
   (slugify_lower s \<noteq> [] \<longrightarrow> hd (slugify_lower s) \<noteq> CHR ''-'' \<and> last (slugify_lower s) \<noteq> CHR ''-'')"
proof (intro conjI impI)
  define v where "v = ws_to_dash False (trim_js (concat (map slug_char s)))"
  have sl: "slugify_lower s = map js_lower v" by (simp add: slugify_lower_def v_def)
  show "slugify_lower (slugify_lower s) = slugify_lower s" by (rule slugify_lower_fixed)
  show "list_all (\<lambda>c. \<not> js_space c \<and> js_lower c = c) (slugify_lower s)"
    using slug_dashed_chars [of _ s] by (auto simp: sl list_all_iff v_def)
  assume "slugify_lower s \<noteq> []"
  then have "v \<noteq> []" by (simp add: sl)
  then show "hd (slugify_lower s) \<noteq> CHR ''-''" "last (slugify_lower s) \<noteq> CHR ''-''"
    using slug_dashed_ends [of s] by (simp_all add: sl v_def hd_map last_map)
qed

theorem slugify_lower_slug_witness:
  "slugify_lower ''The Forest-Hiker & Co'' = ''the-forest-hiker-and-co'' \<and>
   slugify_lower ''the-forest-hiker-and-co'' = ''the-forest-hiker-and-co''"
proof -
  have e: "slugify_lower ''The Forest-Hiker & Co'' = ''the-forest-hiker-and-co''"
    by (simp add: slugify_lower_def slug_char_def slug_charmap_def slug_allowed_def js_space_def trim_js_def js_lower_def)
       (simp add: char_eq_of_char)
  show ?thesis using slugify_lower_slug [of "''The Forest-Hiker & Co''"] e by simp
qed

section \<open>Where the specification and the code part\<close>

text \<open>A \<open>ratingsAverage\<close> in the body that rounds above 5 is not clamped: the creation
  fails with a validation error on the path, and only the id counter moves.\<close>

lemma tour_create_rating_above_max:
  assumes "ti_ratingsAverage inp = Some x" and "5 < set_ratingsAverage x"
  shows "tour_create inp st = (Inl (ValidationError (tour_errors inp)), st\<lparr>next_id := Suc (next_id st)\<rparr>) \<and>
         (''ratingsAverage'', Max) \<in> set (tour_errors inp)"
proof -
  have "range_error (cast_ratingsAverage inp) = Some Max"
    using assms by (simp add: cast_ratingsAverage_def range_error_def)
  then have m: "(''ratingsAverage'', Max) \<in> set (tour_errors inp)"
    by (simp add: tour_errors_def path_errors_def)
  obtain r st' where tc: "tour_create inp st = (r, st')" by fastforce
  from tc show ?thesis
    by (cases rule: tour_create_cases) (use m tc in auto)
qed

text \<open>The slug is not a key: names the unique index tells apart can share a slug.\<close>

lemma slug_collision:
  "''The Forest Hiker'' \<noteq> ''the forest  hiker'' \<and>
   slugify_lower ''The Forest Hiker'' = ''the-forest-hiker'' \<and>
   slugify_lower ''the forest  hiker'' = ''the-forest-hiker''"
  by (simp add: slugify_lower_def slug_char_def slug_charmap_def slug_allowed_def js_space_def trim_js_def js_lower_def)
     (simp add: char_eq_of_char)

end
