(* ===== verification/Browser.thy ===== *)
theory Browser
  imports Js_Runtime
begin

text \<open>
  The two browser scripts of \<open>src/public/js\<close>, as the sequences of library calls they make.
  \<open>displayMap\<close> (\<open>mapbox.js\<close>) creates a map, adds a marker and a popup for every location
  and extends a \<open>LngLatBounds\<close> with its coordinates, then fits the map to the bounds.
  \<open>bookTour\<close> (\<open>stripe.js\<close>) fetches a checkout session from the API and redirects to
  Stripe's checkout; any exception thrown on the way is shown with \<open>showAlert\<close>. The
  libraries (mapbox-gl, axios, Stripe.js) are modelled by their documented behaviour: an
  empty \<open>LngLatBounds\<close> has no corners, so \<open>fitBounds\<close> on it throws a \<open>TypeError\<close>;
  axios rejects on a network error or a non-2xx status; \<open>redirectToCheckout\<close> either
  navigates away, resolves with an error object, or throws.
\<close>

section \<open>displayMap\<close>

type_synonym lnglat = "rat \<times> rat"

record location =
  coordinates :: lnglat
  day :: nat
  description :: string

datatype map_op =
    New_map | Add_marker lnglat | Add_popup lnglat string | Fit_bounds lnglat lnglat | Map_error string

text \<open>\<open>Number.prototype.toString\<close> on a non-negative integer.\<close>

function dec_string :: "nat \<Rightarrow> string" where
  "dec_string n = (if n < 10 then [char_of (48 + n)] else dec_string (n div 10) @ [char_of (48 + n mod 10)])"
  by pat_completeness auto
termination
  by (relation "measure id") auto

declare dec_string.simps [simp del]

definition popup_html :: "location \<Rightarrow> string" where
  "popup_html loc = ''<p>Day '' @ dec_string (day loc) @ '': '' @ description loc @ ''</p>''"

text \<open>\<open>LngLatBounds.extend\<close> with a point: the first point sets both corners, later
  points widen the south-west and north-east corners componentwise.\<close>

definition bounds_extend :: "lnglat \<Rightarrow> (lnglat \<times> lnglat) option \<Rightarrow> (lnglat \<times> lnglat) option" where
  "bounds_extend p b = (case b of
      None \<Rightarrow> Some (p, p)
    | Some ((w, s), (e, n)) \<Rightarrow> Some ((min (fst p) w, min (snd p) s), (max (fst p) e, max (snd p) n)))"

definition map_step :: "location \<Rightarrow> map_op list \<times> (lnglat \<times> lnglat) option \<Rightarrow>
                         map_op list \<times> (lnglat \<times> lnglat) option" where
  "map_step loc acc =
     (fst acc @ [Add_marker (coordinates loc), Add_popup (coordinates loc) (popup_html loc)],
      bounds_extend (coordinates loc) (snd acc))"

definition displayMap :: "location list \<Rightarrow> map_op list" where
  "displayMap locs =
     (let (ops, b) = fold map_step locs ([New_map], None)
      in ops @ [case b of
                  None \<Rightarrow> Map_error ''TypeError: Cannot read properties of undefined (reading 'lng')''
                | Some (sw, ne) \<Rightarrow> Fit_bounds sw ne])"

section \<open>bookTour\<close>

datatype http_result = Http_ok jval | Http_rejected string

datatype redirect_result = Navigated | Resolved_error string | Threw string

datatype ui_op = Get string | Redirect "jval option" | Navigate | Alert string string

definition checkout_url :: "string \<Rightarrow> string" where
  "checkout_url tourId = ''/api/v1/bookings/checkout-session/'' @ tourId"

text \<open>\<open>session.data.session\<close>: the body's \<open>session\<close> property (\<open>None\<close> is
  \<open>undefined\<close>), and \<open>.id\<close> of it.\<close>

definition session_of :: "jval \<Rightarrow> jval option" where
  "session_of body = (case body of JObj kvs \<Rightarrow> map_of kvs ''session'' | _ \<Rightarrow> None)"

definition session_id :: "jval \<Rightarrow> jval option" where
  "session_id s = (case s of JObj kvs \<Rightarrow> map_of kvs ''id'' | _ \<Rightarrow> None)"

definition bookTour :: "(string \<Rightarrow> http_result) \<Rightarrow> (jval option \<Rightarrow> redirect_result) \<Rightarrow> string \<Rightarrow> ui_op list" where
  "bookTour axios redirect tourId =
     Get (checkout_url tourId) #
     (case axios (checkout_url tourId) of
        Http_rejected e \<Rightarrow> [Alert ''error'' e]
      | Http_ok body \<Rightarrow>
          (case session_of body of
             None \<Rightarrow> [Alert ''error'' ''TypeError: Cannot read property 'id' of undefined'']
           | Some s \<Rightarrow>
               Redirect (session_id s) #
               (case redirect (session_id s) of
                  Navigated \<Rightarrow> [Navigate]
                | Resolved_error _ \<Rightarrow> []
                | Threw e \<Rightarrow> [Alert ''error'' e])))"

fun is_alert :: "ui_op \<Rightarrow> bool" where
  "is_alert (Alert _ _) = True"
| "is_alert _ = False"

fun is_marker :: "map_op \<Rightarrow> bool" where
  "is_marker (Add_marker _) = True"
| "is_marker _ = False"

section \<open>Lemmas\<close>

lemma fold_map_step:
  "fold map_step locs (ops, b) =
     (ops @ concat (map (\<lambda>loc. [Add_marker (coordinates loc), Add_popup (coordinates loc) (popup_html loc)]) locs),
      fold bounds_extend (map coordinates locs) b)"
  by (induction locs arbitrary: ops b) (simp_all add: map_step_def)

lemma Min_insert_min:
  "finite X \<Longrightarrow> linorder_class.Min (insert (min a w) X) = min w (linorder_class.Min (insert a X))"
  by (cases "X = {}") (simp_all add: min.commute min.left_commute min.assoc)

lemma Max_insert_max:
  "finite X \<Longrightarrow> linorder_class.Max (insert (max a e) X) = max e (linorder_class.Max (insert a X))"
  by (cases "X = {}") (simp_all add: max.commute max.left_commute max.assoc)

lemma fold_bounds_extend_Some:
  "fold bounds_extend ps (Some ((w, s), (e, n))) =
     Some ((linorder_class.Min (insert w (fst ` set ps)), linorder_class.Min (insert s (snd ` set ps))),
           (linorder_class.Max (insert e (fst ` set ps)), linorder_class.Max (insert n (snd ` set ps))))"
proof (induction ps arbitrary: w s e n)
  case (Cons p ps)
  then show ?case
    by (cases p) (simp add: bounds_extend_def Min_insert_min Max_insert_max)
qed simp

lemma fold_bounds_extend_None:
  "ps \<noteq> [] \<Longrightarrow> fold bounds_extend ps None =
     Some ((linorder_class.Min (fst ` set ps), linorder_class.Min (snd ` set ps)), (linorder_class.Max (fst ` set ps), linorder_class.Max (snd ` set ps)))"
  by (cases ps) (auto simp: bounds_extend_def fold_bounds_extend_Some)

lemma displayMap_fold:
  "displayMap locs =
     New_map # concat (map (\<lambda>loc. [Add_marker (coordinates loc), Add_popup (coordinates loc) (popup_html loc)]) locs) @
     [case fold bounds_extend (map coordinates locs) None of
        None \<Rightarrow> Map_error ''TypeError: Cannot read properties of undefined (reading 'lng')''
      | Some (sw, ne) \<Rightarrow> Fit_bounds sw ne]"
  by (simp add: displayMap_def fold_map_step)

lemma filter_markers:
  "filter is_marker (concat (map (\<lambda>loc. [Add_marker (coordinates loc), Add_popup (coordinates loc) (h loc)]) locs)) =
   map (\<lambda>loc. Add_marker (coordinates loc)) locs"
  by (induction locs) simp_all

section \<open>Properties of the browser scripts\<close>

text \<open>C20. \<open>displayMap\<close> adds one marker per location, in order, and fits the map to the
  tightest box holding every location: its south-west corner has the least longitude and
  latitude, its north-east corner the greatest. With no location the bounds stay empty and
  \<open>fitBounds\<close> throws a \<open>TypeError\<close> instead of fitting.\<close>

theorem displayMap_bounds:
  "filter is_marker (displayMap locs) = map (\<lambda>loc. Add_marker (coordinates loc)) locs \<and>
   (locs \<noteq> [] \<longrightarrow>
      last (displayMap locs) =
        Fit_bounds (linorder_class.Min (fst ` coordinates ` set locs), linorder_class.Min (snd ` coordinates ` set locs))
                   (linorder_class.Max (fst ` coordinates ` set locs), linorder_class.Max (snd ` coordinates ` set locs)) \<and>
      (\<forall>loc\<in>set locs.
         linorder_class.Min (fst ` coordinates ` set locs) \<le> fst (coordinates loc) \<and>
         fst (coordinates loc) \<le> linorder_class.Max (fst ` coordinates ` set locs) \<and>
         linorder_class.Min (snd ` coordinates ` set locs) \<le> snd (coordinates loc) \<and>
         snd (coordinates loc) \<le> linorder_class.Max (snd ` coordinates ` set locs))) \<and>
   (locs = [] \<longrightarrow>
      displayMap locs = [New_map, Map_error ''TypeError: Cannot read properties of undefined (reading 'lng')''])"
proof (intro conjI impI)
  show "filter is_marker (displayMap locs) = map (\<lambda>loc. Add_marker (coordinates loc)) locs"
    by (simp add: displayMap_fold filter_markers split: option.splits)
next
  assume ne: "locs \<noteq> []"
  then show "last (displayMap locs) =
        Fit_bounds (linorder_class.Min (fst ` coordinates ` set locs), linorder_class.Min (snd ` coordinates ` set locs))
                   (linorder_class.Max (fst ` coordinates ` set locs), linorder_class.Max (snd ` coordinates ` set locs))"
    by (simp add: displayMap_fold fold_bounds_extend_None image_image)
  show "\<forall>loc\<in>set locs.
         linorder_class.Min (fst ` coordinates ` set locs) \<le> fst (coordinates loc) \<and>
         fst (coordinates loc) \<le> linorder_class.Max (fst ` coordinates ` set locs) \<and>
         linorder_class.Min (snd ` coordinates ` set locs) \<le> snd (coordinates loc) \<and>
         snd (coordinates loc) \<le> linorder_class.Max (snd ` coordinates ` set locs)"
    by simp
next
  assume "locs = []"
  then show "displayMap locs = [New_map, Map_error ''TypeError: Cannot read properties of undefined (reading 'lng')'']"
    by (simp add: displayMap_def)
qed

theorem displayMap_bounds_witness:
  "last (displayMap [\<lparr>coordinates = (1, 2), day = 1, description = ''Park''\<rparr>,
                     \<lparr>coordinates = (3, 0), day = 2, description = ''Lake''\<rparr>]) = Fit_bounds (1, 0) (3, 2)"
  using displayMap_bounds [of "[\<lparr>coordinates = (1, 2), day = 1, description = ''Park''\<rparr>,
                               \<lparr>coordinates = (3, 0), day = 2, description = ''Lake''\<rparr>]"]
  by simp

text \<open>C21. \<open>bookTour\<close> always requests the checkout session of the tour first and shows at
  most one alert; the user is told the outcome (the page navigates to Stripe, or an error
  alert appears) in every case except one: when \<open>redirectToCheckout\<close> resolves with an
  error object, which the code never inspects, nothing is shown.\<close>

theorem bookTour_feedback:
  "hd (bookTour ax rd t) = Get (checkout_url t) \<and> length (filter is_alert (bookTour ax rd t)) \<le> 1 \<and>
   ((Navigate \<in> set (bookTour ax rd t) \<or> (\<exists>e. Alert ''error'' e \<in> set (bookTour ax rd t))) \<longleftrightarrow>
    \<not> (\<exists>body s m. ax (checkout_url t) = Http_ok body \<and> session_of body = Some s \<and>
                   rd (session_id s) = Resolved_error m))"
  by (auto simp: bookTour_def split: http_result.splits option.splits redirect_result.splits)

theorem bookTour_feedback_witness:
  "bookTour (\<lambda>_. Http_ok (JObj [(''session'', JObj [(''id'', JStr ''cs_1'')])])) (\<lambda>_. Resolved_error ''blocked'') ''t1'' =
     [Get ''/api/v1/bookings/checkout-session/t1'', Redirect (Some (JStr ''cs_1''))] \<and>
   \<not> (Navigate \<in> set [Get ''/api/v1/bookings/checkout-session/t1'', Redirect (Some (JStr ''cs_1''))] \<or>
      (\<exists>e. Alert ''error'' e \<in> set [Get ''/api/v1/bookings/checkout-session/t1'', Redirect (Some (JStr ''cs_1''))]))"
proof -
  have b: "bookTour (\<lambda>_. Http_ok (JObj [(''session'', JObj [(''id'', JStr ''cs_1'')])])) (\<lambda>_. Resolved_error ''blocked'') ''t1'' =
     [Get ''/api/v1/bookings/checkout-session/t1'', Redirect (Some (JStr ''cs_1''))]"
    by (simp add: bookTour_def checkout_url_def session_of_def session_id_def)
  show ?thesis
    using bookTour_feedback [of "\<lambda>_. Http_ok (JObj [(''session'', JObj [(''id'', JStr ''cs_1'')])])"
        "\<lambda>_. Resolved_error ''blocked''" "''t1''"] b
    by (simp add: session_of_def session_id_def)
qed

end
