(* ===== verification/Http_Headers.thy ===== *)
theory Http_Headers
  imports App_Stack Tour_Create Browser
begin

text \<open>
  The response headers of \<open>src/app.js\<close>: \<open>app.use(cors())\<close> (line 36, which also answers
  every \<open>OPTIONS\<close> request), \<open>express.static\<close> (line 46) and \<open>helmet\<close> with the
  application's Content Security Policy (lines 49--77), in \<open>app.use\<close> order around the
  pipeline \<open>app_stack\<close>. The policy is followed to the browser that enforces it: helmet
  merges the configured directives with its defaults and serialises them
  (\<open>csp_header\<close>); the browser parses the header (\<open>csp_parse\<close>, CSP Level 3, section 2.2.1)
  and checks every fetch and every inline script against the directive that governs it
  (\<open>allows_url\<close>, \<open>allows_inline\<close>, section 6.7). Helmet is taken at a version with
  \<open>crossOriginEmbedderPolicy\<close> (5 or later), whose \<open>useDefaults\<close> is on.
\<close>

section \<open>Source expressions and their matching\<close>

datatype port_part = Port_any | Port nat

text \<open>A source expression of a directive's value: \<open>*\<close>, a keyword, a scheme-source
  (\<open>blob:\<close>), a host-source (optional scheme, host with an optional leading \<open>*.\<close>,
  optional port, path), or a token of neither form, which the browser ignores.\<close>

datatype source =
    Src_star | Src_self | Src_none | Unsafe_inline | Src_keyword string
  | Scheme_src string
  | Host_src "string option" string "port_part option" string
  | Src_invalid string

definition is_alpha :: "char \<Rightarrow> bool" where
  "is_alpha c \<longleftrightarrow> (let n = of_char c :: nat in (65 \<le> n \<and> n \<le> 90) \<or> (97 \<le> n \<and> n \<le> 122))"

definition is_scheme :: "string \<Rightarrow> bool" where
  "is_scheme s \<longleftrightarrow> s \<noteq> [] \<and> is_alpha (hd s) \<and>
     list_all (\<lambda>c. is_alpha c \<or> is_digit c \<or> c \<in> {CHR ''+'', CHR ''-'', CHR ''.''}) s"

definition is_host_label :: "string \<Rightarrow> bool" where
  "is_host_label l \<longleftrightarrow> l \<noteq> [] \<and> list_all (\<lambda>c. is_alpha c \<or> is_digit c \<or> c = CHR ''-'') l"

text \<open>\<open>host-part = "*" / [ "*." ] 1*host-char *( "." 1*host-char )\<close>.\<close>

definition is_host :: "string \<Rightarrow> bool" where
  "is_host h \<longleftrightarrow> h = ''*'' \<or>
     list_all is_host_label (js_split CHR ''.'' (if take 2 h = ''*.'' then drop 2 h else h))"

definition parse_port :: "string \<Rightarrow> port_part option option" where
  "parse_port s =
     (if s = [] then Some None
      else if s = '':*'' then Some (Some Port_any)
      else if hd s = CHR '':'' then map_option (Some \<circ> Port) (digits_val 10 (tl s))
      else None)"

text \<open>A leading \<open>scheme "://"\<close>, when the token has one.\<close>

definition split_scheme :: "string \<Rightarrow> (string \<times> string) option" where
  "split_scheme t =
     (let s = takeWhile (\<lambda>c. c \<noteq> CHR '':'') t in
      if is_scheme s \<and> take 3 (drop (length s) t) = ''://'' then Some (s, drop (length s + 3) t) else None)"

text \<open>A keyword as it is written in a policy, between single quotes.\<close>

definition quoted :: "string \<Rightarrow> string" where
  "quoted k = CHR 0x27 # k @ [CHR 0x27]"

definition parse_source :: "string \<Rightarrow> source" where
  "parse_source t =
     (if t = ''*'' then Src_star
      else if t \<noteq> [] \<and> hd t = CHR 0x27 then
        (let k = map js_lower t in
         if k = quoted ''self'' then Src_self
         else if k = quoted ''none'' then Src_none
         else if k = quoted ''unsafe-inline'' then Unsafe_inline
         else Src_keyword t)
      else if t \<noteq> [] \<and> last t = CHR '':'' \<and> is_scheme (butlast t) then Scheme_src (map js_lower (butlast t))
      else
        (let (sch, r) = (case split_scheme t of Some (s, r) \<Rightarrow> (Some (map js_lower s), r) | None \<Rightarrow> (None, t));
             hp = takeWhile (\<lambda>c. c \<noteq> CHR ''/'') r; path = dropWhile (\<lambda>c. c \<noteq> CHR ''/'') r;
             h = takeWhile (\<lambda>c. c \<noteq> CHR '':'') hp in
         case parse_port (dropWhile (\<lambda>c. c \<noteq> CHR '':'') hp) of
           Some p \<Rightarrow> if is_host h then Host_src sch h p path else Src_invalid t
         | None \<Rightarrow> Src_invalid t))"

text \<open>A URL as the URL parser leaves it: scheme and host in lower case, the port
  \<open>None\<close> when it is the scheme's default, the path; \<open>data:\<close> and \<open>blob:\<close> URLs
  have an empty host.\<close>

record url =
  url_scheme :: string
  url_host :: string
  url_port :: "nat option"
  url_path :: string

definition default_port :: "string \<Rightarrow> nat option" where
  "default_port s =
     (if s = ''http'' \<or> s = ''ws'' then Some 80 else if s = ''https'' \<or> s = ''wss'' then Some 443 else None)"

text \<open>Scheme-part matching (section 6.7.2.6): a scheme also admits its secure upgrade.\<close>

definition scheme_part_match :: "string \<Rightarrow> string \<Rightarrow> bool" where
  "scheme_part_match a b \<longleftrightarrow>
     a = b \<or> (a = ''http'' \<and> b = ''https'') \<or> (a = ''ws'' \<and> b \<in> {''wss'', ''http'', ''https''}) \<or>
     (a = ''wss'' \<and> b = ''https'')"

text \<open>Host-part matching (6.7.2.7): a leading \<open>*\<close> matches every host ending in the rest
  of the pattern; otherwise the hosts are equal up to ASCII case.\<close>

definition host_part_match :: "string \<Rightarrow> string \<Rightarrow> bool" where
  "host_part_match p h \<longleftrightarrow>
     (if p \<noteq> [] \<and> hd p = CHR ''*''
      then (let r = map js_lower (tl p); h' = map js_lower h in
            length r \<le> length h' \<and> drop (length h' - length r) h' = r)
      else map js_lower p = map js_lower h)"

definition port_part_match :: "port_part option \<Rightarrow> url \<Rightarrow> bool" where
  "port_part_match p u \<longleftrightarrow>
     (case p of
        None \<Rightarrow> url_port u = None
      | Some Port_any \<Rightarrow> True
      | Some (Port n) \<Rightarrow> url_port u = Some n \<or> (url_port u = None \<and> default_port (url_scheme u) = Some n))"

text \<open>Path-part matching (6.7.2.9): a path ending in \<open>/\<close> matches every path below it,
  any other path only itself, segment by segment (URLs are taken percent-decoded).\<close>

definition path_part_match :: "string \<Rightarrow> string \<Rightarrow> bool" where
  "path_part_match a b \<longleftrightarrow>
     (if a = [] then True
      else if a = ''/'' \<and> b = [] then True
      else (let exact = (last a \<noteq> CHR ''/''); la = js_split CHR ''/'' a; lb = js_split CHR ''/'' b in
            if length lb < length la then False
            else if exact then la = lb
            else take (length la - 1) lb = butlast la))"

text \<open>\<open>Does url match expression in origin\<close> (6.7.2.8), with no redirect.\<close>

fun matches_source :: "url \<Rightarrow> url \<Rightarrow> source \<Rightarrow> bool" where
  "matches_source org u Src_star \<longleftrightarrow>
     url_scheme u \<in> {''http'', ''https''} \<or> url_scheme u = url_scheme org"
| "matches_source org u (Scheme_src s) \<longleftrightarrow> scheme_part_match s (url_scheme u)"
| "matches_source org u (Host_src sch h p path) \<longleftrightarrow>
     url_host u \<noteq> [] \<and>
     scheme_part_match (case sch of Some s \<Rightarrow> s | None \<Rightarrow> url_scheme org) (url_scheme u) \<and>
     host_part_match h (url_host u) \<and> port_part_match p u \<and> path_part_match path (url_path u)"
| "matches_source org u Src_self \<longleftrightarrow>
     (url_scheme org = url_scheme u \<and> url_host org = url_host u \<and> url_port org = url_port u) \<or>
     (url_host org = url_host u \<and> url_port org = url_port u \<and>
      (url_scheme u \<in> {''https'', ''wss''} \<or> (url_scheme org = ''http'' \<and> url_scheme u \<in> {''http'', ''ws''})))"
| "matches_source org u _ \<longleftrightarrow> False"

section \<open>Directives and the fetches they govern\<close>

type_synonym policy = "(string \<times> string list) list"

datatype fetch = Script_elem | Script_attr | Style_elem | Worker | Connect | Img | Frame | Font | Object

text \<open>The fallback list of each kind of fetch (section 6.8.3).\<close>

fun fallback :: "fetch \<Rightarrow> string list" where
  "fallback Script_elem = [''script-src-elem'', ''script-src'', ''default-src'']"
| "fallback Script_attr = [''script-src-attr'', ''script-src'', ''default-src'']"
| "fallback Style_elem = [''style-src-elem'', ''style-src'', ''default-src'']"
| "fallback Worker = [''worker-src'', ''child-src'', ''script-src'', ''default-src'']"
| "fallback Connect = [''connect-src'', ''default-src'']"
| "fallback Img = [''img-src'', ''default-src'']"
| "fallback Frame = [''frame-src'', ''child-src'', ''default-src'']"
| "fallback Font = [''font-src'', ''default-src'']"
| "fallback Object = [''object-src'', ''default-src'']"

definition directive_for :: "policy \<Rightarrow> fetch \<Rightarrow> string list option" where
  "directive_for pol k =
     (case find (\<lambda>n. map_of pol n \<noteq> None) (fallback k) of None \<Rightarrow> None | Some n \<Rightarrow> map_of pol n)"

text \<open>A fetch is allowed when no directive governs it, or when one source of the
  governing directive matches the URL.\<close>

definition allows_url :: "policy \<Rightarrow> fetch \<Rightarrow> url \<Rightarrow> url \<Rightarrow> bool" where
  "allows_url pol k org u =
     (case directive_for pol k of None \<Rightarrow> True | Some srcs \<Rightarrow> list_ex (matches_source org u \<circ> parse_source) srcs)"

text \<open>Inline script or style (section 6.7.3.3): allowed when the governing directive
  lists \<open>'unsafe-inline'\<close> and no nonce, hash or \<open>'strict-dynamic'\<close>, which disable it.\<close>

definition disables_inline :: "source \<Rightarrow> bool" where
  "disables_inline s =
     (case s of
        Src_keyword k \<Rightarrow> take 7 (map js_lower k) = [CHR 0x27] @ ''nonce'' @ ''-'' \<or>
                         take 4 (map js_lower k) = [CHR 0x27] @ ''sha'' \<or>
                         map js_lower k = quoted ''strict-dynamic''
      | _ \<Rightarrow> False)"

definition allows_inline :: "policy \<Rightarrow> fetch \<Rightarrow> bool" where
  "allows_inline pol k =
     (case directive_for pol k of
        None \<Rightarrow> True
      | Some srcs \<Rightarrow> Unsafe_inline \<in> set (map parse_source srcs) \<and> \<not> list_ex (disables_inline \<circ> parse_source) srcs)"

section \<open>helmet's Content Security Policy\<close>

text \<open>The directives of \<open>contentSecurityPolicy.directives\<close> (lines 52--73), in the order
  written.\<close>

definition app_csp :: policy where
  "app_csp =
     [(''worker-src'', [''blob:'']),
      (''child-src'', [''blob:'', ''https://js.stripe.com/'']),
      (''img-src'', [quoted ''self'', ''data: image/webp'']),
      (''script-src'', [quoted ''self'', ''https://api.mapbox.com'', ''https://cdnjs.cloudflare.com'',
                        ''https://js.stripe.com/v3/'', quoted ''unsafe-inline'']),
      (''connect-src'', [quoted ''self'', ''ws://localhost:*'', ''ws://127.0.0.1:*'', ''http://127.0.0.1:*'',
                         ''http://localhost:*'', ''https://*.tiles.mapbox.com'', ''https://api.mapbox.com'',
                         ''https://events.mapbox.com''])]"

text \<open>helmet's default directives, which \<open>useDefaults\<close> adds for every name the
  configuration does not set.\<close>

definition helmet_default_directives :: policy where
  "helmet_default_directives =
     [(''default-src'', [quoted ''self'']), (''base-uri'', [quoted ''self'']),
      (''block-all-mixed-content'', []), (''font-src'', [quoted ''self'', ''https:'', ''data:'']),
      (''form-action'', [quoted ''self'']), (''frame-ancestors'', [quoted ''self'']),
      (''img-src'', [quoted ''self'', ''data:'']), (''object-src'', [quoted ''none'']),
      (''script-src'', [quoted ''self'']), (''script-src-attr'', [quoted ''none'']),
      (''style-src'', [quoted ''self'', ''https:'', quoted ''unsafe-inline'']),
      (''upgrade-insecure-requests'', [])]"

definition directive_name_ok :: "string \<Rightarrow> bool" where
  "directive_name_ok n \<longleftrightarrow>
     n \<noteq> [] \<and> list_all (\<lambda>c. (97 \<le> (of_char c :: nat) \<and> (of_char c :: nat) \<le> 122) \<or> is_digit c \<or> c = CHR ''-'') n"

text \<open>helmet's normalisation: a directive name must be a dashed word and appear once, no
  value may contain \<open>;\<close> or \<open>,\<close>, and \<open>default-src\<close> must be set; the configured
  directives come first, then the defaults not overridden. Each failure is the error
  helmet raises.\<close>

definition helmet_csp :: "policy \<Rightarrow> string + policy" where
  "helmet_csp ds =
     (if \<not> list_all (directive_name_ok \<circ> fst) ds then Inl ''Content-Security-Policy received an invalid directive name''
      else if \<not> distinct (map fst ds) then Inl ''Content-Security-Policy received a duplicate directive''
      else if list_ex (\<lambda>(_, vs). list_ex (\<lambda>v. CHR '';'' \<in> set v \<or> CHR '','' \<in> set v) vs) ds
        then Inl ''Content-Security-Policy received an invalid directive value''
      else (let m = ds @ filter (\<lambda>(n, _). n \<notin> set (map fst ds)) helmet_default_directives in
            if map_of m ''default-src'' = None then Inl ''Content-Security-Policy needs a default-src''
            else Inr m))"

text \<open>The header value: each directive's name followed by its values, each after a
  space, the directives joined by \<open>;\<close>.\<close>

definition csp_header :: "policy \<Rightarrow> string" where
  "csp_header ds = js_join '';'' (map (\<lambda>(n, vs). n @ concat (map (\<lambda>v. CHR '' '' # v) vs)) ds)"

section \<open>The browser's parse of the header\<close>

definition ascii_ws :: "char \<Rightarrow> bool" where
  "ascii_ws c \<longleftrightarrow> of_char c \<in> {9, 10, 12, 13, 32 :: nat}"

definition strip_ws :: "string \<Rightarrow> string" where
  "strip_ws s = rev (dropWhile ascii_ws (rev (dropWhile ascii_ws s)))"

text \<open>Splitting on ASCII white space, the word read so far kept reversed.\<close>

fun ws_words_acc :: "string \<Rightarrow> string \<Rightarrow> string list" where
  "ws_words_acc w [] = (if w = [] then [] else [rev w])"
| "ws_words_acc w (c # cs) =
     (if ascii_ws c then (if w = [] then ws_words_acc [] cs else rev w # ws_words_acc [] cs)
      else ws_words_acc (c # w) cs)"

definition ws_words :: "string \<Rightarrow> string list" where
  "ws_words s = ws_words_acc [] s"

text \<open>One token between \<open>;\<close>: stripped, skipped when empty; its name lower-cased; a
  directive whose name the policy already has is ignored.\<close>

definition csp_add_token :: "string \<Rightarrow> policy \<Rightarrow> policy" where
  "csp_add_token tok pol =
     (let t = strip_ws tok in
      if t = [] then pol
      else (let n = map js_lower (takeWhile (\<lambda>c. \<not> ascii_ws c) t) in
            if n \<in> set (map fst pol) then pol
            else pol @ [(n, ws_words (dropWhile (\<lambda>c. \<not> ascii_ws c) t))]))"

definition csp_parse :: "string \<Rightarrow> policy" where
  "csp_parse h = fold csp_add_token (js_split CHR '';'' h) []"

section \<open>CORS, static files and the headers of a response\<close>

text \<open>\<open>cors()\<close> with its defaults: every response allows every origin; an \<open>OPTIONS\<close>
  request is answered at once (204, empty) with the default methods.\<close>

definition cors_origin_header :: "string \<times> string" where
  "cors_origin_header = (''Access-Control-Allow-Origin'', ''*'')"

definition cors_allow_methods :: string where
  "cors_allow_methods = ''GET,HEAD,PUT,PATCH,POST,DELETE''"

definition cors_preflight_headers :: "(string \<times> string) list" where
  "cors_preflight_headers =
     [cors_origin_header, (''Access-Control-Allow-Methods'', cors_allow_methods),
      (''Vary'', ''Access-Control-Request-Headers''), (''Content-Length'', ''0'')]"

fun meth_name :: "meth \<Rightarrow> string" where
  "meth_name GET = ''GET''" | "meth_name HEAD = ''HEAD''" | "meth_name POST = ''POST''"
| "meth_name PUT = ''PUT''" | "meth_name PATCH = ''PATCH''" | "meth_name DELETE = ''DELETE''"
| "meth_name OPTIONS = ''OPTIONS''"

text \<open>The methods the routes of a router answer, sub-routers included.\<close>

fun layers_meths :: "layer list \<Rightarrow> meth list" where
  "layers_meths [] = []"
| "layers_meths (Use p ms # ls) = layers_meths ls"
| "layers_meths (Route p rs # ls) = map fst rs @ layers_meths ls"
| "layers_meths (Mount p mp sub # ls) = layers_meths sub @ layers_meths ls"

text \<open>\<open>express.static\<close> answers a GET or HEAD for a file under \<open>public\<close> (the files on
  disk are a parameter) and passes every other request on.\<close>

definition static_hit :: "(string list \<Rightarrow> bool) \<Rightarrow> http_req \<Rightarrow> bool" where
  "static_hit files r \<longleftrightarrow> hr_method r \<in> {GET, HEAD} \<and> files (hr_path r)"

text \<open>The headers helmet sets besides the policy (helmet 6, \<open>Cross-Origin-Embedder-Policy\<close>
  turned off by the configuration).\<close>

definition helmet_other_headers :: "(string \<times> string) list" where
  "helmet_other_headers =
     [(''Cross-Origin-Opener-Policy'', ''same-origin''), (''Cross-Origin-Resource-Policy'', ''same-origin''),
      (''Origin-Agent-Cluster'', ''?1''), (''Referrer-Policy'', ''no-referrer''),
      (''Strict-Transport-Security'', ''max-age=15552000; includeSubDomains''),
      (''X-Content-Type-Options'', ''nosniff''), (''X-DNS-Prefetch-Control'', ''off''),
      (''X-Download-Options'', ''noopen''), (''X-Frame-Options'', ''SAMEORIGIN''),
      (''X-Permitted-Cross-Domain-Policies'', ''none''), (''X-XSS-Protection'', ''0'')]"

text \<open>\<open>app.use(helmet(...))\<close>: the configuration is normalised when the application is
  built; a rejected one sets nothing here (helmet would have thrown at start-up).\<close>

definition helmet_headers :: "(string \<times> string) list" where
  "helmet_headers =
     (case helmet_csp app_csp of
        Inr ds \<Rightarrow> (''Content-Security-Policy'', csp_header ds) # helmet_other_headers
      | Inl _ \<Rightarrow> [])"

text \<open>The application in \<open>app.use\<close> order: \<open>cors()\<close> (line 36) answers \<open>OPTIONS\<close>,
  \<open>express.static\<close> (line 46) serves files, helmet (line 49) sets its headers on what
  goes on to \<open>app_stack\<close>; the response comes with the headers set on it.\<close>

definition app_http ::
  "(string list \<Rightarrow> bool) \<Rightarrow> layer list \<Rightarrow> layer list \<Rightarrow> timestamp \<Rightarrow> string \<Rightarrow> http_req \<Rightarrow> limiter \<Rightarrow>
   ((response \<times> ctl_input option) \<times> limiter) \<times> (string \<times> string) list" where
  "app_http files views bookings now ip r st =
     (if hr_method r = OPTIONS then (app_stack views bookings now ip r st, cors_preflight_headers)
      else if static_hit files r then (((Sent ''express.static'' [] [], None), st), [cors_origin_header])
      else (app_stack views bookings now ip r st, cors_origin_header # helmet_headers))"

text \<open>The policy a browser enforces on every page the application serves: the parse of
  the header helmet sends.\<close>

definition app_policy :: policy where
  "app_policy = csp_parse (case helmet_csp app_csp of Inr m \<Rightarrow> csp_header m | Inl _ \<Rightarrow> [])"

section \<open>Lemmas: splitting, joining and the parse of a header\<close>


lemma js_split_no_sep: "c \<notin> set x \<Longrightarrow> js_split c x = [x]"
  by (induction x) auto

lemma js_split_sep: "c \<notin> set x \<Longrightarrow> js_split c (x @ c # r) = x # js_split c r"
proof (induction x)
  case (Cons a x)
  then show ?case by auto
qed simp

lemma js_split_join:
  "xs \<noteq> [] \<Longrightarrow> \<forall>x\<in>set xs. c \<notin> set x \<Longrightarrow> js_split c (js_join [c] xs) = xs"
proof (induction "[c]" xs rule: js_join.induct)
  case (2 x)
  then show ?case by (simp add: js_split_no_sep)
next
  case (3 x y xs)
  then show ?case by (simp add: js_split_sep)
qed simp

lemma js_split_not_Nil [simp]: "js_split c x \<noteq> []"
  by (induction x) (auto split: list.splits)

lemma js_join_Cons_hd: "js_join sep ((a # p) # ps) = a # js_join sep (p # ps)"
  by (cases ps) simp_all

lemma js_join_split: "js_join [c] (js_split c x) = x"
proof (induction x)
  case (Cons a x)
  show ?case
  proof (cases "a = c")
    case True
    then show ?thesis using Cons by (cases "js_split c x") simp_all
  next
    case False
    then show ?thesis using Cons by (cases "js_split c x") (simp_all add: js_join_Cons_hd)
  qed
qed simp

lemma path_part_match_exact_webp: "path_part_match ''/webp'' p \<longleftrightarrow> p = ''/webp''"
proof
  assume "path_part_match ''/webp'' p"
  then have "js_split CHR ''/'' p = [[], ''webp'']"
    by (simp add: path_part_match_def Let_def split: if_splits)
  then show "p = ''/webp''" using js_join_split [of "CHR ''/''" p] by simp
qed (simp add: path_part_match_def)

lemma ws_words_acc_append:
  "b = [] \<or> ascii_ws (hd b) \<Longrightarrow> ws_words_acc w (a @ b) = ws_words_acc w a @ ws_words_acc [] b"
proof (induction a arbitrary: w)
  case Nil
  then show ?case by (cases b) auto
next
  case (Cons c a)
  then show ?case by simp
qed

lemma ws_words_acc_blank: "list_all ascii_ws w \<Longrightarrow> ws_words_acc [] w = []"
  by (induction w) simp_all

lemma space_ws [simp]: "ascii_ws (CHR '' '')"
  by (simp add: ascii_ws_def)

lemma ws_words_values:
  "ws_words (concat (map (\<lambda>v. CHR '' '' # v) vs)) = concat (map ws_words vs)"
proof (induction vs)
  case (Cons v vs)
  let ?r = "concat (map (\<lambda>v. CHR '' '' # v) vs)"
  have h: "?r = [] \<or> ascii_ws (hd ?r)" by (cases vs) simp_all
  have "ws_words (CHR '' '' # v @ ?r) = ws_words v @ ws_words ?r"
    using ws_words_acc_append [OF h, of "[]" v] by (simp add: ws_words_def)
  then show ?case using Cons by simp
qed (simp add: ws_words_def)

lemma directive_name_chars:
  "directive_name_ok n \<Longrightarrow> n \<noteq> [] \<and> list_all (\<lambda>c. \<not> ascii_ws c \<and> js_lower c = c \<and> c \<noteq> CHR '';'') n"
  by (auto simp: directive_name_ok_def list_all_iff ascii_ws_def js_lower_def is_digit_range)

lemma strip_ws_name:
  assumes "n \<noteq> []" and "list_all (\<lambda>c. \<not> ascii_ws c) n"
  shows "strip_ws (n @ r) = n @ rev (dropWhile ascii_ws (rev r))"
proof -
  obtain a n' where n: "n = a # n'" using assms(1) by (cases n) auto
  have front: "dropWhile ascii_ws (n @ r) = n @ r" using assms(2) n by simp
  have "\<not> ascii_ws (hd (rev n))" using assms by (simp add: hd_rev list_all_iff)
  then have rn: "dropWhile ascii_ws (rev n) = rev n" by (intro dropWhile_none) simp
  have "dropWhile ascii_ws (rev r @ rev n) = dropWhile ascii_ws (rev r) @ rev n"
  proof (cases "\<forall>x\<in>set (rev r). ascii_ws x")
    case True
    have e: "dropWhile ascii_ws (rev r) = []" using True by (simp add: dropWhile_all list_all_iff)
    have a: "dropWhile ascii_ws (rev r @ rev n) = dropWhile ascii_ws (rev n)"
      by (rule dropWhile_append2) (use True in simp)
    show ?thesis by (simp only: a rn e append_Nil)
  next
    case False
    then show ?thesis by (auto intro: dropWhile_append1)
  qed
  then show ?thesis by (simp add: strip_ws_def front)
qed

lemma rtrim_words:
  assumes "r = [] \<or> ascii_ws (hd r)"
  shows "(rev (dropWhile ascii_ws (rev r)) = [] \<or> ascii_ws (hd (rev (dropWhile ascii_ws (rev r))))) \<and>
         ws_words (rev (dropWhile ascii_ws (rev r))) = ws_words r"
proof -
  let ?r' = "rev (dropWhile ascii_ws (rev r))" and ?w = "rev (takeWhile ascii_ws (rev r))"
  have split: "r = ?r' @ ?w" by (metis rev_append rev_rev_ident takeWhile_dropWhile_id)
  have w: "list_all ascii_ws ?w" by (auto simp: list_all_iff dest: set_takeWhileD)
  have "?w = [] \<or> ascii_ws (hd ?w)" using w by (cases ?w) auto
  then have "ws_words r = ws_words ?r' @ ws_words_acc [] ?w"
    by (subst split) (simp add: ws_words_def ws_words_acc_append)
  moreover have "?r' = [] \<or> ascii_ws (hd ?r')"
  proof (cases "?r' = []")
    case False
    then have "hd r = hd ?r'" by (subst split) simp
    then show ?thesis using assms False split by auto
  qed simp
  ultimately show ?thesis using ws_words_acc_blank [OF w] by simp
qed

lemma takeWhile_ws_Nil: "xs = [] \<or> ascii_ws (hd xs) \<Longrightarrow> takeWhile (\<lambda>c. \<not> ascii_ws c) xs = []"
  by (cases xs) auto

lemma csp_add_token_directive:
  assumes "directive_name_ok n"
  shows "csp_add_token (n @ concat (map (\<lambda>v. CHR '' '' # v) vs)) pol =
         (if n \<in> set (map fst pol) then pol else pol @ [(n, concat (map ws_words vs))])"
proof -
  let ?r = "concat (map (\<lambda>v. CHR '' '' # v) vs)"
  let ?r' = "rev (dropWhile ascii_ws (rev ?r))"
  have nc: "n \<noteq> []" "list_all (\<lambda>c. \<not> ascii_ws c \<and> js_lower c = c \<and> c \<noteq> CHR '';'') n"
    using directive_name_chars [OF assms] by simp_all
  have nw: "list_all (\<lambda>c. \<not> ascii_ws c) n" using nc(2) by (simp add: list_all_iff)
  have h: "?r = [] \<or> ascii_ws (hd ?r)" by (cases vs) simp_all
  note rt = rtrim_words [OF h]
  have t0: "takeWhile (\<lambda>c. \<not> ascii_ws c) ?r' = []" by (rule takeWhile_ws_Nil [OF conjunct1 [OF rt]])
  have d0: "dropWhile (\<lambda>c. \<not> ascii_ws c) ?r' = ?r'" using rt by (intro dropWhile_none) auto
  have tw: "takeWhile (\<lambda>c. \<not> ascii_ws c) (n @ ?r') = n"
    using nw t0 by (simp add: list_all_iff takeWhile_append2)
  have dw: "dropWhile (\<lambda>c. \<not> ascii_ws c) (n @ ?r') = ?r'"
    using nw d0 by (simp add: list_all_iff dropWhile_append2)
  have low: "map js_lower n = n" using nc(2) by (induction n) auto
  have wr: "ws_words ?r' = concat (map ws_words vs)" using rt ws_words_values [of vs] by simp
  have ne: "(n @ ?r' = []) = False" using nc(1) by simp
  show ?thesis
    by (simp only: csp_add_token_def strip_ws_name [OF nc(1) nw] Let_def tw dw low wr ne if_False)
qed

section \<open>Lemmas: helmet\<close>

lemma csp_parse_fold:
  "list_all (directive_name_ok \<circ> fst) ds \<Longrightarrow> distinct (map fst ds) \<Longrightarrow> set (map fst ds) \<inter> set (map fst pol) = {} \<Longrightarrow>
   fold csp_add_token (map (\<lambda>(n, vs). n @ concat (map (\<lambda>v. CHR '' '' # v) vs)) ds) pol =
   pol @ map (\<lambda>(n, vs). (n, concat (map ws_words vs))) ds"
proof (induction ds arbitrary: pol)
  case (Cons d ds)
  obtain n vs where d: "d = (n, vs)" by fastforce
  have "csp_add_token (n @ concat (map (\<lambda>v. CHR '' '' # v) vs)) pol = pol @ [(n, concat (map ws_words vs))]"
    using Cons.prems d by (simp add: csp_add_token_directive)
  moreover have "set (map fst ds) \<inter> set (map fst (pol @ [(n, concat (map ws_words vs))])) = {}"
    using Cons.prems d by auto
  ultimately show ?case using Cons d by simp
qed simp

lemma helmet_defaults_ok:
  "list_all (directive_name_ok \<circ> fst) helmet_default_directives \<and> distinct (map fst helmet_default_directives) \<and>
   list_all (\<lambda>(_, vs). list_all (\<lambda>v. CHR '';'' \<notin> set v) vs) helmet_default_directives"
  by (simp add: helmet_default_directives_def directive_name_ok_def is_digit_def quoted_def)

lemma app_csp_merged:
  "helmet_csp app_csp = Inr (app_csp @ filter (\<lambda>(n, _). n \<notin> set (map fst app_csp)) helmet_default_directives)"
  by (simp add: helmet_csp_def app_csp_def helmet_default_directives_def directive_name_ok_def is_digit_def quoted_def)

lemma helmet_csp_Inr:
  assumes "helmet_csp ds = Inr m"
  shows "m = ds @ filter (\<lambda>(n, _). n \<notin> set (map fst ds)) helmet_default_directives \<and>
         list_all (directive_name_ok \<circ> fst) m \<and> distinct (map fst m) \<and> m \<noteq> [] \<and>
         list_all (\<lambda>(_, vs). list_all (\<lambda>v. CHR '';'' \<notin> set v) vs) m"
proof -
  have c: "list_all (directive_name_ok \<circ> fst) ds" "distinct (map fst ds)"
    "\<not> list_ex (\<lambda>(_, vs). list_ex (\<lambda>v. CHR '';'' \<in> set v \<or> CHR '','' \<in> set v) vs) ds"
    and m: "m = ds @ filter (\<lambda>(n, _). n \<notin> set (map fst ds)) helmet_default_directives"
    using assms by (auto simp: helmet_csp_def Let_def split: if_splits)
  have ne: "m \<noteq> []"
  proof
    assume "m = []"
    with assms show False by (auto simp: helmet_csp_def Let_def split: if_splits)
  qed
  have "distinct (map fst (filter (\<lambda>(n, _). n \<notin> set (map fst ds)) helmet_default_directives))"
    using helmet_defaults_ok by (simp add: distinct_map_filter)
  moreover have "set (map fst ds) \<inter> set (map fst (filter (\<lambda>(n, _). n \<notin> set (map fst ds)) helmet_default_directives)) = {}"
    by force
  ultimately have "distinct (map fst m)" using c(2) m by simp
  moreover note ne
  moreover have "list_all (directive_name_ok \<circ> fst) m \<and> list_all (\<lambda>(_, vs). list_all (\<lambda>v. CHR '';'' \<notin> set v) vs) m"
    using c(1,3) helmet_defaults_ok m by (auto simp: list_all_iff list_ex_iff)
  ultimately show ?thesis using m by simp
qed

lemma csp_parse_header:
  assumes "helmet_csp ds = Inr m"
  shows "csp_parse (csp_header m) = map (\<lambda>(n, vs). (n, concat (map ws_words vs))) m"
proof -
  note h = helmet_csp_Inr [OF assms]
  have ok: "list_all (directive_name_ok \<circ> fst) m" "distinct (map fst m)" "m \<noteq> []"
    "list_all (\<lambda>(_, vs). list_all (\<lambda>v. CHR '';'' \<notin> set v) vs) m"
    using h by blast+
  let ?t = "map (\<lambda>(n, vs). n @ concat (map (\<lambda>v. CHR '' '' # v) vs)) m"
  have "\<forall>x\<in>set ?t. CHR '';'' \<notin> set x"
  proof
    fix x assume "x \<in> set ?t"
    then obtain n vs where nv: "(n, vs) \<in> set m" and x: "x = n @ concat (map (\<lambda>v. CHR '' '' # v) vs)"
      by auto
    have "directive_name_ok n" "list_all (\<lambda>v. CHR '';'' \<notin> set v) vs"
      using ok(1,4) nv by (auto simp: list_all_iff)
    then show "CHR '';'' \<notin> set x"
      using directive_name_chars [of n] x by (auto simp: list_all_iff)
  qed
  then have "js_split CHR '';'' (csp_header m) = ?t"
    using ok(3) by (simp add: csp_header_def js_split_join)
  then show ?thesis using csp_parse_fold [of m "[]"] ok(1,2) by (simp add: csp_parse_def)
qed

section \<open>Lemmas: the application's policy\<close>

lemma app_policy_eq:
  "app_policy = map (\<lambda>(n, vs). (n, concat (map ws_words vs)))
                  (app_csp @ filter (\<lambda>(n, _). n \<notin> set (map fst app_csp)) helmet_default_directives)"
  unfolding app_policy_def app_csp_merged using csp_parse_header [OF app_csp_merged] by simp

lemma app_policy_directives:
  "directive_for app_policy Script_elem = Some [quoted ''self'', ''https://api.mapbox.com'', ''https://cdnjs.cloudflare.com'',
                                              ''https://js.stripe.com/v3/'', quoted ''unsafe-inline'']"
  "directive_for app_policy Script_attr = Some [quoted ''none'']"
  "directive_for app_policy Object = Some [quoted ''none'']"
  "directive_for app_policy Img = Some [quoted ''self'', ''data:'', ''image/webp'']"
  "directive_for app_policy Worker = Some [''blob:'']"
  "directive_for app_policy Connect = Some [quoted ''self'', ''ws://localhost:*'', ''ws://127.0.0.1:*'', ''http://127.0.0.1:*'',
                         ''http://localhost:*'', ''https://*.tiles.mapbox.com'', ''https://api.mapbox.com'',
                         ''https://events.mapbox.com'']"
  by (simp_all add: app_policy_eq directive_for_def app_csp_def helmet_default_directives_def quoted_def
                    ws_words_def ascii_ws_def)

lemmas source_defs = parse_source_def quoted_def split_scheme_def is_scheme_def is_alpha_def is_digit_def
  is_host_def is_host_label_def parse_port_def js_lower_def

lemma app_sources:
  "parse_source (quoted ''self'') = Src_self"
  "parse_source (quoted ''none'') = Src_none"
  "parse_source (quoted ''unsafe-inline'') = Unsafe_inline"
  "parse_source ''https://api.mapbox.com'' = Host_src (Some ''https'') ''api.mapbox.com'' None []"
  "parse_source ''https://cdnjs.cloudflare.com'' = Host_src (Some ''https'') ''cdnjs.cloudflare.com'' None []"
  "parse_source ''https://js.stripe.com/v3/'' = Host_src (Some ''https'') ''js.stripe.com'' None ''/v3/''"
  "parse_source ''data:'' = Scheme_src ''data''"
  "parse_source ''image/webp'' = Host_src None ''image'' None ''/webp''"
  "parse_source ''blob:'' = Scheme_src ''blob''"
  by (simp_all add: source_defs)

lemma host_literal_match:
  "list_all (\<lambda>c. js_lower c = c) p \<Longrightarrow> p \<noteq> [] \<Longrightarrow> hd p \<noteq> CHR ''*'' \<Longrightarrow>
   host_part_match p h \<longleftrightarrow> map js_lower h = p"
proof -
  assume l: "list_all (\<lambda>c. js_lower c = c) p" and "p \<noteq> []" "hd p \<noteq> CHR ''*''"
  moreover have "map js_lower p = p" using l by (induction p) auto
  ultimately show ?thesis by (auto simp: host_part_match_def)
qed


lemma match_https_host:
  assumes "list_all (\<lambda>c. js_lower c = c) h" "h \<noteq> []" "hd h \<noteq> CHR ''*''"
  shows "matches_source org u (Host_src (Some ''https'') h None p) \<longleftrightarrow>
         url_scheme u = ''https'' \<and> url_port u = None \<and> map js_lower (url_host u) = h \<and> path_part_match p (url_path u)"
proof -
  have "map js_lower (url_host u) = h \<Longrightarrow> url_host u \<noteq> []" using assms(2) by auto
  then show ?thesis
    by (auto simp: host_literal_match [OF assms] scheme_part_match_def port_part_match_def)
qed

lemma app_policy_script_sources: "allows_url app_policy Script_elem org u \<longleftrightarrow>
      matches_source org u Src_self \<or>
      (url_scheme u = ''https'' \<and> url_port u = None \<and>
       (map js_lower (url_host u) = ''api.mapbox.com'' \<or> map js_lower (url_host u) = ''cdnjs.cloudflare.com'' \<or>
        (map js_lower (url_host u) = ''js.stripe.com'' \<and> path_part_match ''/v3/'' (url_path u))))"
proof -
  have pe: "path_part_match [] b" for b by (simp add: path_part_match_def)
  have e: "allows_url app_policy Script_elem org u \<longleftrightarrow>
           matches_source org u Src_self \<or>
           matches_source org u (Host_src (Some ''https'') ''api.mapbox.com'' None []) \<or>
           matches_source org u (Host_src (Some ''https'') ''cdnjs.cloudflare.com'' None []) \<or>
           matches_source org u (Host_src (Some ''https'') ''js.stripe.com'' None ''/v3/'')"
    by (simp add: allows_url_def app_policy_directives(1) app_sources del: matches_source.simps)
       (simp add: matches_source.simps(7))
  have m1: "matches_source org u (Host_src (Some ''https'') ''api.mapbox.com'' None []) \<longleftrightarrow>
            url_scheme u = ''https'' \<and> url_port u = None \<and> map js_lower (url_host u) = ''api.mapbox.com''"
  proof -
    have c: "list_all (\<lambda>c. js_lower c = c) ''api.mapbox.com''" "''api.mapbox.com'' \<noteq> []" "hd ''api.mapbox.com'' \<noteq> CHR ''*''"
      by (simp_all add: js_lower_def)
    show ?thesis using match_https_host [OF c, of org u "[]"] pe by (simp del: matches_source.simps)
  qed
  have m2: "matches_source org u (Host_src (Some ''https'') ''cdnjs.cloudflare.com'' None []) \<longleftrightarrow>
            url_scheme u = ''https'' \<and> url_port u = None \<and> map js_lower (url_host u) = ''cdnjs.cloudflare.com''"
  proof -
    have c: "list_all (\<lambda>c. js_lower c = c) ''cdnjs.cloudflare.com''" "''cdnjs.cloudflare.com'' \<noteq> []" "hd ''cdnjs.cloudflare.com'' \<noteq> CHR ''*''"
      by (simp_all add: js_lower_def)
    show ?thesis using match_https_host [OF c, of org u "[]"] pe by (simp del: matches_source.simps)
  qed
  have m3: "matches_source org u (Host_src (Some ''https'') ''js.stripe.com'' None ''/v3/'') \<longleftrightarrow>
            url_scheme u = ''https'' \<and> url_port u = None \<and> map js_lower (url_host u) = ''js.stripe.com'' \<and>
            path_part_match ''/v3/'' (url_path u)"
  proof -
    have c: "list_all (\<lambda>c. js_lower c = c) ''js.stripe.com''" "''js.stripe.com'' \<noteq> []" "hd ''js.stripe.com'' \<noteq> CHR ''*''"
      by (simp_all add: js_lower_def)
    show ?thesis using match_https_host [OF c, of org u "''/v3/''"] by (simp del: matches_source.simps)
  qed
  show ?thesis unfolding e m1 m2 m3 by blast
qed

lemma map_of_filter_out:
  "map_of (filter (\<lambda>(k, _). k \<notin> S) xs) n = (if n \<in> S then None else map_of xs n)"
  by (induction xs) auto

section \<open>Lemmas: the response headers\<close>

lemma router_methods_allowed:
  "\<forall>m\<in>set (layers_meths (tour_router @ review_router @ user_router)). meth_name m \<in> set (js_split CHR '','' cors_allow_methods)"
  by (simp add: tour_router_def review_router_def user_router_def cors_allow_methods_def)

lemma layers_meths_append: "layers_meths (xs @ ys) = layers_meths xs @ layers_meths ys"
  by (induction xs rule: layers_meths.induct) simp_all

lemma helmet_headers_csp: "map_of helmet_headers ''Content-Security-Policy'' = Some (csp_header
  (app_csp @ filter (\<lambda>(n, _). n \<notin> set (map fst app_csp)) helmet_default_directives))"
  by (simp add: helmet_headers_def app_csp_merged)

section \<open>Properties of the headers\<close>

text \<open>Whatever directives helmet accepts, the browser enforces exactly the merged
  policy: the configured directives, each value read as the words it contains, followed by
  helmet's defaults for every name not configured.\<close>

theorem helmet_csp_roundtrip:
  assumes "helmet_csp ds = Inr m"
  shows "csp_parse (csp_header m) = map (\<lambda>(n, vs). (n, concat (map ws_words vs))) m \<and>
         (\<forall>n. map_of m n = (case map_of ds n of Some vs \<Rightarrow> Some vs | None \<Rightarrow> map_of helmet_default_directives n))"
proof
  show "csp_parse (csp_header m) = map (\<lambda>(n, vs). (n, concat (map ws_words vs))) m"
    by (rule csp_parse_header [OF assms])
  have m: "m = ds @ filter (\<lambda>(n, _). n \<notin> set (map fst ds)) helmet_default_directives"
    using helmet_csp_Inr [OF assms] by blast
  show "\<forall>n. map_of m n = (case map_of ds n of Some vs \<Rightarrow> Some vs | None \<Rightarrow> map_of helmet_default_directives n)"
  proof
    fix n
    have ma: "map_of m n = (case map_of ds n of
                              None \<Rightarrow> map_of (filter (\<lambda>(n, _). n \<notin> set (map fst ds)) helmet_default_directives) n
                            | Some v \<Rightarrow> Some v)"
      by (cases "map_of ds n") (simp_all add: m map_add_def)
    show "map_of m n = (case map_of ds n of Some vs \<Rightarrow> Some vs | None \<Rightarrow> map_of helmet_default_directives n)"
    proof (cases "map_of ds n")
      case None
      then have "n \<notin> set (map fst ds)" by (simp add: map_of_eq_None_iff)
      then show ?thesis using ma None by (simp only: map_of_filter_out if_False option.case)
    qed (simp add: ma)
  qed
qed

theorem helmet_csp_roundtrip_witness:
  "helmet_csp app_csp = Inr (app_csp @ filter (\<lambda>(n, _). n \<notin> set (map fst app_csp)) helmet_default_directives) \<and>
   map_of (csp_parse (csp_header (app_csp @ filter (\<lambda>(n, _). n \<notin> set (map fst app_csp)) helmet_default_directives)))
     ''img-src'' = Some [quoted ''self'', ''data:'', ''image/webp'']"
proof -
  have r: "csp_parse (csp_header (app_csp @ filter (\<lambda>(n, _). n \<notin> set (map fst app_csp)) helmet_default_directives)) =
           map (\<lambda>(n, vs). (n, concat (map ws_words vs)))
             (app_csp @ filter (\<lambda>(n, _). n \<notin> set (map fst app_csp)) helmet_default_directives)"
    by (rule conjunct1 [OF helmet_csp_roundtrip [OF app_csp_merged]])
  have "map_of (map (\<lambda>(n, vs). (n, concat (map ws_words vs)))
                  (app_csp @ filter (\<lambda>(n, _). n \<notin> set (map fst app_csp)) helmet_default_directives)) ''img-src'' =
        Some [quoted ''self'', ''data:'', ''image/webp'']"
    by (simp add: app_csp_def helmet_default_directives_def quoted_def ws_words_def ascii_ws_def)
  then show ?thesis unfolding r using app_csp_merged by (rule conjI [rotated])
qed

text \<open>C22. Under the policy the application sends, a script loads only from the page's
  own origin, from \<open>api.mapbox.com\<close> or \<open>cdnjs.cloudflare.com\<close>, or from below
  \<open>js.stripe.com/v3/\<close>, over https on the default port; inline script elements run
  (\<open>'unsafe-inline'\<close>) but inline event-handler attributes do not (helmet's
  \<open>script-src-attr 'none'\<close>), plugins never load, and the booking script's request for a
  checkout session on the page's origin is allowed.\<close>

theorem app_policy_scripts:
  "(allows_url app_policy Script_elem org u \<longleftrightarrow>
      matches_source org u Src_self \<or>
      (url_scheme u = ''https'' \<and> url_port u = None \<and>
       (map js_lower (url_host u) = ''api.mapbox.com'' \<or> map js_lower (url_host u) = ''cdnjs.cloudflare.com'' \<or>
        (map js_lower (url_host u) = ''js.stripe.com'' \<and> path_part_match ''/v3/'' (url_path u))))) \<and>
   allows_inline app_policy Script_elem \<and> \<not> allows_inline app_policy Script_attr \<and>
   \<not> allows_url app_policy Object org u \<and>
   allows_url app_policy Connect org (org\<lparr>url_path := checkout_url tourId\<rparr>)"
proof -
  have i1: "allows_inline app_policy Script_elem" and i2: "\<not> allows_inline app_policy Script_attr"
    by (simp_all add: allows_inline_def app_policy_directives(1,2) app_sources disables_inline_def)
  have o: "\<not> allows_url app_policy Object org u"
    by (simp add: allows_url_def app_policy_directives(3) app_sources)
  have c: "allows_url app_policy Connect org (org\<lparr>url_path := checkout_url tourId\<rparr>)"
    by (simp add: allows_url_def app_policy_directives(6) app_sources)
  show ?thesis by (intro conjI app_policy_script_sources i1 i2 o c)
qed

text \<open>
  C15. Under the policy app.js sends, an image loads only from the page's origin, from a
  \<open>data:\<close> URL, or from the path \<open>/webp\<close> of a host named \<open>image\<close> on the default port
  over the page's scheme (or its secure upgrade): the configured value
  \<open>'data: image/webp'\<close> reaches the browser as two sources, so it does not restrict
  \<open>data:\<close> images to a media type, and no other host serves images.
\<close>

theorem app_policy_images:
  "allows_url app_policy Img org u \<longleftrightarrow>
     matches_source org u Src_self \<or> url_scheme u = ''data'' \<or>
     (scheme_part_match (url_scheme org) (url_scheme u) \<and> map js_lower (url_host u) = ''image'' \<and>
      url_port u = None \<and> url_path u = ''/webp'')"
proof -
  have e: "allows_url app_policy Img org u \<longleftrightarrow>
           matches_source org u Src_self \<or> matches_source org u (Scheme_src ''data'') \<or>
           matches_source org u (Host_src None ''image'' None ''/webp'')"
    by (simp add: allows_url_def app_policy_directives(4) app_sources del: matches_source.simps)
  have d: "matches_source org u (Scheme_src ''data'') \<longleftrightarrow> url_scheme u = ''data''"
    by (auto simp: scheme_part_match_def)
  have c: "list_all (\<lambda>c. js_lower c = c) ''image''" "''image'' \<noteq> []" "hd ''image'' \<noteq> CHR ''*''"
    by (simp_all add: js_lower_def)
  have h: "matches_source org u (Host_src None ''image'' None ''/webp'') \<longleftrightarrow>
           scheme_part_match (url_scheme org) (url_scheme u) \<and> map js_lower (url_host u) = ''image'' \<and>
           url_port u = None \<and> url_path u = ''/webp''"
    by (auto simp: host_literal_match [OF c] port_part_match_def path_part_match_exact_webp)
  show ?thesis unfolding e d h by blast
qed

theorem app_policy_images_witness:
  "allows_url app_policy Img \<lparr>url_scheme = ''https'', url_host = ''natours.dev'', url_port = None, url_path = ''/''\<rparr>
     \<lparr>url_scheme = ''data'', url_host = [], url_port = None, url_path = ''text/html,<svg/onload=1>''\<rparr> \<and>
   allows_url app_policy Img \<lparr>url_scheme = ''https'', url_host = ''natours.dev'', url_port = None, url_path = ''/''\<rparr>
     \<lparr>url_scheme = ''https'', url_host = ''image'', url_port = None, url_path = ''/webp''\<rparr> \<and>
   \<not> allows_url app_policy Img \<lparr>url_scheme = ''https'', url_host = ''natours.dev'', url_port = None, url_path = ''/''\<rparr>
     \<lparr>url_scheme = ''https'', url_host = ''api.mapbox.com'', url_port = None, url_path = ''/logo.png''\<rparr>"
  using app_policy_images [of "\<lparr>url_scheme = ''https'', url_host = ''natours.dev'', url_port = None, url_path = ''/''\<rparr>"]
  by (simp add: scheme_part_match_def js_lower_def)

text \<open>Every response allows every origin. An \<open>OPTIONS\<close> request is answered by
  \<open>cors()\<close> before the limiter, and its allowed methods include every method a route of
  the tour, review and user routers answers. A file served by \<open>express.static\<close> is
  answered before helmet runs and carries no Content Security Policy; every other response
  goes through the pipeline and carries the header whose parse is \<open>app_policy\<close>.\<close>

theorem app_http_headers:
  assumes "app_http files views bookings now ip r st = (res, hs)"
  shows "hd hs = cors_origin_header \<and>
    (hr_method r = OPTIONS \<longrightarrow>
       res = ((Sent ''cors'' [] [], None), st) \<and>
       (\<forall>m\<in>set (layers_meths (tour_router @ review_router @ user_router)).
          meth_name m \<in> set (js_split CHR '','' (the (map_of hs ''Access-Control-Allow-Methods''))))) \<and>
    (hr_method r \<noteq> OPTIONS \<and> static_hit files r \<longrightarrow>
       res = ((Sent ''express.static'' [] [], None), st) \<and> map_of hs ''Content-Security-Policy'' = None) \<and>
    (hr_method r \<noteq> OPTIONS \<and> \<not> static_hit files r \<longrightarrow>
       res = app_stack views bookings now ip r st \<and>
       csp_parse (the (map_of hs ''Content-Security-Policy'')) = app_policy)"
proof -
  have pol: "csp_parse (csp_header (app_csp @ filter (\<lambda>(n, _). n \<notin> set (map fst app_csp)) helmet_default_directives)) = app_policy"
    by (simp add: app_policy_def app_csp_merged)
  show ?thesis
  proof (cases "hr_method r = OPTIONS")
    case True
    then have "res = ((Sent ''cors'' [] [], None), st)" "hs = cors_preflight_headers"
      using assms by (simp_all add: app_http_def app_stack_def)
    then show ?thesis using True router_methods_allowed
      by (simp add: cors_preflight_headers_def cors_origin_header_def)
  next
    case nopt: False
    show ?thesis
    proof (cases "static_hit files r")
      case True
      then show ?thesis using assms nopt by (auto simp: app_http_def cors_origin_header_def)
    next
      case False
      then show ?thesis using assms nopt pol
        by (auto simp: app_http_def cors_origin_header_def helmet_headers_csp)
    qed
  qed
qed

theorem app_http_headers_witness:
  "app_http (\<lambda>p. p = [''img'', ''logo-white.png'']) [] [] 0 ''a''
     \<lparr>hr_method = GET, hr_path = [''img'', ''logo-white.png''], hr_auth = None, hr_query = [],
      hr_content = CT_none, hr_body_len = 0, hr_body_val = None\<rparr> (limiter_init 0) =
   (((Sent ''express.static'' [] [], None), limiter_init 0), [cors_origin_header]) \<and>
   map_of [cors_origin_header] ''Content-Security-Policy'' = None"
proof -
  have e: "app_http (\<lambda>p. p = [''img'', ''logo-white.png'']) [] [] 0 ''a''
     \<lparr>hr_method = GET, hr_path = [''img'', ''logo-white.png''], hr_auth = None, hr_query = [],
      hr_content = CT_none, hr_body_len = 0, hr_body_val = None\<rparr> (limiter_init 0) =
   (((Sent ''express.static'' [] [], None), limiter_init 0), [cors_origin_header])"
    by (simp add: app_http_def static_hit_def)
  show ?thesis using app_http_headers [OF e] e by (simp add: static_hit_def)
qed

end
