(* ===== verification/Tour_Views.thy ===== *)
theory Tour_Views
  imports Review_Model
begin

text \<open>
  The read side of the tour and review models: what a tour looks like to a client that
  reads it by id. \<open>tourSchema.virtual('durationWeeks')\<close> and the virtual populate
  \<open>tourSchema.virtual('reviews', {ref: 'Review', foreignField: 'tour', localField:
  '_id'})\<close> (tourModel.js), the query middleware that hides secret tours and populates
  \<open>guides\<close> with \<open>select: '-__v -passwordChangedAt'\<close>, and the review query
  middleware that populates \<open>user\<close> with \<open>select: 'name photo'\<close> (reviewModel.js).
  A user document is the list of its stored fields; the user model itself is not in the
  repository, so its schema-level \<open>select: false\<close> paths are not known here.
\<close>

type_synonym user_doc = "(string \<times> jval) list"
type_synonym user_store = "oid \<Rightarrow> user_doc option"

section \<open>Virtuals\<close>

text \<open>\<open>return this.duration / 7\<close>.\<close>

definition durationWeeks :: "tour_doc \<Rightarrow> rat" where
  "durationWeeks d = duration d / 7"

section \<open>Projections of populate\<close>

text \<open>An exclusive projection (\<open>'-__v -passwordChangedAt'\<close>) drops the named paths; an
  inclusive one (\<open>'name photo'\<close>) keeps the named paths and \<open>_id\<close>.\<close>

definition select_out :: "string list \<Rightarrow> user_doc \<Rightarrow> user_doc" where
  "select_out ks u = filter (\<lambda>(k, _). k \<notin> set ks) u"

definition select_in :: "string list \<Rightarrow> user_doc \<Rightarrow> user_doc" where
  "select_in ks u = filter (\<lambda>(k, _). k \<in> set (''_id'' # ks)) u"

section \<open>The populate calls\<close>

text \<open>\<open>this.populate({path: 'guides', select: '-__v -passwordChangedAt'})\<close>: every id of
  the array is replaced by the projected user, in the order of the array; an id no user
  has is dropped from the result.\<close>

definition populate_guides :: "user_store \<Rightarrow> tour_doc \<Rightarrow> user_doc list" where
  "populate_guides users d =
     List.map_filter (\<lambda>i. map_option (select_out [''__v'', ''passwordChangedAt'']) (users i))
       (guides d)"

text \<open>A review as the review query middleware returns it: \<open>user\<close> populated with
  \<open>select: 'name photo'\<close>, \<open>null\<close> when no user has the id.\<close>

record review_view =
  rv_review :: review_doc
  rv_user :: "user_doc option"

definition populate_review_user :: "user_store \<Rightarrow> review_doc \<Rightarrow> review_view" where
  "populate_review_user users r =
     \<lparr>rv_review = r, rv_user = map_option (select_in [''name'', ''photo'']) (users (user r))\<rparr>"

text \<open>The virtual \<open>reviews\<close>: \<open>Review.find({tour: this._id})\<close> in natural order, a
  query that runs the review \<open>pre(/^find/)\<close> hook above.\<close>

definition populate_reviews :: "user_store \<Rightarrow> review_doc list \<Rightarrow> tour_doc \<Rightarrow> review_view list" where
  "populate_reviews users rs d =
     map (populate_review_user users) (filter (\<lambda>r. tour r = tour_id d) rs)"

section \<open>A tour read by id\<close>

text \<open>\<open>Tour.findById(id).populate('reviews')\<close>, serialised with \<open>toJSON: {virtuals:
  true}\<close>: the two \<open>pre(/^find/)\<close> hooks of the tour schema run on the query (the
  secret-tour condition, then the guides populate), and the virtuals are computed on the
  document found. \<open>None\<close> is the \<open>null\<close> the query resolves to.\<close>

record tour_view =
  tv_tour :: tour_doc
  tv_durationWeeks :: rat
  tv_guides :: "user_doc list"
  tv_reviews :: "review_view list"

definition tour_findById_view :: "user_store \<Rightarrow> db \<Rightarrow> oid \<Rightarrow> tour_view option" where
  "tour_findById_view users st tid =
     map_option (\<lambda>d. \<lparr>tv_tour = d, tv_durationWeeks = durationWeeks d,
                       tv_guides = populate_guides users d,
                       tv_reviews = populate_reviews users (reviews st) d\<rparr>)
       (find (\<lambda>d. tour_id d = tid \<and> tour_find_hook d) (tours st))"

section \<open>An example store\<close>

text \<open>One published tour with two guide ids, only the first of which is a user, and one
  review of it by that user; the aggregate fields match the review.\<close>

definition example_view_db :: db where
  "example_view_db =
     \<lparr>reviews = [\<lparr>review_id = 100, review = ''Great guides'', rating = 5, createdAt = 1000,
                  tour = 1, user = 7\<rparr>],
      tours = [(example_tour 1 False)\<lparr>ratingsAverage := 5, ratingsQuantity := 1,
                                      guides := [7, 8]\<rparr>,
               example_tour 2 True],
      next_id = 101, load_time = 1000\<rparr>"

definition example_users :: user_store where
  "example_users =
     [7 \<mapsto> [(''_id'', JStr ''7''), (''name'', JStr ''Lourdes Browning''),
            (''email'', JStr ''lourdes@example.com''), (''photo'', JStr ''user-7.jpg''),
            (''passwordChangedAt'', JStr ''2019-04-30''), (''__v'', JStr ''0'')]]"

section \<open>Populate\<close>

lemma map_filter_map_option:
  "List.map_filter (\<lambda>i. map_option f (g i)) xs = map f (List.map_filter g xs)"
  by (induction xs) (auto simp: List.map_filter_def)

lemma populate_guides_eq:
  "populate_guides users d =
     map (select_out [''__v'', ''passwordChangedAt'']) (List.map_filter users (guides d))"
  by (simp add: populate_guides_def map_filter_map_option)

lemma map_filter_length_le: "length (List.map_filter f xs) \<le> length xs"
  by (induction xs) (auto simp: List.map_filter_def le_SucI)

lemma select_out_keys: "fst ` set (select_out ks u) = fst ` set u - set ks"
  by (auto simp: select_out_def image_iff)

lemma select_in_keys: "fst ` set (select_in ks u) \<subseteq> insert ''_id'' (set ks)"
  by (auto simp: select_in_def)

lemma populate_reviews_reviews:
  "map rv_review (populate_reviews users rs d) = tour_reviews (tour_id d) rs"
  by (simp add: populate_reviews_def populate_review_user_def tour_reviews_def comp_def)

section \<open>Reading a tour\<close>

lemma tour_findById_view_Some:
  assumes "tour_findById_view users st tid = Some v"
  obtains d where "d \<in> set (tours st)" "tour_id d = tid" "\<not> secretTour d"
    and "v = \<lparr>tv_tour = d, tv_durationWeeks = durationWeeks d,
               tv_guides = populate_guides users d,
               tv_reviews = populate_reviews users (reviews st) d\<rparr>"
  using assms by (auto simp: tour_findById_view_def tour_find_hook_def dest!: find_SomeD)

lemma tour_findById_view_None:
  "tour_findById_view users st tid = None \<longleftrightarrow>
     (\<forall>d\<in>set (tours st). tour_id d = tid \<longrightarrow> secretTour d)"
  by (auto simp: tour_findById_view_def tour_find_hook_def find_None_iff)

text \<open>
  A tour read by id through the query middleware is the stored tour with that id,
  never a secret one; in a store whose aggregates are consistent the ratings it shows
  count and average exactly the reviews its \<open>reviews\<close> virtual lists, which are the
  store's reviews of that tour in order; \<open>durationWeeks\<close> is the duration over seven;
  its guides are the existing users of the \<open>guides\<close> array in order, none carrying
  \<open>__v\<close> or \<open>passwordChangedAt\<close>; each review's author shows at most \<open>_id\<close>,
  \<open>name\<close> and \<open>photo\<close>.
\<close>

theorem tour_view_consistent:
  assumes "ratings_consistent st" and "tour_findById_view users st tid = Some v"
  shows "tour_id (tv_tour v) = tid \<and> \<not> secretTour (tv_tour v) \<and>
    tv_durationWeeks v = duration (tv_tour v) / 7 \<and>
    map rv_review (tv_reviews v) = tour_reviews tid (reviews st) \<and>
    ratingsQuantity (tv_tour v) = length (tv_reviews v) \<and>
    ratingsAverage (tv_tour v) = expected_average (map rv_review (tv_reviews v)) \<and>
    tv_guides v = map (select_out [''__v'', ''passwordChangedAt''])
                    (List.map_filter users (guides (tv_tour v))) \<and>
    (\<forall>g\<in>set (tv_guides v). ''__v'' \<notin> fst ` set g \<and> ''passwordChangedAt'' \<notin> fst ` set g) \<and>
    (\<forall>rv\<in>set (tv_reviews v). \<forall>u. rv_user rv = Some u \<longrightarrow>
       fst ` set u \<subseteq> {''_id'', ''name'', ''photo''})"
proof -
  obtain d where d: "d \<in> set (tours st)" "tour_id d = tid" "\<not> secretTour d"
    and v: "v = \<lparr>tv_tour = d, tv_durationWeeks = durationWeeks d,
                  tv_guides = populate_guides users d,
                  tv_reviews = populate_reviews users (reviews st) d\<rparr>"
    using assms(2) by (rule tour_findById_view_Some)
  have agg: "aggregate_ok (reviews st) d"
    using assms(1) d by (auto simp: ratings_consistent_def list_all_iff)
  have revs: "map rv_review (tv_reviews v) = tour_reviews tid (reviews st)"
    using d(2) by (simp add: v populate_reviews_reviews)
  have len: "length (tv_reviews v) = length (tour_reviews tid (reviews st))"
    using arg_cong [OF revs, of length] by simp
  have users: "\<forall>rv\<in>set (tv_reviews v). \<forall>u. rv_user rv = Some u \<longrightarrow>
       fst ` set u \<subseteq> {''_id'', ''name'', ''photo''}"
    using select_in_keys [of "[''name'', ''photo'']"]
    by (auto simp: v populate_reviews_def populate_review_user_def)
  show ?thesis
    using d agg revs len users
    by (simp add: v aggregate_ok_def durationWeeks_def populate_guides_eq select_out_keys)
qed

theorem tour_view_consistent_witness:
  "tv_guides (the (tour_findById_view example_users example_view_db 1)) =
     [[(''_id'', JStr ''7''), (''name'', JStr ''Lourdes Browning''),
       (''email'', JStr ''lourdes@example.com''), (''photo'', JStr ''user-7.jpg'')]] \<and>
   ratingsAverage (tv_tour (the (tour_findById_view example_users example_view_db 1))) =
     expected_average (map rv_review (tv_reviews (the (tour_findById_view example_users example_view_db 1)))) \<and>
   tour_findById_view example_users example_view_db 2 = None"
proof -
  have avg: "set_ratingsAverage 5 = 5"
    using set_ratingsAverage_decimal [of 50] by simp
  have c: "ratings_consistent example_view_db"
    using avg by (simp add: ratings_consistent_def example_view_db_def example_tour_def
        aggregate_ok_def tour_reviews_def expected_average_def mean_rating_def)
  have s: "tour_findById_view example_users example_view_db 1 \<noteq> None"
    by (simp add: tour_findById_view_None example_view_db_def example_tour_def)
  then obtain v where v: "tour_findById_view example_users example_view_db 1 = Some v" by blast
  have t: "tv_guides v = map (select_out [''__v'', ''passwordChangedAt''])
              (List.map_filter example_users (guides (tv_tour v))) \<and>
           ratingsAverage (tv_tour v) = expected_average (map rv_review (tv_reviews v))"
    using tour_view_consistent [OF c v] by blast
  have g: "guides (tv_tour v) = [7, 8]"
    using v by (auto simp: example_view_db_def example_tour_def elim!: tour_findById_view_Some)
  have n: "tour_findById_view example_users example_view_db 2 = None"
    by (simp add: tour_findById_view_None example_view_db_def example_tour_def)
  have m: "List.map_filter example_users [7, 8] =
      [[(''_id'', JStr ''7''), (''name'', JStr ''Lourdes Browning''),
        (''email'', JStr ''lourdes@example.com''), (''photo'', JStr ''user-7.jpg''),
        (''passwordChangedAt'', JStr ''2019-04-30''), (''__v'', JStr ''0'')]]"
    by (simp add: example_users_def List.map_filter_def)
  have gv: "tv_guides v =
      [[(''_id'', JStr ''7''), (''name'', JStr ''Lourdes Browning''),
        (''email'', JStr ''lourdes@example.com''), (''photo'', JStr ''user-7.jpg'')]]"
    using t g m by (simp add: select_out_def)
  show ?thesis
    unfolding v option.sel using gv t n by blast
qed

end
